(* ===== verification/Prelude.thy ===== *)
theory Prelude
  imports Main "HOL-Library.Sublist"
begin

text \<open>
  What every component of the development shares: the result type of fallible
  operations, tables of rows keyed by an integer primary key (with the queries
  SQLAlchemy runs on them), the clock, and the collections of rules the proofs
  of the components use.
\<close>

section \<open>Rule collections\<close>

named_theorems table_simps \<open>how a query answers after a write\<close>
named_theorems handler_defs \<open>definitions of the operations of a component\<close>

section \<open>The clock\<close>

text \<open>
  A Python datetime is modelled by the microseconds since the epoch it denotes.
  The code reads a naive value as UTC everywhere, so a naive and an aware value
  with the same fields are the same number. A timedelta is a number of
  microseconds as well.
\<close>

type_synonym time = int

definition seconds :: "int \<Rightarrow> time" where
  "seconds n = n * 1000000"

definition minutes :: "int \<Rightarrow> time" where
  "minutes n = seconds (60 * n)"

definition hours :: "int \<Rightarrow> time" where
  "hours n = minutes (60 * n)"

definition days :: "int \<Rightarrow> time" where
  "days n = hours (24 * n)"

lemma seconds_mono [simp]: "seconds a \<le> seconds b \<longleftrightarrow> a \<le> b"
  by (simp add: seconds_def)

lemma days_eq: "days n = 86400000000 * n"
  by (simp add: days_def hours_def minutes_def seconds_def)

lemma days_pos: "1 \<le> n \<Longrightarrow> 0 < days n"
  by (simp add: days_eq)

lemma days_mono: "m \<le> n \<Longrightarrow> days m \<le> days n"
  by (simp add: days_eq)

section \<open>Tables\<close>

text \<open>
  A table is the list of its rows; \<open>k\<close> reads a row's primary key. \<open>get_row\<close> is
  \<open>db.session.get(Model, i)\<close>, \<open>put_row\<close> writes a row back after its columns were
  assigned, \<open>first_row\<close> is \<open>filter(...).first()\<close> and \<open>fresh_id\<close> the key the database
  gives the next inserted row (SQLite: one more than the largest in the table).
\<close>

definition get_row :: "('r \<Rightarrow> nat) \<Rightarrow> nat \<Rightarrow> 'r list \<Rightarrow> 'r option" where
  "get_row k i t = find (\<lambda>r. k r = i) t"

definition put_row :: "('r \<Rightarrow> nat) \<Rightarrow> 'r \<Rightarrow> 'r list \<Rightarrow> 'r list" where
  "put_row k r t = map (\<lambda>x. if k x = k r then r else x) t"

definition first_row :: "('r \<Rightarrow> bool) \<Rightarrow> 'r list \<Rightarrow> 'r option" where
  "first_row p t = find p t"

definition fresh_id :: "('r \<Rightarrow> nat) \<Rightarrow> 'r list \<Rightarrow> nat" where
  "fresh_id k t = Suc (foldr max (map k t) 0)"

definition wf_table :: "('r \<Rightarrow> nat) \<Rightarrow> 'r list \<Rightarrow> bool" where
  "wf_table k t \<longleftrightarrow> distinct (map k t)"

lemma find_Some_mem: "find p xs = Some x \<Longrightarrow> x \<in> set xs \<and> p x"
  by (induction xs) (auto split: if_splits)

lemma find_None_all: "find p xs = None \<longleftrightarrow> (\<forall>x \<in> set xs. \<not> p x)"
  by (induction xs) auto

lemma get_row_Some: "get_row k i t = Some r \<Longrightarrow> r \<in> set t \<and> k r = i"
  by (auto simp: get_row_def dest: find_Some_mem)

lemma get_row_key: "get_row k i t = Some r \<Longrightarrow> k r = i"
  by (simp add: get_row_Some)

lemma get_row_mem: "get_row k i t = Some r \<Longrightarrow> r \<in> set t"
  by (simp add: get_row_Some)

lemma get_row_None: "get_row k i t = None \<longleftrightarrow> i \<notin> k ` set t"
  by (auto simp: get_row_def find_None_all)

lemma get_row_in: "wf_table k t \<Longrightarrow> r \<in> set t \<Longrightarrow> get_row k (k r) t = Some r"
  by (induction t) (auto simp: get_row_def wf_table_def rev_image_eqI)

lemma get_row_map:
  assumes "\<And>x. x \<in> set t \<Longrightarrow> k (f x) = k x"
  shows "get_row k i (map f t) = map_option f (get_row k i t)"
  using assms by (induction t) (auto simp: get_row_def)

lemma put_row_keys [table_simps]: "map k (put_row k r t) = map k t"
  by (simp add: put_row_def)

lemma put_row_wf [table_simps]: "wf_table k (put_row k r t) = wf_table k t"
  by (simp add: wf_table_def put_row_keys)

lemma get_put_same [table_simps]:
  "k r = i \<Longrightarrow> get_row k i (put_row k r t) = (case get_row k i t of None \<Rightarrow> None | Some _ \<Rightarrow> Some r)"
  by (induction t) (auto simp: get_row_def put_row_def)

lemma get_put_other [table_simps]:
  "k r \<noteq> i \<Longrightarrow> get_row k i (put_row k r t) = get_row k i t"
  by (induction t) (auto simp: get_row_def put_row_def)

lemma set_put_row:
  "set (put_row k r t) = (if k r \<in> k ` set t then insert r {x \<in> set t. k x \<noteq> k r} else set t)"
proof (cases "k r \<in> k ` set t")
  case True
  then show ?thesis by (auto simp: put_row_def)
next
  case False
  then have "put_row k r t = t"
    unfolding put_row_def by (intro map_idI) (auto intro: rev_image_eqI)
  with False show ?thesis by simp
qed

lemma put_row_mem: "x \<in> set (put_row k r t) \<Longrightarrow> x = r \<or> x \<in> set t \<and> k x \<noteq> k r"
  by (auto simp: put_row_def split: if_splits)

lemma fresh_id_gt: "r \<in> set t \<Longrightarrow> k r < fresh_id k t"
  by (induction t) (auto simp: fresh_id_def)

lemma fresh_id_notin: "fresh_id k t \<notin> k ` set t"
  by (auto dest: fresh_id_gt [of _ _ k])

lemma wf_table_snoc: "wf_table k t \<Longrightarrow> k r = fresh_id k t \<Longrightarrow> wf_table k (t @ [r])"
  using fresh_id_notin [of k t] by (auto simp: wf_table_def)

lemma length_filter_put:
  assumes "wf_table k t" and "get_row k (k r) t = Some old" and "p old" and "\<not> p r"
  shows "Suc (length (filter p (put_row k r t))) = length (filter p t)"
  using assms
proof (induction t)
  case Nil
  then show ?case by (simp add: get_row_def)
next
  case (Cons x t)
  show ?case
  proof (cases "k x = k r")
    case True
    with Cons.prems have "x = old" and "k r \<notin> k ` set t"
      by (auto simp: get_row_def wf_table_def)
    then have "x = old" and "\<forall>y \<in> set t. k y \<noteq> k r"
      by (auto intro: rev_image_eqI)
    then have "put_row k r t = t" by (auto simp: put_row_def intro: map_idI)
    with True \<open>x = old\<close> Cons.prems show ?thesis by (simp add: put_row_def)
  next
    case False
    with Cons show ?thesis by (auto simp: get_row_def wf_table_def put_row_def)
  qed
qed

end
