(* ===== verification/Json.thy ===== *)
theory Json
  imports PyStrings
begin

text \<open>
  The part of Python's \<open>json\<close> module the program uses: \<open>json.dumps\<close> with
  \<open>ensure_ascii\<close> (in the default layout and in the compact one of the audit
  chain), \<open>sort_keys\<close>, and \<open>json.loads\<close> on the fragment without floating-point
  numbers and without code points above 255 (the parser answers None there as
  it does on malformed text). A dict is the list of its items in insertion
  order. The main fact is the round trip, from which the injectivity of the
  printer follows.
\<close>

section \<open>Values and printer\<close>

datatype json =
    JNull
  | JBool bool
  | JInt int
  | JStr string
  | JArr "json list"
  | JObj "(string \<times> json) list"

datatype jlayout = Spaced | Compact

fun item_sep :: "jlayout \<Rightarrow> string" where
  "item_sep Spaced = '', ''"
| "item_sep Compact = '',''"

fun key_sep :: "jlayout \<Rightarrow> string" where
  "key_sep Spaced = '': ''"
| "key_sep Compact = '':''"

abbreviation quote_char :: char where "quote_char \<equiv> CHR 0x22"
abbreviation backslash :: char where "backslash \<equiv> CHR 0x5C"

definition hex_digit :: "nat \<Rightarrow> char" where
  "hex_digit d = (if d < 10 then char_of (48 + d) else char_of (87 + d))"

definition escape_char :: "char \<Rightarrow> string" where
  "escape_char c =
     (if c = quote_char \<or> c = backslash then [backslash, c]
      else if char_code c = 10 then [backslash, CHR ''n'']
      else if char_code c = 13 then [backslash, CHR ''r'']
      else if char_code c = 9 then [backslash, CHR ''t'']
      else if char_code c = 12 then [backslash, CHR ''f'']
      else if char_code c = 8 then [backslash, CHR ''b'']
      else if 32 \<le> char_code c \<and> char_code c \<le> 126 then [c]
      else backslash # ''u00'' @ [hex_digit (char_code c div 16), hex_digit (char_code c mod 16)])"

definition dumps_str :: "string \<Rightarrow> string" where
  "dumps_str s = quote_char # concat (map escape_char s) @ [quote_char]"

fun dumps :: "jlayout \<Rightarrow> json \<Rightarrow> string"
and dumps_items :: "jlayout \<Rightarrow> json list \<Rightarrow> string"
and dumps_members :: "jlayout \<Rightarrow> (string \<times> json) list \<Rightarrow> string" where
  "dumps l JNull = ''null''"
| "dumps l (JBool b) = (if b then ''true'' else ''false'')"
| "dumps l (JInt i) = show_int i"
| "dumps l (JStr s) = dumps_str s"
| "dumps l (JArr xs) = CHR ''['' # dumps_items l xs @ '']''"
| "dumps l (JObj kvs) = CHR ''{'' # dumps_members l kvs @ ''}''"
| "dumps_items l [] = []"
| "dumps_items l (x # xs) = dumps l x @ (if xs = [] then [] else item_sep l @ dumps_items l xs)"
| "dumps_members l [] = []"
| "dumps_members l ((k, v) # kvs) =
     dumps_str k @ key_sep l @ dumps l v @ (if kvs = [] then [] else item_sep l @ dumps_members l kvs)"

text \<open>\<open>sort_keys=True\<close>, at every depth.\<close>

fun sort_json :: "json \<Rightarrow> json" where
  "sort_json (JArr xs) = JArr (map sort_json xs)"
| "sort_json (JObj kvs) = JObj (sort_key fst (map (\<lambda>kv. (fst kv, sort_json (snd kv))) kvs))"
| "sort_json j = j"

text \<open>\<open>d.get(k)\<close>: a key given twice keeps its last value.\<close>

definition jget :: "string \<Rightarrow> json \<Rightarrow> json option" where
  "jget k j = (case j of JObj kvs \<Rightarrow> map_of (rev kvs) k | _ \<Rightarrow> None)"

section \<open>Parser\<close>

definition is_ws :: "char \<Rightarrow> bool" where
  "is_ws c \<longleftrightarrow> char_code c \<in> set [9, 10, 13, 32]"

definition skip_ws :: "string \<Rightarrow> string" where
  "skip_ws s = dropWhile is_ws s"

definition hex_val :: "char \<Rightarrow> nat option" where
  "hex_val c =
     (if is_digit c then Some (char_code c - 48)
      else if 97 \<le> char_code c \<and> char_code c \<le> 102 then Some (char_code c - 87)
      else if 65 \<le> char_code c \<and> char_code c \<le> 70 then Some (char_code c - 55)
      else None)"

fun hex_value :: "string \<Rightarrow> nat option" where
  "hex_value [] = Some 0"
| "hex_value (c # cs) =
     (case (hex_val c, hex_value cs) of
        (Some d, Some n) \<Rightarrow> Some (d * 16 ^ length cs + n)
      | _ \<Rightarrow> None)"

text \<open>What follows a backslash: the character it denotes and the rest.\<close>

definition unescape :: "string \<Rightarrow> (char \<times> string) option" where
  "unescape s =
     (case s of
        [] \<Rightarrow> None
      | e # r \<Rightarrow>
          if e = quote_char \<or> e = backslash \<or> e = CHR ''/'' then Some (e, r)
          else if e = CHR ''n'' then Some (char_of (10 :: nat), r)
          else if e = CHR ''r'' then Some (char_of (13 :: nat), r)
          else if e = CHR ''t'' then Some (char_of (9 :: nat), r)
          else if e = CHR ''f'' then Some (char_of (12 :: nat), r)
          else if e = CHR ''b'' then Some (char_of (8 :: nat), r)
          else if e = CHR ''u'' \<and> 4 \<le> length r then
            (case hex_value (take 4 r) of
               Some n \<Rightarrow> if n < 256 then Some (char_of n, drop 4 r) else None
             | None \<Rightarrow> None)
          else None)"

lemma unescape_shorter: "unescape s = Some (c, r) \<Longrightarrow> length r < length s"
  by (auto simp: unescape_def split: list.splits if_splits option.splits)

function parse_str :: "string \<Rightarrow> (string \<times> string) option" where
  "parse_str [] = None"
| "parse_str (c # r) =
     (if c = quote_char then Some ([], r)
      else if c = backslash then
        (case unescape r of
           None \<Rightarrow> None
         | Some (x, r') \<Rightarrow> map_option (\<lambda>(s, q). (x # s, q)) (parse_str r'))
      else if char_code c < 32 then None
      else map_option (\<lambda>(s, q). (c # s, q)) (parse_str r))"
  by pat_completeness auto
termination
  by (relation "measure length") (auto dest: unescape_shorter)

definition int_digits :: "string \<Rightarrow> string \<times> string" where
  "int_digits t =
     (if t \<noteq> [] \<and> hd t = CHR ''0'' then (''0'', tl t) else (takeWhile is_digit t, dropWhile is_digit t))"

definition parse_int :: "string \<Rightarrow> (int \<times> string) option" where
  "parse_int s =
     (let neg = (s \<noteq> [] \<and> hd s = CHR ''-'');
          (ds, r) = int_digits (if neg then tl s else s)
      in if ds = [] \<or> (r \<noteq> [] \<and> (hd r = CHR ''.'' \<or> hd r = CHR ''e'' \<or> hd r = CHR ''E'')) then None
         else Some (if neg then - int (read_nat ds) else int (read_nat ds), r))"

fun parse_value :: "nat \<Rightarrow> string \<Rightarrow> (json \<times> string) option"
and parse_items :: "nat \<Rightarrow> string \<Rightarrow> (json list \<times> string) option"
and parse_members :: "nat \<Rightarrow> string \<Rightarrow> ((string \<times> json) list \<times> string) option" where
  "parse_value 0 s = None"
| "parse_value (Suc n) s =
     (case s of
        [] \<Rightarrow> None
      | c # r \<Rightarrow>
          if c = quote_char then map_option (\<lambda>(t, q). (JStr t, q)) (parse_str r)
          else if c = CHR ''['' then
            (case skip_ws r of
               [] \<Rightarrow> None
             | d # q \<Rightarrow> if d = CHR '']'' then Some (JArr [], q)
                        else map_option (\<lambda>(xs, q). (JArr xs, q)) (parse_items n (d # q)))
          else if c = CHR ''{'' then
            (case skip_ws r of
               [] \<Rightarrow> None
             | d # q \<Rightarrow> if d = CHR ''}'' then Some (JObj [], q)
                        else map_option (\<lambda>(kvs, q). (JObj kvs, q)) (parse_members n (d # q)))
          else if startswith s ''null'' then Some (JNull, drop 4 s)
          else if startswith s ''true'' then Some (JBool True, drop 4 s)
          else if startswith s ''false'' then Some (JBool False, drop 5 s)
          else map_option (\<lambda>(i, q). (JInt i, q)) (parse_int s))"
| "parse_items 0 s = None"
| "parse_items (Suc n) s =
     (case parse_value n s of
        None \<Rightarrow> None
      | Some (x, r) \<Rightarrow>
          (case skip_ws r of
             [] \<Rightarrow> None
           | d # q \<Rightarrow> if d = CHR '']'' then Some ([x], q)
                      else if d = CHR '','' then map_option (\<lambda>(xs, q'). (x # xs, q')) (parse_items n (skip_ws q))
                      else None))"
| "parse_members 0 s = None"
| "parse_members (Suc n) s =
     (case s of
        [] \<Rightarrow> None
      | c # r \<Rightarrow>
          if c \<noteq> quote_char then None
          else (case parse_str r of
             None \<Rightarrow> None
           | Some (k, q) \<Rightarrow>
               (case skip_ws q of
                  [] \<Rightarrow> None
                | d # q' \<Rightarrow>
                    if d \<noteq> CHR '':'' then None
                    else (case parse_value n (skip_ws q') of
                       None \<Rightarrow> None
                     | Some (v, u) \<Rightarrow>
                         (case skip_ws u of
                            [] \<Rightarrow> None
                          | e # u' \<Rightarrow>
                              if e = CHR ''}'' then Some ([(k, v)], u')
                              else if e = CHR '','' then
                                map_option (\<lambda>(kvs, z). ((k, v) # kvs, z)) (parse_members n (skip_ws u'))
                              else None)))))"

text \<open>
  \<open>json.loads\<close>: one value with nothing but white space around it. Every nested
  call consumes a character, so the length of the text is fuel enough
  (\<open>loads_dumps\<close> below shows that no printed value runs out of it).
\<close>

definition loads :: "string \<Rightarrow> json option" where
  "loads s =
     (case parse_value (Suc (length s)) (skip_ws s) of
        Some (j, r) \<Rightarrow> if skip_ws r = [] then Some j else None
      | None \<Rightarrow> None)"


section \<open>Reading back what was printed\<close>

declare parse_str.simps [simp del]

lemma hex_val_digit [simp]: "d < 16 \<Longrightarrow> hex_val (hex_digit d) = Some d"
  by (auto simp: hex_val_def hex_digit_def is_digit_def code_char_of)

lemma code_consts: "char_code quote_char = 34" "char_code backslash = 92" "char_code (CHR ''/'') = 47" "char_code (CHR ''n'') = 110"
    "char_code (CHR ''r'') = 114" "char_code (CHR ''t'') = 116" "char_code (CHR ''f'') = 102" "char_code (CHR ''b'') = 98"
    "char_code (CHR ''u'') = 117" "char_code (CHR ''0'') = 48" "char_code (CHR ''-'') = 45" "char_code (CHR ''.'') = 46"
    "char_code (CHR ''e'') = 101" "char_code (CHR ''E'') = 69" "char_code (CHR '','') = 44" "char_code (CHR '']'') = 93"
    "char_code (CHR ''}'') = 125" "char_code (CHR ''['') = 91" "char_code (CHR ''{'') = 123" "char_code (CHR '':'') = 58"
    "char_code (CHR '' '') = 32"
  by (simp_all add: char_code_def)

lemma hex_val_0 [simp]: "hex_val (CHR ''0'') = Some 0"
  by (simp add: hex_val_def is_digit_def code_consts)

lemma unescape_u: "n < 256 \<Longrightarrow>
  unescape (''u00'' @ hex_digit (n div 16) # hex_digit (n mod 16) # r) = Some (char_of n, r)"
  by (simp add: unescape_def)

lemma char_of_codeI: "char_code c = n \<Longrightarrow> char_of n = c"
  by auto

lemma parse_escape: "parse_str (escape_char c @ r) = map_option (\<lambda>(s, q). (c # s, q)) (parse_str r)"
proof -
  have esc: "unescape (t @ r) = Some (c, r)" if "escape_char c = backslash # t" for t
    using that unescape_u [of "char_code c" r]
    by (auto simp: escape_char_def unescape_def char_of_codeI split: if_splits)
  have "(\<exists>t. escape_char c = backslash # t) \<or>
      escape_char c = [c] \<and> c \<noteq> quote_char \<and> c \<noteq> backslash \<and> 32 \<le> char_code c"
    by (auto simp: escape_char_def)
  then show ?thesis
  proof
    assume "\<exists>t. escape_char c = backslash # t"
    then obtain t where t: "escape_char c = backslash # t" by auto
    with esc [OF t] show ?thesis
      by (simp add: parse_str.simps(2) [of backslash])
  next
    assume "escape_char c = [c] \<and> c \<noteq> quote_char \<and> c \<noteq> backslash \<and> 32 \<le> char_code c"
    then show ?thesis by (simp add: parse_str.simps(2) [of c])
  qed
qed

lemma parse_dumps_str [simp]: "parse_str (concat (map escape_char s) @ quote_char # r) = Some (s, r)"
proof (induction s)
  case Nil
  then show ?case by (simp add: parse_str.simps(2) [of quote_char])
next
  case (Cons c s)
  then show ?case by (simp add: parse_escape)
qed

text \<open>What may follow a printed value: nothing, or a separator.\<close>

definition ends_value :: "string \<Rightarrow> bool" where
  "ends_value r \<longleftrightarrow> r = [] \<or> hd r = CHR '','' \<or> hd r = CHR '']'' \<or> hd r = CHR ''}''"

lemma ends_value_digit: "ends_value r \<Longrightarrow> takeWhile is_digit r = []"
  by (cases r) (auto simp: ends_value_def is_digit_def code_consts)

lemma dropWhile_digits: "ends_value r \<Longrightarrow> dropWhile is_digit r = r"
  by (cases r) (auto simp: ends_value_def is_digit_def code_consts)

lemma int_digits_show [simp]: "ends_value r \<Longrightarrow> int_digits (show_nat n @ r) = (show_nat n, r)"
  using show_nat_digits [of _ n] show_nat_hd [of n]
  by (cases "n = 0")
    (simp_all add: int_digits_def takeWhile_append2 dropWhile_append2 ends_value_digit dropWhile_digits)

lemma show_nat_hd_digit: "is_digit (hd (show_nat n))"
  by (meson hd_in_set show_nat_digits show_nat_not_Nil)

lemma parse_show_int:
  assumes "ends_value r"
  shows "parse_int (show_int i @ r) = Some (i, r)"
proof -
  have not_minus: "hd (show_nat n) \<noteq> CHR ''-''" for n
    using show_nat_hd_digit [of n] by (auto simp: is_digit_def code_consts)
  have "\<not> (r \<noteq> [] \<and> (hd r = CHR ''.'' \<or> hd r = CHR ''e'' \<or> hd r = CHR ''E''))"
    using assms by (auto simp: ends_value_def)
  with not_minus assms show ?thesis
    by (auto simp: parse_int_def show_int_def Let_def)
qed

lemma skip_ws_same: "\<not> is_ws c \<Longrightarrow> skip_ws (c # r) = c # r"
  by (simp add: skip_ws_def)

lemma is_ws_simps [simp]: "\<not> is_ws quote_char" "\<not> is_ws (CHR ''['')" "\<not> is_ws (CHR ''{'')" "\<not> is_ws (CHR '']'')"
  "\<not> is_ws (CHR ''}'')" "\<not> is_ws (CHR '','')" "\<not> is_ws (CHR '':'')" "is_ws (CHR '' '')"
  "\<not> is_ws (CHR ''n'')" "\<not> is_ws (CHR ''t'')" "\<not> is_ws (CHR ''f'')" "\<not> is_ws (CHR ''-'')"
  by (simp_all add: is_ws_def code_consts)

lemma is_digit_simps [simp]: "\<not> is_digit quote_char" "\<not> is_digit (CHR ''['')" "\<not> is_digit (CHR ''{'')"
  "\<not> is_digit (CHR '']'')" "\<not> is_digit (CHR ''-'')" "\<not> is_digit (CHR ''n'')" "\<not> is_digit (CHR ''t'')"
  "\<not> is_digit (CHR ''f'')" "\<not> is_digit (CHR ''}'')"
  by (simp_all add: is_digit_def code_consts)

lemma digit_not_ws: "is_digit c \<Longrightarrow> \<not> is_ws c"
  by (auto simp: is_ws_def is_digit_def)

lemma show_int_hd: "\<exists>c t. show_int i = c # t \<and> (c = CHR ''-'' \<or> is_digit c)"
proof -
  obtain c t where "show_nat (nat i) = c # t" by (cases "show_nat (nat i)") auto
  with show_nat_digits [of c "nat i"] show ?thesis by (simp add: show_int_def)
qed

lemma dumps_hd: "\<exists>c t. dumps l j = c # t \<and> \<not> is_ws c \<and> c \<noteq> CHR '']'' \<and> c \<noteq> CHR ''}''"
proof (cases j)
  case (JInt i)
  with show_int_hd [of i] digit_not_ws show ?thesis by fastforce
qed (auto simp: dumps_str_def)

lemma skip_ws_dumps [simp]: "skip_ws (dumps l j @ r) = dumps l j @ r"
  using dumps_hd [of l j] by (auto simp: skip_ws_same)

fun json_fuel :: "json \<Rightarrow> nat"
and items_fuel :: "json list \<Rightarrow> nat"
and members_fuel :: "(string \<times> json) list \<Rightarrow> nat" where
  "json_fuel (JArr xs) = Suc (items_fuel xs)"
| "json_fuel (JObj kvs) = Suc (members_fuel kvs)"
| "json_fuel j = 1"
| "items_fuel [] = 0"
| "items_fuel (x # xs) = Suc (json_fuel x + items_fuel xs)"
| "members_fuel [] = 0"
| "members_fuel ((k, v) # kvs) = Suc (json_fuel v + members_fuel kvs)"

lemma skip_ws_item_sep [simp]: "skip_ws (item_sep l @ r) = item_sep l @ r" "hd (item_sep l @ r) = CHR '',''"
  "skip_ws (tl (item_sep l @ r)) = skip_ws r"
  by (cases l; simp add: skip_ws_def)+

lemma parse_value_int:
  assumes "ends_value r"
  shows "parse_value (Suc n) (show_int i @ r) = Some (JInt i, r)"
proof -
  obtain c t where ct: "show_int i = c # t" "c = CHR ''-'' \<or> is_digit c"
    using show_int_hd by blast
  moreover have "parse_int (c # t @ r) = Some (i, r)"
    using parse_show_int [OF assms, of i] ct by simp
  moreover have "c \<notin> {quote_char, CHR ''['', CHR ''{'', CHR ''n'', CHR ''t'', CHR ''f''}"
    using ct(2) by auto
  ultimately show ?thesis by (auto simp: startswith_def)
qed

lemma parse_dumps_all:
  "json_fuel j \<le> n \<Longrightarrow> ends_value r \<Longrightarrow> parse_value n (dumps l j @ r) = Some (j, r)"
  "xs \<noteq> [] \<Longrightarrow> items_fuel xs \<le> n \<Longrightarrow> parse_items n (dumps_items l xs @ CHR '']'' # r) = Some (xs, r)"
  "kvs \<noteq> [] \<Longrightarrow> members_fuel kvs \<le> n \<Longrightarrow>
     parse_members n (dumps_members l kvs @ CHR ''}'' # r) = Some (kvs, r)"
proof (induction l j and l xs and l kvs arbitrary: n r and n r and n r rule: dumps_dumps_items_dumps_members.induct)
  case (1 l)
  then show ?case by (cases n) (simp_all add: startswith_def)
next
  case (2 l b)
  then show ?case by (cases n) (auto simp: startswith_def)
next
  case (3 l i)
  then show ?case by (cases n) (simp_all add: parse_value_int del: parse_value.simps(2))
next
  case (4 l s)
  then show ?case by (cases n) (simp_all add: dumps_str_def)
next
  case (5 l xs)
  then obtain m where [simp]: "n = Suc m" by (cases n) auto
  show ?case
  proof (cases xs)
    case Nil
    then show ?thesis by (simp add: skip_ws_def)
  next
    case (Cons x ys)
    with 5 have "parse_items m (dumps_items l xs @ CHR '']'' # r) = Some (xs, r)" by simp
    moreover obtain c t where "dumps_items l xs = c # t" "\<not> is_ws c" "c \<noteq> CHR '']''"
      using Cons dumps_hd [of l x] by auto
    ultimately show ?thesis by (simp add: skip_ws_same)
  qed
next
  case (6 l kvs)
  then obtain m where [simp]: "n = Suc m" by (cases n) auto
  show ?case
  proof (cases kvs)
    case Nil
    then show ?thesis by (simp add: skip_ws_def)
  next
    case (Cons x ys)
    with 6 have "parse_members m (dumps_members l kvs @ CHR ''}'' # r) = Some (kvs, r)" by simp
    moreover obtain t where "dumps_members l kvs = quote_char # t"
      using Cons by (cases x) (auto simp: dumps_str_def)
    ultimately show ?thesis by (simp add: skip_ws_same)
  qed
next
  case (7 l)
  then show ?case by simp
next
  case (8 l x xs)
  then obtain m where [simp]: "n = Suc m" by (cases n) auto
  show ?case
  proof (cases xs)
    case Nil
    with 8 show ?thesis by (simp add: ends_value_def skip_ws_same)
  next
    case (Cons y ys)
    have ev: "ends_value (item_sep l @ q)" for q by (cases l) (simp_all add: ends_value_def)
    have "skip_ws (dumps_items l xs @ q) = dumps_items l xs @ q" for q
      using Cons by simp
    with 8 Cons ev show ?thesis by (cases l) (simp_all add: skip_ws_def)
  qed
next
  case (9 l)
  then show ?case by simp
next
  case (10 l k v kvs)
  then obtain m where [simp]: "n = Suc m" by (cases n) auto
  have key: "skip_ws (key_sep l @ q) = key_sep l @ q" "skip_ws (tl (key_sep l @ dumps l v @ q)) = dumps l v @ q"
    "key_sep l @ q = CHR '':'' # tl (key_sep l @ q)" for q
    using skip_ws_dumps [of l v q] by (cases l; simp add: skip_ws_def)+
  show ?case
  proof (cases kvs)
    case Nil
    with 10 key show ?thesis by (cases l) (simp_all add: dumps_str_def ends_value_def skip_ws_same)
  next
    case (Cons y ys)
    have ev: "ends_value (item_sep l @ q)" for q by (cases l) (simp_all add: ends_value_def)
    obtain t where t: "dumps_members l kvs = quote_char # t"
      using Cons by (cases y) (auto simp: dumps_str_def)
    from 10 Cons ev key t show ?thesis
      by (cases l) (simp_all add: dumps_str_def skip_ws_def)
  qed
qed

lemma fuel_le_length:
  "json_fuel j \<le> length (dumps l j)"
  "items_fuel xs \<le> Suc (length (dumps_items l xs))"
  "members_fuel kvs \<le> Suc (length (dumps_members l kvs))"
proof (induction l j and l xs and l kvs rule: dumps_dumps_items_dumps_members.induct)
  case (3 l i)
  obtain c t where "show_int i = c # t" using show_int_hd by blast
  then show ?case by simp
next
  case (8 l x xs)
  then show ?case by (cases l; cases xs) auto
next
  case (10 l k v kvs)
  then show ?case by (cases l; cases kvs) (auto simp: dumps_str_def)
qed (auto simp: dumps_str_def)

lemma parse_dumps:
  "length (dumps l j) \<le> n \<Longrightarrow> ends_value r \<Longrightarrow> parse_value n (dumps l j @ r) = Some (j, r)"
  by (rule parse_dumps_all(1)) (use fuel_le_length(1) [of j l] in simp_all)

theorem loads_dumps [simp]: "loads (dumps l j) = Some j"
  using parse_dumps [of l j "Suc (length (dumps l j))" "[]"] skip_ws_dumps [of l j "[]"]
  by (simp add: loads_def ends_value_def skip_ws_def del: parse_value.simps)

lemma dumps_inject [simp]: "dumps l j = dumps l j' \<longleftrightarrow> j = j'"
  by (metis loads_dumps option.inject)

text \<open>No printed value is a proper prefix of another followed by a separator.\<close>

lemma dumps_prefix_free:
  assumes "ends_value r" "ends_value r'" "dumps l j @ r = dumps l j' @ r'"
  shows "j = j' \<and> r = r'"
proof -
  let ?n = "length (dumps l j) + length (dumps l j')"
  have "parse_value ?n (dumps l j @ r) = Some (j, r)"
    by (rule parse_dumps) (simp_all add: assms(1))
  moreover have "parse_value ?n (dumps l j' @ r') = Some (j', r')"
    by (rule parse_dumps) (simp_all add: assms(2))
  ultimately show ?thesis using assms(3) by (metis option.inject prod.inject)
qed

lemma dumps_not_Nil [simp]: "dumps l j \<noteq> []"
  using dumps_hd [of l j] by auto

end
