(* ===== verification/Datetime.thy ===== *)
theory Datetime
  imports PyStrings
begin

text \<open>
  Python's \<open>datetime\<close>: a value is the number of microseconds since
  \<open>datetime.min\<close> (0001-01-01T00:00:00, proleptic Gregorian calendar), which makes
  comparison and timedelta arithmetic those of the integers. The calendar fields
  are computed by walking the years and months, as the definition of the
  calendar has it, and \<open>isoformat\<close> prints them. \<open>isoformat_inject\<close> says that the
  printed text determines the value.
\<close>

definition leap_year :: "nat \<Rightarrow> bool" where
  "leap_year y \<longleftrightarrow> y mod 4 = 0 \<and> (y mod 100 \<noteq> 0 \<or> y mod 400 = 0)"

definition year_days :: "nat \<Rightarrow> nat" where
  "year_days y = (if leap_year y then 366 else 365)"

definition month_days :: "nat \<Rightarrow> nat list" where
  "month_days y = [31, if leap_year y then 29 else 28, 31, 30, 31, 30, 31, 31, 30, 31, 30, 31]"

lemma year_days_ge [simp]: "365 \<le> year_days y"
  by (simp add: year_days_def)

text \<open>The year \<open>d\<close> days after the first of January of year \<open>y\<close>, and the days left in it.\<close>

function year_of :: "nat \<Rightarrow> nat \<Rightarrow> nat \<times> nat" where
  "year_of y d = (if d < year_days y then (y, d) else year_of (Suc y) (d - year_days y))"
  by pat_completeness auto
termination
proof (relation "measure snd")
  show "((Suc y, d - year_days y), y, d) \<in> measure snd" if "\<not> d < year_days y" for y d
    using that year_days_ge [of y] by (simp del: year_days_ge)
qed simp

declare year_of.simps [simp del]

fun month_of :: "nat \<Rightarrow> nat list \<Rightarrow> nat \<Rightarrow> nat \<times> nat" where
  "month_of m [] d = (m, d)"
| "month_of m (k # ks) d = (if d < k then (m, d) else month_of (Suc m) ks (d - k))"

record calendar =
  cal_year :: nat
  cal_month :: nat
  cal_day :: nat

definition calendar_of :: "nat \<Rightarrow> calendar" where
  "calendar_of n =
     (let (y, d) = year_of 1 n; (m, k) = month_of 1 (month_days y) d
      in \<lparr>cal_year = y, cal_month = m, cal_day = Suc k\<rparr>)"

text \<open>\<open>datetime.isoformat()\<close> of a naive value: the fraction only when it is not zero.\<close>

definition isoformat :: "time \<Rightarrow> string" where
  "isoformat t =
     (let n = nat t; c = calendar_of (n div 86400000000);
          s = n mod 86400000000 div 1000000; us = n mod 1000000
      in zpad 4 (cal_year c) @ ''-'' @ zpad 2 (cal_month c) @ ''-'' @ zpad 2 (cal_day c) @ ''T''
         @ zpad 2 (s div 3600) @ '':'' @ zpad 2 (s mod 3600 div 60) @ '':'' @ zpad 2 (s mod 60)
         @ (if us = 0 then [] else ''.'' @ zpad 6 us))"

text \<open>\<open>strftime("%Y%m%dT%H%M%SZ")\<close>, the stamp of an archive's file name.\<close>

definition compact_stamp :: "time \<Rightarrow> string" where
  "compact_stamp t =
     (let n = nat t; c = calendar_of (n div 86400000000); s = n mod 86400000000 div 1000000
      in zpad 4 (cal_year c) @ zpad 2 (cal_month c) @ zpad 2 (cal_day c) @ ''T''
         @ zpad 2 (s div 3600) @ zpad 2 (s mod 3600 div 60) @ zpad 2 (s mod 60) @ ''Z'')"

text \<open>\<open>serialization.iso\<close>.\<close>

definition iso :: "time option \<Rightarrow> string option" where
  "iso t = map_option isoformat t"

section \<open>The calendar determines the day\<close>

text \<open>Days before the first of January of year \<open>Suc k\<close>.\<close>

definition days_before :: "nat \<Rightarrow> nat" where
  "days_before y = (\<Sum>i \<in> {1..<y}. year_days i)"

lemma days_before_Suc: "1 \<le> y \<Longrightarrow> days_before (Suc y) = days_before y + year_days y"
  by (simp add: days_before_def)

lemma year_of_days: "1 \<le> y \<Longrightarrow> year_of y d = (y', d') \<Longrightarrow> days_before y + d = days_before y' + d' \<and> 1 \<le> y'"
proof (induction y d rule: year_of.induct)
  case (1 y d)
  show ?case
  proof (cases "d < year_days y")
    case True
    with 1 show ?thesis by (simp add: year_of.simps [of y])
  next
    case False
    with 1 show ?thesis by (simp add: year_of.simps [of y] days_before_Suc)
  qed
qed

lemma month_of_days:
  "month_of m ks d = (m', d') \<Longrightarrow> m \<le> m' \<and> d = sum_list (take (m' - m) ks) + d'"
proof (induction m ks d rule: month_of.induct)
  case (2 m k ks d)
  show ?case
  proof (cases "d < k")
    case False
    with 2 have "Suc m \<le> m'" "d - k = sum_list (take (m' - Suc m) ks) + d'" by auto
    moreover have "take (m' - m) (k # ks) = k # take (m' - Suc m) ks"
      using \<open>Suc m \<le> m'\<close> by (simp add: take_Cons' diff_diff_eq)
    ultimately show ?thesis using False by simp
  qed (use 2 in simp)
qed simp

lemma calendar_inject: "calendar_of m = calendar_of n \<Longrightarrow> m = n"
proof -
  assume eq: "calendar_of m = calendar_of n"
  obtain y d where yd: "year_of 1 m = (y, d)" by fastforce
  obtain y' d' where yd': "year_of 1 n = (y', d')" by fastforce
  obtain a b where ab: "month_of 1 (month_days y) d = (a, b)" by fastforce
  obtain a' b' where ab': "month_of 1 (month_days y') d' = (a', b')" by fastforce
  from eq yd yd' ab ab' have "y = y'" "a = a'" "b = b'" by (auto simp: calendar_of_def)
  moreover from this ab ab' have "d = d'" by (auto dest!: month_of_days)
  moreover have "days_before 1 = 0" by (simp add: days_before_def)
  ultimately show ?thesis using year_of_days [OF _ yd] year_of_days [OF _ yd'] by simp
qed

section \<open>isoformat is injective\<close>

lemma digits_split:
  assumes "\<forall>c \<in> set a. is_digit c" "\<forall>c \<in> set b. is_digit c" "\<not> is_digit x" "\<not> is_digit y"
    and "a @ x # r = b @ y # q"
  shows "a = b \<and> r = q"
proof -
  have "takeWhile is_digit (a @ x # r) = a" "takeWhile is_digit (b @ y # q) = b"
    using assms(1-4) by (simp_all add: takeWhile_append2)
  with assms(5) show ?thesis by (metis append_same_eq list.inject same_append_eq)
qed

lemma zpad_split:
  assumes "zpad w m @ x # r = zpad v n @ y # q" "\<not> is_digit x" "\<not> is_digit y"
  shows "m = n \<and> r = q"
proof -
  have "zpad w m = zpad v n \<and> r = q"
    by (rule digits_split [OF _ _ assms(2,3,1)]) (auto dest: zpad_digits)
  then show ?thesis by (metis read_zpad)
qed

lemma zpad_inject: "zpad w m = zpad v n \<Longrightarrow> m = n"
  by (metis read_zpad)

lemma fraction_split:
  assumes "zpad w m @ (if u = 0 then [] else CHR ''.'' # zpad k u)
         = zpad v n @ (if u' = 0 then [] else CHR ''.'' # zpad k u')"
  shows "m = n \<and> u = u'"
proof -
  have dot: "\<not> is_digit (CHR ''.'')" by (simp add: is_digit_def char_code_def)
  have no_dot: "CHR ''.'' \<notin> set (zpad a b)" for a b using dot zpad_digits by blast
  show ?thesis
  proof (cases "u = 0 \<or> u' = 0")
    case True
    then have "u = 0 \<and> u' = 0" using arg_cong [OF assms, of set] no_dot [of w m] no_dot [of v n]
      by (auto split: if_splits)
    with assms show ?thesis by (auto dest: zpad_inject)
  next
    case False
    with assms have "zpad w m @ CHR ''.'' # zpad k u = zpad v n @ CHR ''.'' # zpad k u'" by simp
    from zpad_split [OF this dot dot] show ?thesis by (auto dest: zpad_inject)
  qed
qed

theorem isoformat_inject:
  assumes "0 \<le> t" "0 \<le> t'" "isoformat t = isoformat t'"
  shows "t = t'"
proof -
  define n n' where "n = nat t" and "n' = nat t'"
  define c c' where "c = calendar_of (n div 86400000000)" and "c' = calendar_of (n' div 86400000000)"
  define s s' where "s = n mod 86400000000 div 1000000" and "s' = n' mod 86400000000 div 1000000"
  have nd: "\<not> is_digit (CHR ''-'')" "\<not> is_digit (CHR ''T'')" "\<not> is_digit (CHR '':'')"
    by (simp_all add: is_digit_def char_code_def)
  let ?f = "\<lambda>u. if u = (0::nat) then [] else CHR ''.'' # zpad 6 u"
  have eq: "zpad 4 (cal_year c) @ CHR ''-'' # zpad 2 (cal_month c) @ CHR ''-'' # zpad 2 (cal_day c) @ CHR ''T''
      # zpad 2 (s div 3600) @ CHR '':'' # zpad 2 (s mod 3600 div 60) @ CHR '':'' # zpad 2 (s mod 60)
      @ ?f (n mod 1000000)
    = zpad 4 (cal_year c') @ CHR ''-'' # zpad 2 (cal_month c') @ CHR ''-'' # zpad 2 (cal_day c') @ CHR ''T''
      # zpad 2 (s' div 3600) @ CHR '':'' # zpad 2 (s' mod 3600 div 60) @ CHR '':'' # zpad 2 (s' mod 60)
      @ ?f (n' mod 1000000)"
    using assms(3) unfolding isoformat_def Let_def n_def [symmetric] n'_def [symmetric]
      c_def [symmetric] c'_def [symmetric] s_def [symmetric] s'_def [symmetric]
    by (simp only: append.simps if_distrib append_Cons append_Nil)
  note e1 = zpad_split [OF eq nd(1) nd(1)]
  note e2 = zpad_split [OF conjunct2 [OF e1] nd(1) nd(1)]
  note e3 = zpad_split [OF conjunct2 [OF e2] nd(2) nd(2)]
  note e4 = zpad_split [OF conjunct2 [OF e3] nd(3) nd(3)]
  note e5 = zpad_split [OF conjunct2 [OF e4] nd(3) nd(3)]
  note e6 = fraction_split [OF conjunct2 [OF e5]]
  have "c = c'" using e1 e2 e3 by (cases c; cases c') simp
  then have day: "n div 86400000000 = n' div 86400000000"
    unfolding c_def c'_def by (rule calendar_inject)
  have hms: "s = 3600 * (s div 3600) + 60 * (s mod 3600 div 60) + s mod 60" for s :: nat
  proof -
    have "s mod 60 = s mod 3600 mod 60" by (simp add: mod_mod_cancel)
    then show ?thesis using div_mult_mod_eq [of s 3600] div_mult_mod_eq [of "s mod 3600" 60] by linarith
  qed
  have "s = s'" using e4 e5 e6 hms [of s] hms [of s'] by simp
  moreover have "n mod 86400000000 = 1000000 * (n mod 86400000000 div 1000000) + n mod 1000000" for n :: nat
    using mult_div_mod_eq [of 1000000 "n mod 86400000000"] by (simp add: mod_mod_cancel)
  ultimately have "n mod 86400000000 = n' mod 86400000000"
    using e6 unfolding s_def s'_def by metis
  with day have "n = n'" by (metis div_mult_mod_eq)
  with assms(1,2) show ?thesis by (simp add: n_def n'_def)
qed

lemma iso_inject:
  "\<lbrakk>\<forall>x. t = Some x \<longrightarrow> 0 \<le> x; \<forall>x. t' = Some x \<longrightarrow> 0 \<le> x; iso t = iso t'\<rbrakk> \<Longrightarrow> t = t'"
  by (cases t; cases t') (auto simp: iso_def dest: isoformat_inject)

end
