(* ===== verification/AuditChain.thy ===== *)
theory AuditChain
  imports Json Datetime
begin

text \<open>
  The audit log and its hash chain: \<open>app/services/audit_chain.py\<close>,
  \<open>app/services/audit_service.py\<close> and \<open>app/models/audit_log.py\<close>. The digest
  (SHA-256 in hexadecimal) is the argument \<open>H\<close> of the operations; a theorem that
  depends on a property of it says so.
\<close>

section \<open>Rows\<close>

record audit_row =
  ar_id :: nat
  ar_timestamp :: "time option"
  ar_user_id :: "nat option"
  ar_username :: string
  ar_action :: string
  ar_target_type :: "string option"
  ar_target_id :: "nat option"
  ar_details :: "string option"
  ar_ip :: string
  ar_prev_hash :: "string option"
  ar_entry_hash :: "string option"

text \<open>
  The table with the webhook notifications the log has raised and the archive
  files a prune has written (name and lines).
\<close>

record notification =
  nt_action :: string
  nt_target_type :: "string option"
  nt_target_id :: "nat option"
  nt_details :: "json option"
  nt_username :: string

record audit_log =
  al_rows :: "audit_row list"
  al_outbox :: "notification list"
  al_archive :: "(string \<times> string list) list"

definition j_opt_str :: "string option \<Rightarrow> json" where
  "j_opt_str x = (case x of None \<Rightarrow> JNull | Some s \<Rightarrow> JStr s)"

definition j_opt_nat :: "nat option \<Rightarrow> json" where
  "j_opt_nat x = (case x of None \<Rightarrow> JNull | Some n \<Rightarrow> JInt (int n))"

definition or_empty :: "string option \<Rightarrow> string" where
  "or_empty x = (case x of None \<Rightarrow> [] | Some s \<Rightarrow> s)"

lemma or_empty_simps [simp]: "or_empty None = []" "or_empty (Some s) = s"
  by (simp_all add: or_empty_def)

definition GENESIS :: string where
  "GENESIS = []"

text \<open>\<open>canonical\<close>: the text of the stored fields, keys sorted, no spaces.\<close>

definition canonical_json :: "audit_row \<Rightarrow> json" where
  "canonical_json r = JObj
     [(''id'', JInt (int (ar_id r))), (''timestamp'', j_opt_str (iso (ar_timestamp r))),
      (''user_id'', j_opt_nat (ar_user_id r)), (''username'', JStr (ar_username r)),
      (''action'', JStr (ar_action r)), (''target_type'', j_opt_str (ar_target_type r)),
      (''target_id'', j_opt_nat (ar_target_id r)), (''details'', j_opt_str (ar_details r)),
      (''ip_address'', JStr (ar_ip r))]"

definition canonical :: "audit_row \<Rightarrow> string" where
  "canonical r = dumps Compact (sort_json (canonical_json r))"

definition compute_hash :: "(string \<Rightarrow> string) \<Rightarrow> audit_row \<Rightarrow> string \<Rightarrow> string" where
  "compute_hash H r prev = H (prev @ CHR 0x0A # canonical r)"

definition sealed :: "audit_row \<Rightarrow> bool" where
  "sealed r \<longleftrightarrow> ar_entry_hash r \<noteq> None"

text \<open>\<open>order_by(AuditLog.id)\<close>.\<close>

definition by_id :: "audit_row list \<Rightarrow> audit_row list" where
  "by_id t = sort_key ar_id t"

section \<open>Writing an entry: audit_service\<close>

text \<open>What a request gives the log: the signed-in user, the peer's address and the time.\<close>

record request_ctx =
  rq_user :: "(nat \<times> string) option"
  rq_addr :: "string option"
  rq_now :: time

definition dumps_details :: "json option \<Rightarrow> string option" where
  "dumps_details d = (case d of None \<Rightarrow> None | Some j \<Rightarrow> if j = JObj [] then None else Some (dumps Spaced j))"

definition log_actor :: "request_ctx \<Rightarrow> string option \<Rightarrow> nat option \<times> string \<times> string" where
  "log_actor rq actor =
     (case actor of
        Some a \<Rightarrow> (None, a, ''local'')
      | None \<Rightarrow>
          (map_option fst (rq_user rq),
           case rq_user rq of Some (_, u) \<Rightarrow> u | None \<Rightarrow> ''anonymous'',
           if or_empty (rq_addr rq) = [] then ''unknown'' else or_empty (rq_addr rq)))"

definition log_action ::
  "request_ctx \<Rightarrow> string option \<Rightarrow> string \<Rightarrow> string option \<Rightarrow> nat option \<Rightarrow> json option
    \<Rightarrow> audit_log \<Rightarrow> audit_log" where
  "log_action rq actor action target_type target_id details lg =
     (let (uid, name, ip) = log_actor rq actor;
          row = \<lparr>ar_id = fresh_id ar_id (al_rows lg), ar_timestamp = Some (rq_now rq), ar_user_id = uid,
                 ar_username = name, ar_action = action, ar_target_type = target_type,
                 ar_target_id = target_id, ar_details = dumps_details details, ar_ip = ip,
                 ar_prev_hash = None, ar_entry_hash = None\<rparr>
      in lg\<lparr>al_rows := al_rows lg @ [row],
            al_outbox := al_outbox lg @ [\<lparr>nt_action = action, nt_target_type = target_type,
              nt_target_id = target_id, nt_details = details, nt_username = name\<rparr>]\<rparr>)"

text \<open>
  \<open>sanitize_username_for_log\<close>; \<open>known\<close> tells whether a user row has that name.
\<close>

definition sanitize_username_for_log :: "(string \<Rightarrow> bool) \<Rightarrow> string \<Rightarrow> string" where
  "sanitize_username_for_log known u =
     (if u = [] then []
      else if known u then u
      else if length u \<le> 3 then u
      else take 3 u @ ''***'')"

section \<open>Sealing\<close>

definition head :: "audit_row list \<Rightarrow> nat option \<times> string" where
  "head t = (case rev (by_id (filter sealed t)) of
               r # _ \<Rightarrow> (Some (ar_id r), or_empty (ar_entry_hash r))
             | [] \<Rightarrow> (None, GENESIS))"

datatype seal_stop = Gap_before nat | Younger_than_grace nat

definition too_young :: "time \<Rightarrow> audit_row \<Rightarrow> bool" where
  "too_young cutoff r = (case ar_timestamp r of Some ts \<Rightarrow> cutoff < ts | None \<Rightarrow> False)"

text \<open>The loop of \<open>seal\<close> over the pending rows: the rows it sealed and why it stopped.\<close>

fun seal_loop :: "(string \<Rightarrow> string) \<Rightarrow> time \<Rightarrow> nat option \<Rightarrow> string \<Rightarrow> audit_row list
    \<Rightarrow> audit_row list \<times> seal_stop option" where
  "seal_loop H cutoff expected prev [] = ([], None)"
| "seal_loop H cutoff expected prev (r # rs) =
     (if expected \<noteq> None \<and> expected \<noteq> Some (ar_id r) then ([], Some (Gap_before (ar_id r)))
      else if too_young cutoff r then ([], Some (Younger_than_grace (ar_id r)))
      else
        (let r' = r\<lparr>ar_prev_hash := Some prev, ar_entry_hash := Some (compute_hash H r prev)\<rparr>;
             (done, stop) = seal_loop H cutoff (Some (Suc (ar_id r))) (compute_hash H r prev) rs
         in (r' # done, stop)))"

record seal_report =
  sr_sealed :: nat
  sr_head_id :: "nat option"
  sr_head_hash :: "string option"
  sr_unsealed :: nat
  sr_stopped :: "seal_stop option"

definition seal :: "(string \<Rightarrow> string) \<Rightarrow> time \<Rightarrow> time \<Rightarrow> audit_row list \<Rightarrow> audit_row list \<times> seal_report" where
  "seal H grace now t =
     (let (head_id, prev) = head t;
          floor = (case head_id of None \<Rightarrow> 0 | Some i \<Rightarrow> i);
          pending = by_id (filter (\<lambda>r. \<not> sealed r \<and> floor < ar_id r) t);
          (done, stop) = seal_loop H (now - grace) (map_option Suc head_id) prev pending;
          t' = fold (put_row ar_id) done t;
          (head_id', prev') = (if done = [] then (head_id, prev)
                               else (Some (ar_id (last done)), or_empty (ar_entry_hash (last done))))
      in (t', \<lparr>sr_sealed = length done, sr_head_id = head_id',
               sr_head_hash = (case head_id' of Some i \<Rightarrow> if i \<noteq> 0 then Some prev' else None | None \<Rightarrow> None),
               sr_unsealed = length (filter (\<lambda>r. \<not> sealed r) t'), sr_stopped = stop\<rparr>))"

section \<open>Verification\<close>

text \<open>\<open>_checkpoint_for\<close>: the newest checkpoint row whose details name the row before \<open>first\<close>.\<close>

definition details_of :: "audit_row \<Rightarrow> json option" where
  "details_of r = loads (if or_empty (ar_details r) = [] then ''{}'' else or_empty (ar_details r))"

definition vouches_for :: "nat \<Rightarrow> audit_row \<Rightarrow> bool" where
  "vouches_for first_id r =
     (case details_of r of
        None \<Rightarrow> False
      | Some d \<Rightarrow> jget ''pruned_through_id'' d = Some (JInt (int first_id - 1)))"

definition checkpoint_for :: "audit_row list \<Rightarrow> nat \<Rightarrow> audit_row option" where
  "checkpoint_for t first_id =
     first_row (vouches_for first_id) (rev (by_id (filter (\<lambda>r. ar_action r = ''audit_checkpoint'') t)))"

datatype bad_reason =
    No_checkpoint
  | Unsealed_inside
  | Rows_missing nat nat
  | Prev_hash_mismatch
  | Entry_hash_mismatch

datatype start_kind = Start_empty | Start_unsealed | Start_given nat | Start_genesis | Start_unverifiable
  | Start_checkpoint nat

record verify_report =
  vr_ok :: bool
  vr_checked :: nat
  vr_first_bad :: "nat option"
  vr_reason :: "bad_reason option"
  vr_start :: "start_kind option"
  vr_head_id :: "nat option"
  vr_head_hash :: "string option"
  vr_unsealed :: nat

definition bad :: "nat \<Rightarrow> bad_reason \<Rightarrow> verify_report \<Rightarrow> verify_report" where
  "bad i why rep = rep\<lparr>vr_ok := False, vr_first_bad := Some i, vr_reason := Some why\<rparr>"

text \<open>The loop of \<open>verify\<close>; \<open>all\<close> are all the rows read, \<open>e\<close> is \<open>expected_id\<close>.\<close>

fun verify_loop :: "(string \<Rightarrow> string) \<Rightarrow> audit_row list \<Rightarrow> string \<Rightarrow> nat \<Rightarrow> verify_report
    \<Rightarrow> audit_row list \<Rightarrow> verify_report" where
  "verify_loop H all prev e rep [] = rep"
| "verify_loop H all prev e rep (r # rs) =
     (if ar_entry_hash r = None then
        (let rep' = rep\<lparr>vr_unsealed := Suc (vr_unsealed rep)\<rparr>
         in if list_ex (\<lambda>x. ar_id r < ar_id x \<and> sealed x) all then bad (ar_id r) Unsealed_inside rep'
            else verify_loop H all prev e rep' rs)
      else if ar_id r \<noteq> e then bad (ar_id r) (Rows_missing e (ar_id r - 1)) rep
      else if or_empty (ar_prev_hash r) \<noteq> prev then bad (ar_id r) Prev_hash_mismatch rep
      else if compute_hash H r prev \<noteq> or_empty (ar_entry_hash r) then bad (ar_id r) Entry_hash_mismatch rep
      else verify_loop H all (or_empty (ar_entry_hash r)) (Suc (ar_id r))
             (rep\<lparr>vr_checked := Suc (vr_checked rep), vr_head_id := Some (ar_id r),
                  vr_head_hash := ar_entry_hash r\<rparr>) rs)"

definition empty_report :: verify_report where
  "empty_report = \<lparr>vr_ok = True, vr_checked = 0, vr_first_bad = None, vr_reason = None, vr_start = None,
     vr_head_id = None, vr_head_hash = None, vr_unsealed = 0\<rparr>"

definition verify :: "(string \<Rightarrow> string) \<Rightarrow> nat option \<Rightarrow> audit_row list \<Rightarrow> verify_report" where
  "verify H from t =
     (let from_id = (case from of None \<Rightarrow> 0 | Some i \<Rightarrow> i);
          rows = filter (\<lambda>r. from_id = 0 \<or> from_id \<le> ar_id r) (by_id t)
      in case rows of
           [] \<Rightarrow> empty_report\<lparr>vr_start := Some Start_empty\<rparr>
         | first # _ \<Rightarrow>
             let walk = (\<lambda>prev start. verify_loop H rows prev (ar_id first) (empty_report\<lparr>vr_start := Some start\<rparr>) rows)
             in if ar_entry_hash first = None then
                  empty_report\<lparr>vr_unsealed := length (filter (\<lambda>r. ar_entry_hash r = None) rows),
                               vr_start := Some Start_unsealed\<rparr>
                else if from_id \<noteq> 0 then walk (or_empty (ar_prev_hash first)) (Start_given (ar_id first))
                else if or_empty (ar_prev_hash first) = [] then walk GENESIS Start_genesis
                else (case checkpoint_for t (ar_id first) of
                        None \<Rightarrow> bad (ar_id first) No_checkpoint (empty_report\<lparr>vr_start := Some Start_unverifiable\<rparr>)
                      | Some cp \<Rightarrow>
                          if (case details_of cp of None \<Rightarrow> None | Some d \<Rightarrow> jget ''pruned_through_hash'' d)
                               \<noteq> map_option JStr (ar_prev_hash first)
                          then bad (ar_id first) No_checkpoint (empty_report\<lparr>vr_start := Some Start_unverifiable\<rparr>)
                          else walk (or_empty (ar_prev_hash first)) (Start_checkpoint (ar_id cp))))"

section \<open>Anchor and retention\<close>

definition anchor :: "request_ctx \<Rightarrow> string \<Rightarrow> audit_log \<Rightarrow> audit_log \<times> json" where
  "anchor rq actor lg =
     (let (head_id, head_hash) = head (al_rows lg);
          details = JObj [(''head_id'', j_opt_nat head_id),
                          (''head_hash'', if head_hash = [] then JNull else JStr head_hash),
                          (''sealed_rows'', JInt (int (length (filter sealed (al_rows lg)))))]
      in (log_action rq (Some actor) ''audit_anchor'' (Some ''audit_log'') head_id (Some details) lg, details))"

fun contiguous_from :: "nat \<Rightarrow> audit_row list \<Rightarrow> audit_row list" where
  "contiguous_from e [] = []"
| "contiguous_from e (r # rs) = (if ar_id r \<noteq> e then [] else r # contiguous_from (Suc e) rs)"

datatype prune_result =
    Prune_disabled
  | Pruned_nothing
  | Prune_skipped nat
  | Pruned nat nat nat string bool

text \<open>\<open>AuditLog.to_dict\<close>, the line of a row in the archive.\<close>

definition row_to_dict :: "audit_row \<Rightarrow> json" where
  "row_to_dict r = JObj
     [(''id'', JInt (int (ar_id r))), (''timestamp'', j_opt_str (iso (ar_timestamp r))),
      (''user_id'', j_opt_nat (ar_user_id r)), (''username'', JStr (ar_username r)),
      (''action'', JStr (ar_action r)), (''target_type'', j_opt_str (ar_target_type r)),
      (''target_id'', j_opt_nat (ar_target_id r)),
      (''details'', if or_empty (ar_details r) = [] then JNull
                    else case loads (or_empty (ar_details r)) of
                           Some d \<Rightarrow> d | None \<Rightarrow> JStr (or_empty (ar_details r))),
      (''ip_address'', JStr (ar_ip r)),
      (''prev_hash'', j_opt_str (ar_prev_hash r)), (''entry_hash'', j_opt_str (ar_entry_hash r))]"

definition older_than :: "time \<Rightarrow> audit_row \<Rightarrow> bool" where
  "older_than cutoff r = (case ar_timestamp r of Some ts \<Rightarrow> ts < cutoff | None \<Rightarrow> False)"

definition checkpoint_details :: "nat \<Rightarrow> nat \<Rightarrow> string \<Rightarrow> nat \<Rightarrow> string \<Rightarrow> int \<Rightarrow> json" where
  "checkpoint_details a z h n file retention = JObj
     [(''pruned_from_id'', JInt (int a)), (''pruned_through_id'', JInt (int z)),
      (''pruned_through_hash'', JStr h), (''rows'', JInt (int n)), (''file'', JStr file),
      (''retention_days'', JInt retention)]"

definition prune :: "int \<Rightarrow> time \<Rightarrow> bool \<Rightarrow> string \<Rightarrow> request_ctx \<Rightarrow> audit_log \<Rightarrow> audit_log \<times> prune_result" where
  "prune retention now dry_run actor rq lg =
     (if retention \<le> 0 then (lg, Prune_disabled)
      else
        let t = al_rows lg;
            rows = by_id (filter (\<lambda>r. sealed r \<and> older_than (now - days retention) r) t)
        in case (rows, by_id t) of
             (r0 # _, first # _) \<Rightarrow>
               if ar_id r0 \<noteq> ar_id first then (lg, Prune_skipped (ar_id r0))
               else
                 let gone = contiguous_from (ar_id first) rows; z = last gone;
                     h = or_empty (ar_entry_hash z);
                     result = Pruned (length gone) (ar_id r0) (ar_id z) h dry_run
                 in if dry_run then (lg, result)
                    else
                      let file = ''audit-'' @ show_nat (ar_id r0) @ ''-'' @ show_nat (ar_id z) @ ''-''
                                 @ compact_stamp now @ ''.jsonl'';
                          ls = map (\<lambda>r. dumps Spaced (sort_json (row_to_dict r))) gone;
                          lg1 = lg\<lparr>al_archive := al_archive lg @ [(file, ls)],
                                   al_rows := filter (\<lambda>r. ar_id r \<notin> ar_id ` set gone) t\<rparr>
                      in (log_action rq (Some actor) ''audit_checkpoint'' (Some ''audit_log'') (Some (ar_id z))
                            (Some (checkpoint_details (ar_id r0) (ar_id z) h (length gone) file retention)) lg1,
                          result)
           | _ \<Rightarrow> (lg, Pruned_nothing))"

end
