(* ===== verification/AuditChain_Correct.thy ===== *)
theory AuditChain_Correct
  imports AuditChain
begin

text \<open>
  Correctness of the audit chain. \<open>chain_ok\<close> is the abstract reading of a
  verifiable log (a linked, gap-free run of sealed rows followed by unsealed
  ones), \<open>log_inv\<close> the invariant every operation keeps.
\<close>

section \<open>Well-formed logs\<close>

definition wf_log :: "audit_row list \<Rightarrow> bool" where
  "wf_log t \<longleftrightarrow> sorted_wrt (<) (map ar_id t) \<and> (\<forall>r \<in> set t. 0 < ar_id r)"

lemma wf_log_sorted: "wf_log t \<Longrightarrow> sorted (map ar_id t)"
  by (auto simp: wf_log_def strict_sorted_iff)

lemma wf_log_append:
  "wf_log (a @ b) \<longleftrightarrow> wf_log a \<and> wf_log b \<and> (\<forall>x \<in> set a. \<forall>y \<in> set b. ar_id x < ar_id y)"
  by (auto simp: wf_log_def sorted_wrt_append)

lemma wf_log_Cons:
  "wf_log (x # b) \<longleftrightarrow> 0 < ar_id x \<and> wf_log b \<and> (\<forall>y \<in> set b. ar_id x < ar_id y)"
  by (auto simp: wf_log_def)

lemma wf_log_Nil [simp]: "wf_log []"
  by (simp add: wf_log_def)

lemma by_id_sorted: "sorted (map ar_id t) \<Longrightarrow> by_id t = t"
  by (simp add: by_id_def sort_key_id_if_sorted)

lemma sorted_filter_id: "sorted (map ar_id t) \<Longrightarrow> sorted (map ar_id (filter p t))"
  by (simp add: sorted_filter)

lemma by_id_filter [simp]: "wf_log t \<Longrightarrow> by_id (filter p t) = filter p t"
  by (simp add: by_id_sorted sorted_filter_id wf_log_sorted)

lemma by_id_wf [simp]: "wf_log t \<Longrightarrow> by_id t = t"
  by (simp add: by_id_sorted wf_log_sorted)

lemma wf_log_fresh: "wf_log t \<Longrightarrow> ar_id r = fresh_id ar_id t \<Longrightarrow> wf_log (t @ [r])"
  by (auto simp: wf_log_append wf_log_Cons fresh_id_gt) (simp add: fresh_id_def)

section \<open>Chains\<close>

fun chain_ok :: "(string \<Rightarrow> string) \<Rightarrow> string \<Rightarrow> nat \<Rightarrow> audit_row list \<Rightarrow> bool" where
  "chain_ok H p e [] = True"
| "chain_ok H p e (r # rs) =
     (if sealed r then
        ar_id r = e \<and> or_empty (ar_prev_hash r) = p \<and> ar_entry_hash r = Some (compute_hash H r p)
        \<and> chain_ok H (compute_hash H r p) (Suc e) rs
      else list_all (\<lambda>x. \<not> sealed x) rs)"

text \<open>The hash and the id the next sealed row continues from.\<close>

fun chain_end :: "string \<Rightarrow> nat \<Rightarrow> audit_row list \<Rightarrow> string \<times> nat" where
  "chain_end p e [] = (p, e)"
| "chain_end p e (r # rs) = chain_end (or_empty (ar_entry_hash r)) (Suc (ar_id r)) rs"

lemma chain_ok_unsealed: "list_all (\<lambda>x. \<not> sealed x) t \<Longrightarrow> chain_ok H p e t"
  by (cases t) auto

lemma chain_ok_split:
  "chain_ok H p e t \<Longrightarrow> \<exists>s u. t = s @ u \<and> list_all sealed s \<and> list_all (\<lambda>x. \<not> sealed x) u \<and> chain_ok H p e s"
proof (induction H p e t rule: chain_ok.induct)
  case (1 H p e)
  then show ?case by simp
next
  case (2 H p e r rs)
  show ?case
  proof (cases "sealed r")
    case True
    with 2 obtain s u where "rs = s @ u" "list_all sealed s" "list_all (\<lambda>x. \<not> sealed x) u"
      "chain_ok H (compute_hash H r p) (Suc e) s" by auto
    with True 2 show ?thesis by (intro exI [of _ "r # s"] exI [of _ u]) simp
  next
    case False
    with 2 show ?thesis by (intro exI [of _ "[]"] exI [of _ "r # rs"]) simp
  qed
qed

lemma chain_ok_append:
  "list_all sealed s \<Longrightarrow>
   chain_ok H p e (s @ u) \<longleftrightarrow> chain_ok H p e s \<and> chain_ok H (fst (chain_end p e s)) (snd (chain_end p e s)) u"
  by (induction s arbitrary: p e) auto

lemma chain_end_snoc [simp]: "chain_end p e (s @ [r]) = (or_empty (ar_entry_hash r), Suc (ar_id r))"
  by (induction s arbitrary: p e) auto

lemma chain_end_last: "s \<noteq> [] \<Longrightarrow> chain_end p e s = (or_empty (ar_entry_hash (last s)), Suc (ar_id (last s)))"
  by (metis append_butlast_last_id chain_end_snoc)

section \<open>What verify decides\<close>

lemma later_sealed:
  "wf_log (pre @ r # rs) \<Longrightarrow>
   list_ex (\<lambda>x. ar_id r < ar_id x \<and> sealed x) (pre @ r # rs) \<longleftrightarrow> \<not> list_all (\<lambda>x. \<not> sealed x) rs"
  by (auto simp: list_ex_iff list_all_iff wf_log_append wf_log_Cons)

lemma verify_loop_ok:
  "wf_log (pre @ rs) \<Longrightarrow>
   vr_ok (verify_loop H (pre @ rs) p e rep rs) \<longleftrightarrow> vr_ok rep \<and> chain_ok H p e rs"
proof (induction rs arbitrary: pre p e rep)
  case Nil
  then show ?case by simp
next
  case (Cons r rs)
  have IH: "vr_ok (verify_loop H (pre @ r # rs) p e rep rs) \<longleftrightarrow> vr_ok rep \<and> chain_ok H p e rs" for p e rep
    using Cons.IH [of "pre @ [r]"] Cons.prems by simp
  have unsealed: "chain_ok H p e rs" if "list_all (\<lambda>x. \<not> sealed x) rs"
    using that by (rule chain_ok_unsealed)
  show ?case
  proof (cases "ar_entry_hash r")
    case None
    then show ?thesis
      using unsealed later_sealed [OF Cons.prems] IH
      by (auto simp: sealed_def bad_def)
  next
    case (Some h)
    then show ?thesis using IH by (auto simp: sealed_def bad_def)
  qed
qed

text \<open>What \<open>verify()\<close> answers, without the walk.\<close>

definition vouched :: "audit_row list \<Rightarrow> nat \<Rightarrow> string option \<Rightarrow> bool" where
  "vouched t i h =
     (case checkpoint_for t i of
        None \<Rightarrow> False
      | Some cp \<Rightarrow> (case details_of cp of None \<Rightarrow> None | Some d \<Rightarrow> jget ''pruned_through_hash'' d) = map_option JStr h)"

definition verifiable :: "(string \<Rightarrow> string) \<Rightarrow> audit_row list \<Rightarrow> bool" where
  "verifiable H t =
     (case t of
        [] \<Rightarrow> True
      | r # _ \<Rightarrow> \<not> sealed r \<or>
          (chain_ok H (or_empty (ar_prev_hash r)) (ar_id r) t
           \<and> (or_empty (ar_prev_hash r) = [] \<or> vouched t (ar_id r) (ar_prev_hash r))))"

lemma verify_verifiable:
  assumes "wf_log t"
  shows "vr_ok (verify H None t) \<longleftrightarrow> verifiable H t"
proof (cases t)
  case Nil
  then show ?thesis by (simp add: verify_def verifiable_def by_id_def empty_report_def)
next
  case (Cons r rs)
  note walk = verify_loop_ok [of "[]" t H, simplified, OF assms]
  have rep: "vr_ok (empty_report\<lparr>vr_start := x\<rparr>)" for x by (simp add: empty_report_def)
  show ?thesis
    using assms walk rep unfolding Cons
    by (auto simp: verify_def verifiable_def vouched_def sealed_def bad_def GENESIS_def empty_report_def Let_def
        split: option.splits simp del: verify_loop.simps chain_ok.simps)
qed

section \<open>The invariant\<close>

text \<open>
  A log that was only ever written by the operations of the program: the rows
  in id order, sealed rows first and linked, and a first sealed row that is the
  genesis or continues from a checkpoint kept in the log.
\<close>

definition log_inv :: "(string \<Rightarrow> string) \<Rightarrow> audit_row list \<Rightarrow> bool" where
  "log_inv H t \<longleftrightarrow> wf_log t \<and> list_all (\<lambda>r. \<not> sealed r \<longrightarrow> ar_prev_hash r = None) t \<and>
     (case t of
        [] \<Rightarrow> True
      | r # _ \<Rightarrow> chain_ok H (or_empty (ar_prev_hash r)) (ar_id r) t
                 \<and> (sealed r \<longrightarrow> or_empty (ar_prev_hash r) = [] \<or> vouched t (ar_id r) (ar_prev_hash r)))"

lemma log_inv_verifiable: "log_inv H t \<Longrightarrow> verifiable H t"
  by (auto simp: log_inv_def verifiable_def split: list.splits)

subsection \<open>Checkpoints survive the other operations\<close>

text \<open>What a checkpoint is found and read by: the operations leave it alone.\<close>

definition row_mark :: "audit_row \<Rightarrow> nat \<times> string \<times> string option" where
  "row_mark r = (ar_id r, ar_action r, ar_details r)"

lemma find_sim:
  assumes "list_all2 (\<lambda>x y. f x = f y) xs ys" and p: "\<And>x y. f x = f y \<Longrightarrow> p x = p y"
  shows "map_option f (find p xs) = map_option f (find p ys)"
  using assms(1)
proof (induction rule: list_all2_induct)
  case (Cons x xs y ys)
  from p [OF Cons(1)] Cons show ?case by simp
qed simp

lemma filter_sim:
  assumes "list_all2 (\<lambda>x y. f x = f y) xs ys" and p: "\<And>x y. f x = f y \<Longrightarrow> p x = p y"
  shows "list_all2 (\<lambda>x y. f x = f y) (filter p xs) (filter p ys)"
  using assms(1)
proof (induction rule: list_all2_induct)
  case (Cons x xs y ys)
  from p [OF Cons(1)] Cons show ?case by simp
qed simp

lemma details_of_mark: "row_mark x = row_mark y \<Longrightarrow> details_of x = details_of y"
  by (simp add: row_mark_def details_of_def)

lemma vouches_for_mark: "row_mark x = row_mark y \<Longrightarrow> vouches_for i x = vouches_for i y"
  unfolding vouches_for_def by (drule details_of_mark) simp

lemma checkpoint_for_sim:
  assumes "list_all2 (\<lambda>x y. row_mark x = row_mark y) t t'" "wf_log t" "wf_log t'"
  shows "map_option row_mark (checkpoint_for t i) = map_option row_mark (checkpoint_for t' i)"
proof -
  let ?f = "filter (\<lambda>r. ar_action r = ''audit_checkpoint'')"
  have "list_all2 (\<lambda>x y. row_mark x = row_mark y) (?f t) (?f t')"
    by (rule filter_sim [OF assms(1)]) (simp add: row_mark_def)
  then have "list_all2 (\<lambda>x y. row_mark x = row_mark y) (rev (?f t)) (rev (?f t'))" by simp
  from find_sim [OF this, of "vouches_for i", OF vouches_for_mark] show ?thesis using assms(2,3)
    by (simp add: checkpoint_for_def first_row_def)
qed

lemma vouched_sim:
  assumes "list_all2 (\<lambda>x y. row_mark x = row_mark y) t t'" "wf_log t" "wf_log t'"
  shows "vouched t i h = vouched t' i h"
proof (cases "checkpoint_for t i")
  case None
  with checkpoint_for_sim [OF assms, of i] show ?thesis by (simp add: vouched_def)
next
  case (Some x)
  with checkpoint_for_sim [OF assms, of i] obtain y where y: "checkpoint_for t' i = Some y" "row_mark x = row_mark y"
    by (cases "checkpoint_for t' i") auto
  then have "details_of x = details_of y" by (intro details_of_mark)
  with Some y show ?thesis by (simp add: vouched_def)
qed

lemma checkpoint_for_append:
  "wf_log (t @ [r]) \<Longrightarrow> ar_action r \<noteq> ''audit_checkpoint'' \<Longrightarrow> checkpoint_for (t @ [r]) i = checkpoint_for t i"
  by (simp add: checkpoint_for_def wf_log_append)

subsection \<open>Writing an entry\<close>

lemma log_action_rows:
  obtains r where "al_rows (log_action rq actor a tt ti d lg) = al_rows lg @ [r]"
    "ar_id r = fresh_id ar_id (al_rows lg)" "ar_action r = a" "ar_details r = dumps_details d"
    "\<not> sealed r" "ar_prev_hash r = None" "ar_timestamp r = Some (rq_now rq)"
  by (cases "log_actor rq actor") (simp add: log_action_def sealed_def that)

lemma chain_ok_snoc_unsealed: "chain_ok H p e t \<Longrightarrow> \<not> sealed r \<Longrightarrow> chain_ok H p e (t @ [r])"
  by (induction t arbitrary: p e) auto

lemma log_inv_snoc:
  assumes "log_inv H t" "ar_id r = fresh_id ar_id t" "\<not> sealed r" "ar_prev_hash r = None"
    "ar_action r \<noteq> ''audit_checkpoint''"
  shows "log_inv H (t @ [r])"
proof -
  have wf: "wf_log (t @ [r])" using assms wf_log_fresh by (auto simp: log_inv_def)
  show ?thesis
  proof (cases t)
    case Nil
    with assms wf show ?thesis by (simp add: log_inv_def)
  next
    case (Cons x xs)
    have "chain_ok H p e (t @ [r])" if "chain_ok H p e t" for p e
      using that assms(3) by (rule chain_ok_snoc_unsealed)
    moreover have "vouched (t @ [r]) i h = vouched t i h" for i h
      using checkpoint_for_append [OF wf assms(5)] by (simp add: vouched_def)
    ultimately show ?thesis
      using assms wf unfolding Cons by (simp add: log_inv_def del: chain_ok.simps)
  qed
qed

lemma log_inv_log_action:
  assumes "log_inv H (al_rows lg)" "a \<noteq> ''audit_checkpoint''"
  shows "log_inv H (al_rows (log_action rq actor a tt ti d lg))"
  by (rule log_action_rows [of rq actor a tt ti d lg]) (use assms in \<open>auto intro: log_inv_snoc\<close>)

subsection \<open>Sealing\<close>

text \<open>\<open>seal_of x y\<close>: \<open>y\<close> is the row \<open>x\<close> with its two hash columns written.\<close>

definition seal_of :: "audit_row \<Rightarrow> audit_row \<Rightarrow> bool" where
  "seal_of x y \<longleftrightarrow> sealed y \<and> y = x\<lparr>ar_prev_hash := ar_prev_hash y, ar_entry_hash := ar_entry_hash y\<rparr>"

lemma seal_of_mark: "seal_of x y \<Longrightarrow> row_mark x = row_mark y"
  unfolding seal_of_def row_mark_def by (metis audit_row.select_convs audit_row.surjective audit_row.update_convs(10,11))

lemma seal_loop_prefix:
  "seal_loop H cutoff e p u = (d, stop) \<Longrightarrow>
   length d \<le> length u \<and> list_all2 seal_of (take (length d) u) d \<and>
   list_all (\<lambda>r. \<not> too_young cutoff r) (take (length d) u) \<and> (stop = None \<longrightarrow> length d = length u)"
proof (induction H cutoff e p u arbitrary: d rule: seal_loop.induct)
  case (1 H cutoff e p)
  then show ?case by simp
next
  case (2 H cutoff e p r rs)
  show ?case
  proof (cases "(e \<noteq> None \<and> e \<noteq> Some (ar_id r)) \<or> too_young cutoff r")
    case True
    with 2 show ?thesis by (auto split: if_splits)
  next
    case False
    obtain d' st where d: "seal_loop H cutoff (Some (Suc (ar_id r))) (compute_hash H r p) rs = (d', st)" by fastforce
    have "d = r\<lparr>ar_prev_hash := Some p, ar_entry_hash := Some (compute_hash H r p)\<rparr> # d'" "st = stop"
      using False 2(2) d by auto
    with False 2(1) [of _ d'] d show ?thesis by (auto simp: seal_of_def sealed_def)
  qed
qed

lemma canonical_seal [simp]: "canonical (r\<lparr>ar_prev_hash := a, ar_entry_hash := b\<rparr>) = canonical r"
  by (simp add: canonical_def canonical_json_def)

lemma compute_hash_seal [simp]: "compute_hash H (r\<lparr>ar_prev_hash := a, ar_entry_hash := b\<rparr>) p = compute_hash H r p"
  by (simp add: compute_hash_def)

lemma seal_loop_chain:
  "seal_loop H cutoff (Some e) p u = (done, stop) \<Longrightarrow> list_all (\<lambda>x. \<not> sealed x) u2 \<Longrightarrow> chain_ok H p e (done @ u2)"
proof (induction H cutoff "Some e" p u arbitrary: e "done" rule: seal_loop.induct)
  case (1 H cutoff p)
  then show ?case by (simp add: chain_ok_unsealed)
next
  case (2 H cutoff p r rs)
  then show ?case
    by (auto simp: Let_def sealed_def chain_ok_unsealed split: if_splits prod.splits)
qed

lemma put_row_mid: "wf_table k (a @ x # b) \<Longrightarrow> k x = k y \<Longrightarrow> put_row k y (a @ x # b) = a @ y # b"
  by (auto simp: put_row_def wf_table_def intro!: map_idI) (auto simp: rev_image_eqI)

lemma fold_put_rows:
  "list_all2 (\<lambda>x y. k x = k y) u1 d \<Longrightarrow> wf_table k (s @ u1 @ u2) \<Longrightarrow>
   fold (put_row k) d (s @ u1 @ u2) = s @ d @ u2"
proof (induction u1 d arbitrary: s rule: list_all2_induct)
  case (Cons x xs y ys)
  have put: "put_row k y (s @ x # xs @ u2) = s @ y # xs @ u2"
    using Cons by (intro put_row_mid) simp_all
  have "wf_table k (s @ y # xs @ u2)"
    using Cons.prems put_row_wf [of k y "s @ x # xs @ u2"] by (simp add: put)
  with Cons.IH [of "s @ [y]"] put show ?case by simp
qed simp

lemma wf_log_table: "wf_log t \<Longrightarrow> wf_table ar_id t"
  by (simp add: wf_log_def wf_table_def strict_sorted_iff)

lemma wf_log_ids: "map ar_id t = map ar_id t' \<Longrightarrow> wf_log t = wf_log t'"
proof -
  have *: "wf_log t \<longleftrightarrow> sorted_wrt (<) (map ar_id t) \<and> (\<forall>i \<in> set (map ar_id t). 0 < i)" for t
    by (simp add: wf_log_def)
  show "map ar_id t = map ar_id t' \<Longrightarrow> wf_log t = wf_log t'" by (simp only: *)
qed

lemma list_all2_ids: "list_all2 (\<lambda>x y. row_mark x = row_mark y) a b \<Longrightarrow> map ar_id a = map ar_id b"
  by (induction rule: list_all2_induct) (auto simp: row_mark_def)

lemma list_all2_refl_mark [simp]: "list_all2 (\<lambda>x y. row_mark x = row_mark y) a a"
  by (simp add: list_all2_same)

lemma head_split:
  assumes "wf_log t" "t = s @ u" "list_all sealed s" "list_all (\<lambda>x. \<not> sealed x) u"
  shows "head t = (if s = [] then None else Some (ar_id (last s)), fst (chain_end GENESIS 0 s))"
proof -
  have "filter sealed t = s" using assms(2-4) by (auto simp: list_all_iff filter_empty_conv)
  with by_id_filter [OF assms(1), of sealed] show ?thesis
    by (cases s rule: rev_cases) (simp_all add: head_def)
qed

text \<open>Sealing splits a log in its sealed part, the rows it seals now and the rest.\<close>

lemma seal_shape:
  assumes "wf_log t" "t = s @ u" "list_all sealed s" "list_all (\<lambda>x. \<not> sealed x) u"
    and "seal_loop H (now - grace)
        (if s = [] then None else Some (Suc (ar_id (last s)))) (fst (chain_end GENESIS 0 s)) u = (d, stop)"
  shows "fst (seal H grace now t) = s @ d @ drop (length d) u"
proof -
  note hd = head_split [OF assms(1-4)]
  have pend: "filter (\<lambda>r. \<not> sealed r \<and> (case fst (head t) of None \<Rightarrow> 0 | Some i \<Rightarrow> i) < ar_id r) t = u"
  proof -
    have "filter (\<lambda>r. \<not> sealed r \<and> f < ar_id r) s = []" for f
      using assms(3) by (auto simp: list_all_iff filter_empty_conv)
    moreover have "filter (\<lambda>r. \<not> sealed r \<and> (case fst (head t) of None \<Rightarrow> 0 | Some i \<Rightarrow> i) < ar_id r) u = u"
      using assms hd by (auto simp: list_all_iff filter_id_conv wf_log_append) (auto simp: wf_log_def)
    ultimately show ?thesis using assms(2) by simp
  qed
  have loop: "length d \<le> length u" "list_all2 seal_of (take (length d) u) d"
    using seal_loop_prefix [OF assms(5)] by auto
  then have "list_all2 (\<lambda>x y. ar_id x = ar_id y) (take (length d) u) d"
    by (auto elim!: list_all2_mono dest!: seal_of_mark simp: row_mark_def)
  then have "fold (put_row ar_id) d (s @ take (length d) u @ drop (length d) u) = s @ d @ drop (length d) u"
    using assms(1,2) by (intro fold_put_rows) (simp_all add: wf_log_table)
  moreover have "fst (seal H grace now t) = fold (put_row ar_id) d t"
    using assms(1,5) hd pend by (cases "s = []") (simp_all add: seal_def Let_def split: prod.splits)
  ultimately show ?thesis using assms(2) by simp
qed

lemma log_inv_parts:
  assumes "log_inv H t"
  obtains s u where "t = s @ u" "list_all sealed s" "list_all (\<lambda>x. \<not> sealed x) u" "wf_log t"
proof -
  have "\<exists>s u. t = s @ u \<and> list_all sealed s \<and> list_all (\<lambda>x. \<not> sealed x) u"
  proof (cases t)
    case (Cons r rs)
    then have "chain_ok H (or_empty (ar_prev_hash r)) (ar_id r) t" using assms by (simp add: log_inv_def)
    then show ?thesis using chain_ok_split by blast
  qed simp
  then show thesis using that assms by (auto simp: log_inv_def)
qed

lemma seal_loop_chain_any:
  assumes "seal_loop H cutoff None p (r # rs) = (d, stop)" "list_all (\<lambda>x. \<not> sealed x) u2"
  shows "chain_ok H p (ar_id r) (d @ u2)"
  using assms seal_loop_chain [of H cutoff "ar_id r" p "r # rs" d stop u2] by simp

lemma log_inv_seal:
  assumes inv: "log_inv H t"
  shows "log_inv H (fst (seal H grace now t))"
proof -
  obtain s u where t: "t = s @ u" and s: "list_all sealed s" and u: "list_all (\<lambda>x. \<not> sealed x) u"
    and wf: "wf_log t" using log_inv_parts [OF inv] .
  let ?e = "if s = [] then None else Some (Suc (ar_id (last s)))"
  let ?p = "fst (chain_end GENESIS 0 s)"
  obtain d stop where loop: "seal_loop H (now - grace) ?e ?p u = (d, stop)" by fastforce
  let ?u2 = "drop (length d) u"
  let ?t' = "s @ d @ ?u2"
  have t': "fst (seal H grace now t) = ?t'" using seal_shape [OF wf t s u loop] .
  have d: "list_all2 seal_of (take (length d) u) d" using seal_loop_prefix [OF loop] by simp
  have u2: "list_all (\<lambda>x. \<not> sealed x) ?u2" using u by (auto simp: list_all_iff dest: in_set_dropD)
  have sd: "list_all sealed d" using d by (auto simp: list_all2_conv_all_nth list_all_length seal_of_def)
  have "list_all2 (\<lambda>x y. row_mark x = row_mark y) (take (length d) u) d"
    using d by (rule list_all2_mono) (rule seal_of_mark)
  then have "list_all2 (\<lambda>x y. row_mark x = row_mark y) (s @ take (length d) u @ ?u2) ?t'"
    by (intro list_all2_appendI list_all2_refl_mark)
  then have sim: "list_all2 (\<lambda>x y. row_mark x = row_mark y) t ?t'" using t by simp
  then have wf': "wf_log ?t'" using wf wf_log_ids [OF list_all2_ids [OF sim]] by simp
  have pre: "list_all (\<lambda>r. \<not> sealed r \<longrightarrow> ar_prev_hash r = None) ?t'"
    using inv s sd t by (auto simp: log_inv_def list_all_iff dest: in_set_dropD)
  show ?thesis
  proof (cases s)
    case Nil
    show ?thesis
    proof (cases u)
      case Nil
      with \<open>s = []\<close> loop wf' show ?thesis unfolding t' by (simp add: log_inv_def)
    next
      case (Cons r rs)
      have ch: "chain_ok H GENESIS (ar_id r) (d @ ?u2)"
        using loop Cons \<open>s = []\<close> seal_loop_chain_any [OF _ u2] by (simp add: GENESIS_def)
      show ?thesis
      proof (cases d)
        case Nil
        with Cons \<open>s = []\<close> t inv show ?thesis unfolding t' by simp
      next
        case (Cons y ys)
        with ch wf' pre \<open>s = []\<close> sd show ?thesis unfolding t'
          by (simp add: log_inv_def GENESIS_def)
      qed
    qed
  next
    case (Cons r rs)
    then have ne: "s \<noteq> []" by simp
    then have ce: "chain_end p e s = (or_empty (ar_entry_hash (last s)), Suc (ar_id (last s)))" for p e
      by (rule chain_end_last)
    have "seal_loop H (now - grace) (Some (Suc (ar_id (last s)))) (or_empty (ar_entry_hash (last s))) u = (d, stop)"
      using loop ne by (simp add: ce)
    then have "chain_ok H (or_empty (ar_entry_hash (last s))) (Suc (ar_id (last s))) (d @ ?u2)"
      by (rule seal_loop_chain [OF _ u2])
    then have "chain_ok H p e ?t'" if "chain_ok H p e t" for p e
      using that t by (simp add: chain_ok_append [OF s] ce)
    moreover have "vouched ?t' i h = vouched t i h" for i h
      using vouched_sim [OF sim wf wf'] by simp
    ultimately show ?thesis using inv wf' pre Cons t unfolding t'
      by (simp add: log_inv_def del: chain_ok.simps)
  qed
qed

subsection \<open>Pruning\<close>

lemma contiguous_prefix:
  "wf_log t \<Longrightarrow> \<forall>r \<in> set t. e \<le> ar_id r \<Longrightarrow>
   let g = contiguous_from e (filter P t) in t = g @ drop (length g) t \<and> list_all P g
     \<and> (g \<noteq> [] \<longrightarrow> Suc (ar_id (last g)) = e + length g)"
proof (induction t arbitrary: e)
  case (Cons r t)
  show ?case
  proof (cases "P r \<and> ar_id r = e")
    case True
    have "\<forall>x \<in> set t. Suc e \<le> ar_id x" using Cons.prems True by (auto simp: wf_log_Cons)
    with Cons.IH [of "Suc e"] Cons.prems True show ?thesis by (auto simp: Let_def wf_log_Cons)
  next
    case False
    have "contiguous_from e (filter P (r # t)) = []"
    proof (cases "filter P (r # t)")
      case Nil
      then show ?thesis by (simp only: contiguous_from.simps)
    next
      case (Cons x xs)
      then have "x \<in> set (filter P (r # t))" "P x" by (metis list.set_intros(1), metis filter_eq_ConsD)
      then have "ar_id x \<noteq> e" using Cons.prems False by (auto simp: wf_log_Cons split: if_splits)
      with Cons show ?thesis by (simp only: contiguous_from.simps) simp
    qed
    then show ?thesis by (simp add: Let_def)
  qed
qed simp

lemma chain_ok_drop:
  assumes "chain_ok H p e (g @ r # q)" "list_all sealed g" "g \<noteq> []"
  shows "chain_ok H (or_empty (ar_entry_hash (last g))) (Suc (ar_id (last g))) (r # q)"
  using assms by (simp add: chain_ok_append chain_end_last del: chain_ok.simps)

lemma jget_checkpoint_details [simp]:
  "jget ''pruned_through_id'' (checkpoint_details a z h n f ret) = Some (JInt (int z))"
  "jget ''pruned_through_hash'' (checkpoint_details a z h n f ret) = Some (JStr h)"
  by (simp_all add: jget_def checkpoint_details_def)

lemma details_of_dumps:
  "ar_details r = dumps_details (Some j) \<Longrightarrow> j \<noteq> JObj [] \<Longrightarrow> details_of r = Some j"
  by (simp add: details_of_def dumps_details_def)

text \<open>A log that loses a sealed prefix and gains the checkpoint naming its end is still verifiable.\<close>

lemma log_inv_cut:
  assumes inv: "log_inv H (g @ q)" and g: "list_all sealed g" "g \<noteq> []"
    and cp: "ar_id cp = fresh_id ar_id q" "\<not> sealed cp" "ar_prev_hash cp = None"
      "ar_action cp = ''audit_checkpoint''"
      "ar_details cp = dumps_details (Some (checkpoint_details a (ar_id (last g))
          (or_empty (ar_entry_hash (last g))) n file ret))"
  shows "log_inv H (q @ [cp])"
proof -
  have wf: "wf_log (g @ q)" and pre: "list_all (\<lambda>r. \<not> sealed r \<longrightarrow> ar_prev_hash r = None) (q @ [cp])"
    using inv cp by (simp_all add: log_inv_def)
  have "wf_log q" using wf by (simp add: wf_log_append)
  then have wf': "wf_log (q @ [cp])" using cp(1) by (rule wf_log_fresh)
  have d: "details_of cp = Some (checkpoint_details a (ar_id (last g)) (or_empty (ar_entry_hash (last g))) n file ret)"
    by (rule details_of_dumps [OF cp(5)]) (simp add: checkpoint_details_def)
  show ?thesis
  proof (cases q)
    case Nil
    with wf' pre cp show ?thesis by (simp add: log_inv_def)
  next
    case (Cons r rs)
    let ?h = "or_empty (ar_entry_hash (last g))"
    obtain x xs where "g = x # xs" using g(2) by (cases g) auto
    with inv Cons have "chain_ok H (or_empty (ar_prev_hash x)) (ar_id x) (g @ r # rs)"
      by (simp add: log_inv_def del: chain_ok.simps)
    then have ch: "chain_ok H ?h (Suc (ar_id (last g))) (r # rs)"
      by (rule chain_ok_drop [OF _ g])
    show ?thesis
    proof (cases "sealed r")
      case False
      with ch have "chain_ok H p e (q @ [cp])" for p e
        using cp(2) Cons by (simp add: chain_ok_unsealed)
      with wf' pre False Cons show ?thesis by (simp add: log_inv_def)
    next
      case True
      then have r: "ar_id r = Suc (ar_id (last g))" "or_empty (ar_prev_hash r) = ?h" using ch by simp_all
      have "chain_ok H ?h (ar_id r) (q @ [cp])"
        using chain_ok_snoc_unsealed [OF ch cp(2)] r(1) Cons by simp
      moreover have "checkpoint_for (q @ [cp]) (ar_id r) = Some cp"
        using by_id_filter [OF wf', of "\<lambda>r. ar_action r = ''audit_checkpoint''"] cp(4) d r(1)
        by (simp add: checkpoint_for_def first_row_def vouches_for_def)
      then have "vouched (q @ [cp]) (ar_id r) (ar_prev_hash r)" if "or_empty (ar_prev_hash r) \<noteq> []"
        using that d r(2) by (cases "ar_prev_hash r") (simp_all add: vouched_def)
      ultimately show ?thesis using wf' pre Cons r(2) by (auto simp: log_inv_def simp del: chain_ok.simps)
    qed
  qed
qed

lemma delete_prefix:
  "wf_log (g @ q) \<Longrightarrow> filter (\<lambda>r. ar_id r \<notin> ar_id ` set g) (g @ q) = q"
  by (fastforce simp: wf_log_append filter_empty_conv filter_id_conv)

lemma prune_cases:
  assumes "wf_log (al_rows lg)" "prune ret now dry actor rq lg = (lg', res)"
  shows "lg' = lg \<or> (\<exists>g q cp a n file. al_rows lg = g @ q \<and> list_all sealed g \<and> g \<noteq> [] \<and> al_rows lg' = q @ [cp]
    \<and> list_all (older_than (now - days ret)) g \<and> \<not> dry \<and> 0 < ret
    \<and> res = Pruned (length g) (ar_id (hd g)) (ar_id (last g)) (or_empty (ar_entry_hash (last g))) dry
    \<and> al_archive lg' = al_archive lg @ [(file, map (\<lambda>r. dumps Spaced (sort_json (row_to_dict r))) g)]
    \<and> ar_id cp = fresh_id ar_id q \<and> \<not> sealed cp \<and> ar_prev_hash cp = None \<and> ar_action cp = ''audit_checkpoint''
    \<and> ar_details cp = dumps_details (Some (checkpoint_details a (ar_id (last g))
          (or_empty (ar_entry_hash (last g))) n file ret)))"
proof (cases "lg' = lg")
  case False
  let ?P = "\<lambda>r. sealed r \<and> older_than (now - days ret) r"
  let ?t = "al_rows lg"
  define fl where "fl = filter ?P ?t"
  have un: "by_id (filter ?P ?t) = fl" "by_id ?t = ?t" using assms(1) by (simp_all add: fl_def)
  obtain r0 rs where f: "fl = r0 # rs"
    using False assms(2) un by (cases fl) (simp_all add: prune_def Let_def split: if_splits)
  then have "?t \<noteq> []" using fl_def by auto
  then obtain first ts where t: "?t = first # ts" by (cases ?t) auto
  have same: "ar_id r0 = ar_id first" and ret: "0 < ret" "\<not> dry"
    using False assms(2) f t un by (auto simp: prune_def Let_def split: if_splits)
  define g where "g = contiguous_from (ar_id first) fl"
  have g: "?t = g @ drop (length g) ?t" "list_all ?P g"
    using contiguous_prefix [of ?t "ar_id first" ?P] assms(1) t
    by (auto simp: g_def fl_def Let_def wf_log_Cons less_imp_le)
  have ne: "g \<noteq> []" "hd g = r0" using f same by (auto simp: g_def)
  define fname where "fname = ''audit-'' @ show_nat (ar_id r0) @ ''-'' @ show_nat (ar_id (last g)) @ ''-''
      @ compact_stamp now @ ''.jsonl''"
  define q where "q = drop (length g) ?t"
  have cut: "filter (\<lambda>r. ar_id r \<notin> ar_id ` set g) ?t = q"
    using g(1) assms(1) delete_prefix [of g q] by (simp add: q_def)
  define lg1 where "lg1 = lg\<lparr>al_archive := al_archive lg
      @ [(fname, map (\<lambda>r. dumps Spaced (sort_json (row_to_dict r))) g)], al_rows := q\<rparr>"
  define d where "d = checkpoint_details (ar_id r0) (ar_id (last g)) (or_empty (ar_entry_hash (last g)))
      (length g) fname ret"
  have un2: "by_id ?t = first # ts" using un(2) t by simp
  have res: "lg' = log_action rq (Some actor) ''audit_checkpoint'' (Some ''audit_log'') (Some (ar_id (last g))) (Some d) lg1"
    "res = Pruned (length g) (ar_id r0) (ar_id (last g)) (or_empty (ar_entry_hash (last g))) dry"
    using assms(2) un(1) [unfolded f] un2 same ret cut g_def [symmetric, unfolded f]
    by (simp_all add: prune_def Let_def fname_def lg1_def d_def del: contiguous_from.simps)
  have arch: "al_archive lg' = al_archive lg1" unfolding res
    by (cases "log_actor rq (Some actor)") (simp add: log_action_def)
  show ?thesis
    by (rule log_action_rows [of rq "Some actor" "''audit_checkpoint''" "Some ''audit_log''" "Some (ar_id (last g))" "Some d" lg1])
      (rule disjI2, rule exI [of _ g], rule exI [of _ q],
       use g ne ret res arch in \<open>auto simp: lg1_def d_def q_def list_all_iff\<close>)
qed simp

lemma log_inv_prune:
  assumes "log_inv H (al_rows lg)"
  shows "log_inv H (al_rows (fst (prune ret now dry actor rq lg)))"
proof -
  obtain lg' res where p: "prune ret now dry actor rq lg = (lg', res)" by fastforce
  have "wf_log (al_rows lg)" using assms by (simp add: log_inv_def)
  from prune_cases [OF this p] assms p show ?thesis
    by (auto intro: log_inv_cut)
qed

end
