(* ===== verification/Caches.thy ===== *)
theory Caches
  imports Prelude "HOL-Library.AList"
begin

text \<open>
  The interface of an in-memory cache with expiring entries. The two caches of
  the program (verified Basic-Auth credentials, signed OCSP responses) are
  Python dicts: association lists in insertion order. \<open>ttl_cache\<close> states what a
  client may rely on; the lemmas of the locale are proved from those laws alone
  and each cache interprets the locale in its own theory.
\<close>

datatype ('k, 'v) cache_event = Put time 'k 'v | Get time 'k | Drop 'k

locale ttl_cache =
  fixes get :: "time \<Rightarrow> 'k \<Rightarrow> 'c \<Rightarrow> 'v option"
    and touch :: "time \<Rightarrow> 'k \<Rightarrow> 'c \<Rightarrow> 'c"
    and put :: "time \<Rightarrow> 'k \<Rightarrow> 'v \<Rightarrow> 'c \<Rightarrow> 'c"
    and drop_key :: "'k \<Rightarrow> 'c \<Rightarrow> 'c"
    and empty :: 'c
    and ttl :: time
    and invar :: "'c \<Rightarrow> bool"
  assumes invar_empty: "invar empty"
    and invar_put: "invar c \<Longrightarrow> invar (put t0 k v c)"
    and invar_touch: "invar c \<Longrightarrow> invar (touch t0 k c)"
    and invar_drop: "invar c \<Longrightarrow> invar (drop_key k c)"
    and get_empty: "get t k empty = None"
    and get_put_same: "invar c \<Longrightarrow> get t k (put t0 k v c) = Some w \<Longrightarrow> w = v \<and> t < t0 + ttl"
    and get_put_other: "invar c \<Longrightarrow> k' \<noteq> k \<Longrightarrow> get t k' (put t0 k v c) = Some w \<Longrightarrow> get t k' c = Some w"
    and get_touch: "invar c \<Longrightarrow> get t k (touch t0 k' c) = Some w \<Longrightarrow> get t k c = Some w"
    and get_drop: "invar c \<Longrightarrow> get t k (drop_key k' c) = Some w \<Longrightarrow> k' \<noteq> k \<and> get t k c = Some w"
begin

fun apply_event :: "('k, 'v) cache_event \<Rightarrow> 'c \<Rightarrow> 'c" where
  "apply_event (Put t k v) c = put t k v c"
| "apply_event (Get t k) c = touch t k c"
| "apply_event (Drop k) c = drop_key k c"

text \<open>Nothing after the put of a key in a history replaces or drops it.\<close>

fun undisturbed :: "'k \<Rightarrow> ('k, 'v) cache_event list \<Rightarrow> bool" where
  "undisturbed k [] = True"
| "undisturbed k (Put t k' v # es) = (k' \<noteq> k \<and> undisturbed k es)"
| "undisturbed k (Get t k' # es) = undisturbed k es"
| "undisturbed k (Drop k' # es) = (k' \<noteq> k \<and> undisturbed k es)"

lemma undisturbed_append: "undisturbed k (a @ b) \<longleftrightarrow> undisturbed k a \<and> undisturbed k b"
  by (induction k a rule: undisturbed.induct) auto

lemma invar_history: "invar (fold apply_event es empty)"
proof (induction es rule: rev_induct)
  case (snoc e es)
  then show ?case by (cases e) (simp_all add: invar_put invar_touch invar_drop)
qed (simp add: invar_empty)

text \<open>A hit returns the value of the last put of its key, put less than the lifetime ago and not dropped since.\<close>

theorem hit_was_put:
  "get t k (fold apply_event es empty) = Some v \<Longrightarrow>
   \<exists>a t0 b. es = a @ Put t0 k v # b \<and> undisturbed k b \<and> t < t0 + ttl"
proof (induction es rule: rev_induct)
  case Nil
  then show ?case by (simp add: get_empty)
next
  case (snoc e es)
  have keep: ?case if "get t k (fold apply_event es empty) = Some v" "undisturbed k [e]"
  proof -
    from snoc.IH [OF that(1)] obtain a t0 b
      where "es = a @ Put t0 k v # b" "undisturbed k b" "t < t0 + ttl" by blast
    with that(2) show ?thesis
      by (intro exI [of _ a] exI [of _ t0] exI [of _ "b @ [e]"]) (simp add: undisturbed_append)
  qed
  show ?case
  proof (cases e)
    case (Put t0 k' v')
    show ?thesis
    proof (cases "k' = k")
      case True
      with snoc.prems Put have "v = v' \<and> t < t0 + ttl"
        using get_put_same [of "fold apply_event es empty" t k t0 v' v, OF invar_history] by simp
      with Put True show ?thesis by (intro exI [of _ es] exI [of _ t0] exI [of _ "[]"]) simp
    next
      case False
      then have "get t k (fold apply_event es empty) = Some v"
        using snoc.prems Put get_put_other [of "fold apply_event es empty" k k' t t0 v' v, OF invar_history] by simp
      then show ?thesis by (rule keep) (simp add: Put False)
    qed
  next
    case (Get t0 k')
    then have "get t k (fold apply_event es empty) = Some v"
      using snoc.prems get_touch [of "fold apply_event es empty" t k t0 k' v, OF invar_history] by simp
    then show ?thesis by (rule keep) (simp add: Get)
  next
    case (Drop k')
    then have "k' \<noteq> k \<and> get t k (fold apply_event es empty) = Some v"
      using snoc.prems get_drop [of "fold apply_event es empty" t k k' v, OF invar_history] by simp
    then show ?thesis by (intro keep) (simp_all add: Drop)
  qed
qed

end

text \<open>Dicts as association lists.\<close>

lemma map_of_update_same [simp]: "map_of (AList.update k v es) k = Some v"
  by (simp add: update_conv')

lemma map_of_update_other [simp]: "k' \<noteq> k \<Longrightarrow> map_of (AList.update k v es) k' = map_of es k'"
  by (simp add: update_conv')

lemma map_of_filter_keys: "map_of (filter (\<lambda>e. p (fst e)) es) k = (if p k then map_of es k else None)"
  by (induction es) auto

lemma map_of_delete_key: "map_of (AList.delete k es) k' = (if k' = k then None else map_of es k')"
  by (simp add: delete_conv')

lemma distinct_filter_fst: "distinct (map fst es) \<Longrightarrow> distinct (map fst (filter p es))"
  by (induction es) auto

lemma map_of_filter_distinct:
  "distinct (map fst es) \<Longrightarrow> map_of (filter p es) k = Some v \<Longrightarrow> map_of es k = Some v"
  by (auto dest!: map_of_SomeD)

end
