(* ===== verification/Auth.thy ===== *)
theory Auth
  imports AuditChain Caches
begin

text \<open>
  User accounts and password authentication: \<open>app/models/user.py\<close>,
  \<open>app/services/auth_service.py\<close> and the login path of
  \<open>app/services/ldap_service.py\<close>. The werkzeug password hash and the directory
  server are parameters.
\<close>

section \<open>Accounts\<close>

record user =
  u_id :: nat
  u_username :: string
  u_password_hash :: string
  u_role :: string
  u_active :: bool
  u_auth_source :: string
  u_created_at :: "time option"
  u_failed :: nat
  u_locked_until :: "time option"
  u_must_change :: bool
  u_totp_secret :: "string option"
  u_totp_enabled :: bool
  u_totp_confirmed_at :: "time option"
  u_totp_last_step :: "int option"
  u_recovery :: "string list"
  u_session_version :: nat
  u_approval :: string
  u_created_by :: "nat option"
  u_approved_by :: "nat option"
  u_approved_at :: "time option"
  u_pending_role :: "string option"
  u_pending_by :: "nat option"
  u_reset_by :: "nat option"
  u_reset_at :: "time option"

definition UNUSABLE_PASSWORD :: string where
  "UNUSABLE_PASSWORD = ''!''"

definition is_pending :: "user \<Rightarrow> bool" where
  "is_pending u \<longleftrightarrow> u_approval u = ''pending''"

definition awaits_approval :: "user \<Rightarrow> bool" where
  "awaits_approval u \<longleftrightarrow> is_pending u \<or> or_empty (u_pending_role u) \<noteq> []"

definition is_admin :: "user \<Rightarrow> bool" where
  "is_admin u \<longleftrightarrow> u_role u = ''admin''"

definition check_password :: "(string \<Rightarrow> string \<Rightarrow> bool) \<Rightarrow> user \<Rightarrow> string \<Rightarrow> bool" where
  "check_password check u p = (if u_password_hash u = UNUSABLE_PASSWORD then False else check (u_password_hash u) p)"

text \<open>A row with the column defaults of the model.\<close>

definition new_user :: "nat \<Rightarrow> string \<Rightarrow> string \<Rightarrow> string \<Rightarrow> string \<Rightarrow> time \<Rightarrow> user" where
  "new_user i name role src h now =
     \<lparr>u_id = i, u_username = name, u_password_hash = h, u_role = role, u_active = True, u_auth_source = src,
      u_created_at = Some now, u_failed = 0, u_locked_until = None, u_must_change = False,
      u_totp_secret = None, u_totp_enabled = False, u_totp_confirmed_at = None, u_totp_last_step = None,
      u_recovery = [], u_session_version = 1, u_approval = ''approved'', u_created_by = None,
      u_approved_by = None, u_approved_at = None, u_pending_role = None, u_pending_by = None,
      u_reset_by = None, u_reset_at = None\<rparr>"

section \<open>Credential cache\<close>

record cred_entry =
  ce_mac :: string
  ce_user :: nat
  ce_method :: string
  ce_expires :: time

type_synonym cred_cache = "(string \<times> cred_entry) list"

definition cc_max :: nat where
  "cc_max = 256"

text \<open>\<open>get\<close>: the answer, and the cache it leaves (an expired entry is deleted).\<close>

definition cc_lookup :: "time \<Rightarrow> time \<Rightarrow> string \<times> string \<Rightarrow> cred_cache \<Rightarrow> (nat \<times> string) option" where
  "cc_lookup ttl now key es =
     (if ttl \<le> 0 then None
      else case map_of es (fst key) of
        None \<Rightarrow> None
      | Some e \<Rightarrow> if ce_expires e \<le> now then None
                  else if ce_mac e \<noteq> snd key then None
                  else Some (ce_user e, ce_method e))"

definition cc_touch :: "time \<Rightarrow> time \<Rightarrow> string \<times> string \<Rightarrow> cred_cache \<Rightarrow> cred_cache" where
  "cc_touch ttl now key es =
     (if ttl \<le> 0 then es
      else case map_of es (fst key) of
        None \<Rightarrow> es
      | Some e \<Rightarrow> if ce_expires e \<le> now then AList.delete (fst key) es else es)"

text \<open>\<open>min(entries, key=expires_at)\<close>: the first of the entries that expire earliest.\<close>

fun oldest :: "cred_cache \<Rightarrow> string" where
  "oldest [] = []"
| "oldest [e] = fst e"
| "oldest (e # f # es) = oldest ((if ce_expires (snd f) < ce_expires (snd e) then f else e) # es)"

definition cc_put :: "time \<Rightarrow> time \<Rightarrow> string \<times> string \<Rightarrow> nat \<times> string \<Rightarrow> cred_cache \<Rightarrow> cred_cache" where
  "cc_put ttl now key val es =
     (if ttl \<le> 0 then es
      else
        let es1 = (if map_of es (fst key) = None \<and> cc_max \<le> length es
                   then let live = filter (\<lambda>x. \<not> ce_expires (snd x) \<le> now) es
                        in if cc_max \<le> length live then AList.delete (oldest live) live else live
                   else es)
        in AList.update (fst key)
             \<lparr>ce_mac = snd key, ce_user = fst val, ce_method = snd val, ce_expires = now + ttl\<rparr> es1)"

definition cc_drop_user :: "string \<Rightarrow> cred_cache \<Rightarrow> cred_cache" where
  "cc_drop_user u es = AList.delete u es"

section \<open>Configuration and state\<close>

record auth_config =
  cf_lockout_threshold :: int
  cf_lockout_minutes :: int
  cf_cache_ttl :: time
  cf_admin_username :: string
  cf_dual_control :: bool
  cf_cooldown_hours :: int
  cf_min_password :: int

record ldap_config =
  lc_enabled :: bool
  lc_dn_template :: string
  lc_filter :: string
  lc_admin_group :: string
  lc_requester_group :: string

text \<open>
  The directory: a bind with a DN and a password, the group values of an
  entry (empty when they cannot be read), the entries the service account finds
  for a filter (None when the bind or the search fails), and ldap3's escaping.
\<close>

datatype bind_outcome = Bind_ok | Bind_refused | Bind_down

record directory =
  dir_bind :: "string \<Rightarrow> string \<Rightarrow> bind_outcome"
  dir_groups :: "string \<Rightarrow> string list"
  dir_search :: "string \<Rightarrow> (string \<times> string list) list option"
  dir_escape_rdn :: "string \<Rightarrow> string"
  dir_escape_filter :: "string \<Rightarrow> string"

record world =
  w_users :: "user list"
  w_cache :: cred_cache
  w_log :: audit_log

definition put_user :: "user \<Rightarrow> world \<Rightarrow> world" where
  "put_user u w = w\<lparr>w_users := put_row u_id u (w_users w)\<rparr>"

definition active_admins :: "user list \<Rightarrow> user list" where
  "active_admins t = filter (\<lambda>u. u_role u = ''admin'' \<and> u_active u) t"

section \<open>Lockout\<close>

definition is_locked :: "time \<Rightarrow> user \<Rightarrow> bool" where
  "is_locked now u = (case u_locked_until u of None \<Rightarrow> False | Some t \<Rightarrow> now < t)"

definition is_last_active_admin :: "user list \<Rightarrow> user \<Rightarrow> bool" where
  "is_last_active_admin t u = (if u_role u \<noteq> ''admin'' then False else length (active_admins t) \<le> 1)"

definition register_failed_attempt :: "auth_config \<Rightarrow> time \<Rightarrow> user \<Rightarrow> world \<Rightarrow> world" where
  "register_failed_attempt cf now u w =
     (if cf_lockout_threshold cf \<le> 0 then w
      else
        let u1 = u\<lparr>u_failed := u_failed u + 1\<rparr>
        in if cf_lockout_threshold cf \<le> int (u_failed u1) then
             (if is_last_active_admin (w_users w) u1 then put_user (u1\<lparr>u_failed := 0\<rparr>) w
              else put_user (u1\<lparr>u_locked_until := Some (now + minutes (cf_lockout_minutes cf)), u_failed := 0\<rparr>) w)
           else put_user u1 w)"

definition clear_lockout :: "user \<Rightarrow> user" where
  "clear_lockout u = u\<lparr>u_failed := 0, u_locked_until := None\<rparr>"

definition reset_lockout :: "user \<Rightarrow> user" where
  "reset_lockout u = (if u_failed u \<noteq> 0 \<or> u_locked_until u \<noteq> None then clear_lockout u else u)"

definition bump_session_version :: "user \<Rightarrow> world \<Rightarrow> user \<times> world" where
  "bump_session_version u w =
     (u\<lparr>u_session_version := u_session_version u + 1\<rparr>, w\<lparr>w_cache := cc_drop_user (u_username u) (w_cache w)\<rparr>)"

section \<open>Directory logins\<close>

function replace_str :: "string \<Rightarrow> string \<Rightarrow> string \<Rightarrow> string" where
  "replace_str pat rep s =
     (if s = [] then []
      else if pat \<noteq> [] \<and> startswith s pat then rep @ replace_str pat rep (drop (length pat) s)
      else hd s # replace_str pat rep (tl s))"
  by pat_completeness auto
termination
  by (relation "measure (\<lambda>(p, r, s). length s)") (auto simp: neq_Nil_conv)

declare replace_str.simps [simp del]

definition format_username :: "string \<Rightarrow> string \<Rightarrow> string" where
  "format_username template name = replace_str ''{username}'' name template"

datatype ldap_outcome = Ldap_unavailable | Ldap_refused | Ldap_ok string "string list"

definition authenticate_ldap :: "ldap_config \<Rightarrow> directory \<Rightarrow> string \<Rightarrow> string \<Rightarrow> ldap_outcome" where
  "authenticate_ldap lc dir name pw =
     (if name = [] \<or> pw = [] \<or> strip_str pw = [] then Ldap_refused
      else if lc_dn_template lc \<noteq> [] then
        let dn = format_username (lc_dn_template lc) (dir_escape_rdn dir name)
        in case dir_bind dir dn pw of
             Bind_down \<Rightarrow> Ldap_unavailable
           | Bind_refused \<Rightarrow> Ldap_refused
           | Bind_ok \<Rightarrow> Ldap_ok dn (map (\<lambda>v. lower_str (strip_str v)) (dir_groups dir dn))
      else
        case dir_search dir (format_username (lc_filter lc) (dir_escape_filter dir name)) of
          None \<Rightarrow> Ldap_unavailable
        | Some [(dn, values)] \<Rightarrow>
            (case dir_bind dir dn pw of
               Bind_down \<Rightarrow> Ldap_unavailable
             | Bind_refused \<Rightarrow> Ldap_refused
             | Bind_ok \<Rightarrow> Ldap_ok dn (map (\<lambda>v. lower_str (strip_str v)) values))
        | Some _ \<Rightarrow> Ldap_refused)"

definition map_role :: "ldap_config \<Rightarrow> string list \<Rightarrow> string option" where
  "map_role lc groups =
     (let admin_group = lower_str (strip_str (lc_admin_group lc));
          requester_group = lower_str (strip_str (lc_requester_group lc))
      in if admin_group \<noteq> [] \<and> admin_group \<in> set groups then Some ''admin''
         else if requester_group \<noteq> [] \<and> requester_group \<in> set groups then Some ''csr_requester''
         else if admin_group \<noteq> [] \<or> requester_group \<noteq> [] then None
         else Some ''csr_requester'')"

definition provision_user :: "request_ctx \<Rightarrow> string \<Rightarrow> string \<Rightarrow> string \<Rightarrow> world \<Rightarrow> user \<times> world" where
  "provision_user rq name role dn w =
     (let u = new_user (fresh_id u_id (w_users w)) name role ''ldap'' UNUSABLE_PASSWORD (rq_now rq)
      in (u, w\<lparr>w_users := w_users w @ [u],
               w_log := log_action rq None ''ldap_user_provisioned'' (Some ''user'') (Some (u_id u))
                 (Some (JObj [(''username'', JStr name), (''role'', JStr role), (''dn'', JStr dn)])) (w_log w)\<rparr>))"

definition sync_role :: "request_ctx \<Rightarrow> user \<Rightarrow> string \<Rightarrow> world \<Rightarrow> user \<times> world" where
  "sync_role rq u role w =
     (if u_role u = role then (u, w)
      else
        let u' = u\<lparr>u_role := role\<rparr>; w' = put_user u' w
        in (u', w'\<lparr>w_log := log_action rq None ''ldap_role_synced'' (Some ''user'') (Some (u_id u))
              (Some (JObj [(''username'', JStr (u_username u)), (''old_role'', JStr (u_role u)),
                           (''new_role'', JStr role)])) (w_log w')\<rparr>))"

section \<open>authenticate\<close>

datatype auth_reason = Invalid | Deactivated | Pending_approval | Ldap_unreachable | Ldap_no_role | Locked

record auth_result =
  au_user :: "user option"
  au_reason :: "auth_reason option"
  au_method :: string

definition refused :: "user option \<Rightarrow> auth_reason \<Rightarrow> string \<Rightarrow> auth_result" where
  "refused u r m = \<lparr>au_user = u, au_reason = Some r, au_method = m\<rparr>"

definition accepted :: "user \<Rightarrow> string \<Rightarrow> auth_result" where
  "accepted u m = \<lparr>au_user = Some u, au_reason = None, au_method = m\<rparr>"

definition auth_ok :: "auth_result \<Rightarrow> bool" where
  "auth_ok r \<longleftrightarrow> au_user r \<noteq> None \<and> au_reason r = None"

text \<open>A directory login once the credentials are known to be good or bad.\<close>

definition finish_ldap :: "request_ctx \<Rightarrow> ldap_config \<Rightarrow> directory \<Rightarrow> string \<Rightarrow> string \<Rightarrow> user option \<Rightarrow> world
    \<Rightarrow> world \<times> auth_result" where
  "finish_ldap rq lc dir name pw existing w =
     (case authenticate_ldap lc dir name pw of
        Ldap_unavailable \<Rightarrow> (w, refused None Ldap_unreachable ''ldap'')
      | Ldap_refused \<Rightarrow> (w, refused None Invalid ''ldap'')
      | Ldap_ok dn groups \<Rightarrow>
          (case map_role lc groups of
             None \<Rightarrow> (w, refused None Ldap_no_role ''ldap'')
           | Some role \<Rightarrow>
               let (u, w') = (case existing of
                                None \<Rightarrow> provision_user rq name role dn w
                              | Some u0 \<Rightarrow> sync_role rq u0 role w)
               in if \<not> u_active u then (w', refused (Some u) Deactivated ''ldap'')
                  else (w', accepted u ''ldap'')))"

definition authenticate :: "auth_config \<Rightarrow> ldap_config \<Rightarrow> directory \<Rightarrow> (string \<Rightarrow> string \<Rightarrow> bool) \<Rightarrow> request_ctx
    \<Rightarrow> string \<Rightarrow> string \<Rightarrow> world \<Rightarrow> world \<times> auth_result" where
  "authenticate cf lc dir check rq name pw w =
     (if name = [] \<or> pw = [] then (w, refused None Invalid ''local'')
      else
        case first_row (\<lambda>u. u_username u = name) (w_users w) of
          Some u \<Rightarrow>
            if u_auth_source u = ''local'' then
              if is_locked (rq_now rq) u then (w, refused (Some u) Locked ''local'')
              else if \<not> check_password check u pw then
                (register_failed_attempt cf (rq_now rq) u w, refused None Invalid ''local'')
              else if \<not> u_active u then
                (w, refused (Some u) (if is_pending u then Pending_approval else Deactivated) ''local'')
              else (put_user (reset_lockout u) w, accepted (reset_lockout u) ''local'')
            else if \<not> lc_enabled lc then (w, refused None Invalid ''local'')
            else finish_ldap rq lc dir name pw (Some u) w
        | None \<Rightarrow>
            if \<not> lc_enabled lc then (w, refused None Invalid ''local'')
            else finish_ldap rq lc dir name pw None w)"

definition authenticate_basic :: "(string \<Rightarrow> string) \<Rightarrow> auth_config \<Rightarrow> ldap_config \<Rightarrow> directory
    \<Rightarrow> (string \<Rightarrow> string \<Rightarrow> bool) \<Rightarrow> time \<Rightarrow> request_ctx \<Rightarrow> string \<Rightarrow> string \<Rightarrow> world \<Rightarrow> world \<times> auth_result" where
  "authenticate_basic mac cf lc dir check clock rq name pw w =
     (if name = [] \<or> pw = [] then (w, refused None Invalid ''local'')
      else
        let key = (name, mac (name @ CHR 0x00 # pw));
            hit = cc_lookup (cf_cache_ttl cf) clock key (w_cache w);
            w1 = w\<lparr>w_cache := cc_touch (cf_cache_ttl cf) clock key (w_cache w)\<rparr>;
            full = (let (w2, r) = authenticate cf lc dir check rq name pw w1
                    in case (auth_ok r, au_user r) of
                         (True, Some u) \<Rightarrow>
                           (w2\<lparr>w_cache := cc_put (cf_cache_ttl cf) clock key (u_id u, au_method r) (w_cache w2)\<rparr>, r)
                       | _ \<Rightarrow> (w2, r))
        in case hit of
             None \<Rightarrow> full
           | Some (i, m) \<Rightarrow>
               (case get_row u_id i (w_users w1) of
                  None \<Rightarrow> full
                | Some u \<Rightarrow> if u_username u = name \<and> u_active u then (w1, accepted u m) else full))"

text \<open>\<open>load_user\<close>: a session stamped with an older session version is refused.\<close>

definition load_user :: "nat \<Rightarrow> nat option \<Rightarrow> user list \<Rightarrow> user option" where
  "load_user i stamped t =
     (case get_row u_id i t of
        None \<Rightarrow> None
      | Some u \<Rightarrow> if stamped \<noteq> None \<and> stamped \<noteq> Some (u_session_version u) then None else Some u)"

end
