(* ===== verification/Auth_Claims.thy ===== *)
theory Auth_Claims
  imports Auth
begin

text \<open>
  Correctness of authentication: the credential cache is a \<open>ttl_cache\<close>, an
  accepted login is always backed by a verified credential and an active row,
  the lockout engages exactly at its threshold and never locks the only
  administrator, and a local account is out of the directory's reach.
\<close>

section \<open>The credential cache\<close>

definition cc_invar :: "cred_cache \<Rightarrow> bool" where
  "cc_invar es \<longleftrightarrow> distinct (map fst es) \<and> length es \<le> cc_max"

lemma oldest_mem: "es \<noteq> [] \<Longrightarrow> oldest es \<in> fst ` set es"
  by (induction es rule: oldest.induct) (auto split: if_splits)

lemma length_delete: "k \<in> fst ` set es \<Longrightarrow> length (AList.delete k es) < length es"
  unfolding AList.delete_eq by (erule imageE, rule length_filter_less) auto

lemma length_delete_le: "length (AList.delete k es) \<le> length es"
  by (simp add: AList.delete_eq)

lemma length_update: "length (AList.update k v es) = (if k \<in> fst ` set es then length es else Suc (length es))"
  by (induction es) auto

lemma map_of_None_fst: "map_of es k = None \<longleftrightarrow> k \<notin> fst ` set es"
  by (rule map_of_eq_None_iff)

definition cc_room :: "time \<Rightarrow> string \<Rightarrow> cred_cache \<Rightarrow> cred_cache" where
  "cc_room now k es =
     (if map_of es k = None \<and> cc_max \<le> length es
      then let live = filter (\<lambda>x. \<not> ce_expires (snd x) \<le> now) es
           in if cc_max \<le> length live then AList.delete (oldest live) live else live
      else es)"

lemma cc_put_room:
  "cc_put ttl now key val es =
     (if ttl \<le> 0 then es
      else AList.update (fst key) \<lparr>ce_mac = snd key, ce_user = fst val, ce_method = snd val, ce_expires = now + ttl\<rparr>
             (cc_room now (fst key) es))"
  by (simp add: cc_put_def cc_room_def Let_def)

lemma cc_room_distinct: "distinct (map fst es) \<Longrightarrow> distinct (map fst (cc_room now k es))"
  by (auto simp: cc_room_def Let_def distinct_filter_fst distinct_delete)

lemma cc_room_keys: "distinct (map fst es) \<Longrightarrow> map_of (cc_room now k es) x = Some e \<Longrightarrow> map_of es x = Some e"
  by (auto simp: cc_room_def Let_def map_of_delete_key split: if_splits dest!: map_of_SomeD)

lemma cc_room_length:
  assumes "length es \<le> cc_max"
  shows "length (cc_room now k es) < cc_max \<or> (k \<in> fst ` set es \<and> cc_room now k es = es)"
proof (cases "k \<in> fst ` set es")
  case True
  then show ?thesis by (simp add: cc_room_def map_of_None_fst)
next
  case False
  let ?live = "filter (\<lambda>x. \<not> ce_expires (snd x) \<le> now) es"
  have "length (AList.delete (oldest ?live) ?live) < length ?live" if "cc_max \<le> length ?live"
    using that by (intro length_delete oldest_mem) (auto simp: cc_max_def)
  moreover have "length ?live \<le> cc_max" using assms length_filter_le le_trans by blast
  ultimately show ?thesis using False assms
    by (auto simp: cc_room_def Let_def map_of_None_fst)
qed

lemma cc_put_invar: "cc_invar es \<Longrightarrow> cc_invar (cc_put ttl now k v es)"
  using cc_room_length [of es now "fst k"]
  by (auto simp: cc_invar_def cc_put_room cc_room_distinct distinct_update length_update)

lemma cc_put_other:
  assumes "cc_invar c" "k' \<noteq> k" "cc_lookup ttl t k' (cc_put ttl t0 k v c) = Some w"
  shows "cc_lookup ttl t k' c = Some w"
proof (cases "fst k' = fst k")
  case True
  with assms(2) have "snd k \<noteq> snd k'" by (metis prod.collapse)
  with assms(3) True show ?thesis by (auto simp: cc_lookup_def cc_put_room split: if_splits)
next
  case False
  have "map_of c x = Some e" if "map_of (cc_room t0 (fst k) c) x = Some e" for x e
    using cc_room_keys [OF _ that] assms(1) by (simp add: cc_invar_def)
  with assms(3) False show ?thesis
    by (auto simp: cc_lookup_def cc_put_room simp del: map_of_eq_Some_iff split: if_splits option.splits)
qed

interpretation cred: ttl_cache "cc_lookup ttl" "cc_touch ttl" "cc_put ttl" "\<lambda>k. cc_drop_user (fst k)" "[]" ttl cc_invar
  for ttl
proof unfold_locales
  fix c :: cred_cache and t t0 :: time and k k' :: "string \<times> string" and v w :: "nat \<times> string"
  show "cc_invar []" by (simp add: cc_invar_def)
  show "cc_lookup ttl t k [] = None" by (simp add: cc_lookup_def)
  assume inv: "cc_invar c"
  show "cc_invar (cc_put ttl t0 k v c)" using inv by (rule cc_put_invar)
  show "cc_invar (cc_touch ttl t0 k c)" "cc_invar (cc_drop_user (fst k) c)"
    using inv length_delete_le [of "fst k" c]
    by (auto simp: cc_invar_def cc_touch_def cc_drop_user_def distinct_delete split: option.splits)
  show "w = v \<and> t < t0 + ttl" if "cc_lookup ttl t k (cc_put ttl t0 k v c) = Some w"
    using that by (auto simp: cc_lookup_def cc_put_room split: if_splits)
  show "cc_lookup ttl t k' c = Some w" if "k' \<noteq> k" "cc_lookup ttl t k' (cc_put ttl t0 k v c) = Some w"
    using inv that by (rule cc_put_other)
  show "cc_lookup ttl t k c = Some w" if "cc_lookup ttl t k (cc_touch ttl t0 k' c) = Some w"
    using that by (auto simp: cc_lookup_def cc_touch_def map_of_delete_key split: if_splits option.splits)
  show "k' \<noteq> k \<and> cc_lookup ttl t k c = Some w" if "cc_lookup ttl t k (cc_drop_user (fst k') c) = Some w"
    using that by (auto simp: cc_lookup_def cc_drop_user_def map_of_delete_key split: if_splits option.splits)
qed

text \<open>C20. A hit of the credential cache comes from the last verification of the same user name and the same
  credential digest, less than the lifetime ago, with no session bump of that user since; and the cache
  never holds more than 256 entries.\<close>

theorem credential_cache_sound:
  assumes "cc_lookup ttl t k (fold (cred.apply_event ttl) es []) = Some v"
  shows "(\<exists>a t0 b. es = a @ Put t0 k v # b \<and> cred.undisturbed k b \<and> t < t0 + ttl)
    \<and> length (fold (cred.apply_event ttl) es []) \<le> 256"
  using cred.hit_was_put [OF assms] cred.invar_history [of ttl es] by (simp add: cc_invar_def cc_max_def)

theorem credential_cache_sound_witness:
  "length (fold (cred.apply_event 300) [Put 0 (''bob'', ''m'') (7, ''local''), Get 5 (''eve'', ''x'')] []) \<le> 256"
  using credential_cache_sound [of 300 10 "(''bob'', ''m'')"
      "[Put 0 (''bob'', ''m'') (7, ''local''), Get 5 (''eve'', ''x'')]" "(7, ''local'')"]
  by (simp add: cc_lookup_def cc_put_room cc_room_def cc_touch_def)

section \<open>Accepted logins\<close>

text \<open>\<open>wf_users\<close>: primary keys and user names are unique (the table's constraints).\<close>

definition wf_users :: "user list \<Rightarrow> bool" where
  "wf_users t \<longleftrightarrow> wf_table u_id t \<and> distinct (map u_username t)"

lemma find_username:
  "distinct (map u_username t) \<Longrightarrow> u \<in> set t \<Longrightarrow> first_row (\<lambda>x. u_username x = u_username u) t = Some u"
  by (induction t) (auto simp: first_row_def image_iff)

lemma first_row_SomeD: "first_row p t = Some u \<Longrightarrow> u \<in> set t \<and> p u"
  unfolding first_row_def by (rule find_Some_mem)

lemma put_user_get:
  "wf_table u_id (w_users w) \<Longrightarrow> v \<in> set (w_users w) \<Longrightarrow> u_id u = u_id v \<Longrightarrow>
   u \<in> set (w_users (put_user u w))"
  by (auto simp: put_user_def set_put_row)




lemma refused_simps [simp]: "\<not> auth_ok (refused v r m)" "au_reason (refused v r m) = Some r"
  "auth_ok (accepted u m)" "au_user (accepted u m) = Some u" "au_reason (accepted u m) = None"
  "au_method (accepted u m) = m" "au_user (refused v r m) = v"
  by (simp_all add: auth_ok_def refused_def accepted_def)

lemma reset_lockout_simps [simp]:
  "u_id (reset_lockout u) = u_id u" "u_username (reset_lockout u) = u_username u"
  "u_active (reset_lockout u) = u_active u" "u_role (reset_lockout u) = u_role u"
  by (simp_all add: reset_lockout_def clear_lockout_def)




text \<open>No login attempt breaks the keys of the table.\<close>

lemma register_failed_wf [simp]: "wf_table u_id (w_users (register_failed_attempt cf now u w)) = wf_table u_id (w_users w)"
  by (simp add: register_failed_attempt_def put_user_def put_row_wf Let_def)

lemma finish_ldap_wf:
  "wf_table u_id (w_users w) \<Longrightarrow> wf_table u_id (w_users (fst (finish_ldap rq lc dir name pw ex w)))"
  by (auto simp: finish_ldap_def provision_user_def sync_role_def put_user_def put_row_wf new_user_def Let_def
      intro!: wf_table_snoc split: ldap_outcome.splits option.splits prod.splits)

lemma authenticate_wf:
  "wf_table u_id (w_users w) \<Longrightarrow> wf_table u_id (w_users (fst (authenticate cf lc dir check rq name pw w)))"
  by (auto simp: authenticate_def put_user_def put_row_wf finish_ldap_wf split: option.splits)

lemma authenticate_basic_wf:
  assumes "wf_table u_id (w_users w)"
  shows "wf_table u_id (w_users (fst (authenticate_basic mac cf lc dir check clock rq name pw w)))"
proof -
  have "authenticate cf lc dir check rq name pw (w\<lparr>w_cache := c\<rparr>) = (w2, r) \<Longrightarrow> wf_table u_id (w_users w2)" for c w2 r
    using authenticate_wf [of "w\<lparr>w_cache := c\<rparr>" cf lc dir check rq name pw] assms by simp
  with assms show ?thesis
    by (auto simp: authenticate_basic_def Let_def split: option.splits prod.splits bool.splits)
qed


section \<open>A small instance\<close>

definition demo_cf :: auth_config where
  "demo_cf = \<lparr>cf_lockout_threshold = 2, cf_lockout_minutes = 15, cf_cache_ttl = seconds 300,
     cf_admin_username = ''admin'', cf_dual_control = True, cf_cooldown_hours = 24, cf_min_password = 12\<rparr>"

definition demo_lc :: ldap_config where
  "demo_lc = \<lparr>lc_enabled = False, lc_dn_template = [], lc_filter = [], lc_admin_group = [], lc_requester_group = []\<rparr>"

definition demo_dir :: directory where
  "demo_dir = \<lparr>dir_bind = (\<lambda>d p. Bind_refused), dir_groups = (\<lambda>d. []), dir_search = (\<lambda>f. None),
     dir_escape_rdn = id, dir_escape_filter = id\<rparr>"

definition demo_user :: "nat \<Rightarrow> string \<Rightarrow> string \<Rightarrow> user" where
  "demo_user i name role = new_user i name role ''local'' ''secret'' 0"

definition demo_world :: world where
  "demo_world = \<lparr>w_users = [demo_user 1 ''admin'' ''admin'', demo_user 2 ''bob'' ''csr_requester''],
     w_cache = [], w_log = \<lparr>al_rows = [], al_outbox = [], al_archive = []\<rparr>\<rparr>"

definition anon_rq :: "time \<Rightarrow> request_ctx" where
  "anon_rq t = \<lparr>rq_user = None, rq_addr = None, rq_now = t\<rparr>"

lemmas demo_defs = demo_cf_def demo_lc_def demo_dir_def demo_user_def demo_world_def anon_rq_def new_user_def


section \<open>Local accounts and the directory\<close>

text \<open>A name that has a local account never reaches the directory: whatever the LDAP settings and whatever the
  directory answers, the login has the same result and the same effect. A directory entry cannot shadow the
  break-glass administrator.\<close>

theorem local_account_ignores_directory:
  assumes "first_row (\<lambda>u. u_username u = name) (w_users w) = Some u" "u_auth_source u = ''local''"
  shows "authenticate cf lc dir check rq name pw w = authenticate cf lc' dir' check rq name pw w"
  using assms by (simp add: authenticate_def)

theorem local_account_ignores_directory_witness:
  "authenticate demo_cf demo_lc demo_dir (\<lambda>h p. False) (anon_rq 5) ''admin'' ''x'' demo_world
   = authenticate demo_cf (demo_lc\<lparr>lc_enabled := True\<rparr>) (demo_dir\<lparr>dir_bind := \<lambda>d p. Bind_ok\<rparr>) (\<lambda>h p. False)
       (anon_rq 5) ''admin'' ''x'' demo_world"
  by (rule local_account_ignores_directory [where u = "demo_user 1 ''admin'' ''admin''"])
    (simp_all add: demo_defs first_row_def)

section \<open>Lockout\<close>

text \<open>The state a run of login attempts under one name leaves.\<close>

definition attempts :: "auth_config \<Rightarrow> ldap_config \<Rightarrow> directory \<Rightarrow> (string \<Rightarrow> string \<Rightarrow> bool) \<Rightarrow> string
    \<Rightarrow> (request_ctx \<times> string) list \<Rightarrow> world \<Rightarrow> world" where
  "attempts cf lc dir check name tries w =
     fold (\<lambda>(rq, pw) w. fst (authenticate cf lc dir check rq name pw w)) tries w"

lemma first_row_put:
  assumes "wf_users t" "first_row (\<lambda>u. u_username u = name) t = Some u" "u_id v = u_id u" "u_username v = u_username u"
  shows "first_row (\<lambda>u. u_username u = name) (put_row u_id v t) = Some v \<and> wf_users (put_row u_id v t)"
proof -
  have u: "u \<in> set t" "u_username u = name" using assms(2) by (auto dest: first_row_SomeD)
  have m: "map u_username (put_row u_id v t) = map u_username t"
    using assms u unfolding put_row_def wf_users_def
    by (auto simp: wf_table_def dest: eq_key_imp_eq_value intro!: map_cong)
      (metis (no_types, lifting) distinct_map inj_onD)
  then have wf: "wf_users (put_row u_id v t)" using assms(1) by (simp add: wf_users_def put_row_wf)
  have "v \<in> set (put_row u_id v t)" using u assms(3) by (auto simp: set_put_row)
  from find_username [OF _ this] wf show ?thesis using u assms(4) by (simp add: wf_users_def)
qed

lemma active_admins_put:
  assumes "wf_users t" "first_row (\<lambda>u. u_username u = name) t = Some u" "u_id v = u_id u"
    "u_role v = u_role u" "u_active v = u_active u"
  shows "length (active_admins (put_row u_id v t)) = length (active_admins t)"
proof -
  have "u \<in> set t" using assms(2) by (auto dest: first_row_SomeD)
  with assms have "map (\<lambda>x. u_role x = ''admin'' \<and> u_active x) (put_row u_id v t) = map (\<lambda>x. u_role x = ''admin'' \<and> u_active x) t"
    unfolding put_row_def wf_users_def
    by (auto simp: wf_table_def intro!: map_cong) (metis (no_types, lifting) distinct_map inj_onD)+
  then have "length (filter id (map (\<lambda>x. u_role x = ''admin'' \<and> u_active x) (put_row u_id v t)))
      = length (filter id (map (\<lambda>x. u_role x = ''admin'' \<and> u_active x) t))" by simp
  then show ?thesis by (simp add: active_admins_def filter_map comp_def)
qed

text \<open>One wrong password for an unlocked local account.\<close>

lemma wrong_password:
  assumes "first_row (\<lambda>u. u_username u = name) (w_users w) = Some u" "u_auth_source u = ''local''"
    "\<not> is_locked (rq_now rq) u" "\<not> check (u_password_hash u) pw" "name \<noteq> []" "pw \<noteq> []"
  shows "authenticate cf lc dir check rq name pw w = (register_failed_attempt cf (rq_now rq) u w, refused None Invalid ''local'')"
  using assms by (simp add: authenticate_def check_password_def)

lemma is_locked_failed [simp]: "is_locked t (u\<lparr>u_failed := n\<rparr>) = is_locked t u"
  by (simp add: is_locked_def)

lemma failures_below_threshold:
  assumes "\<forall>(rq, pw) \<in> set tries. pw \<noteq> [] \<and> \<not> check (u_password_hash u) pw \<and> \<not> is_locked (rq_now rq) u"
    and "int (u_failed u + length tries) < cf_lockout_threshold cf"
    and "wf_users (w_users w)" "first_row (\<lambda>u. u_username u = name) (w_users w) = Some u"
    and "u_auth_source u = ''local''" "name \<noteq> []"
  shows "first_row (\<lambda>u. u_username u = name) (w_users (attempts cf lc dir check name tries w))
      = Some (u\<lparr>u_failed := u_failed u + length tries\<rparr>)
    \<and> wf_users (w_users (attempts cf lc dir check name tries w))
    \<and> length (active_admins (w_users (attempts cf lc dir check name tries w))) = length (active_admins (w_users w))"
  using assms
proof (induction tries arbitrary: w u)
  case Nil
  then show ?case by (simp add: attempts_def)
next
  case (Cons x tries)
  obtain rq pw where x: "x = (rq, pw)" by fastforce
  let ?u = "u\<lparr>u_failed := u_failed u + 1\<rparr>"
  have step: "fst (authenticate cf lc dir check rq name pw w) = put_user ?u w"
    using Cons.prems x wrong_password [of name w u rq check pw cf lc dir]
    by (auto simp: register_failed_attempt_def Let_def)
  have rest: "first_row (\<lambda>u. u_username u = name) (w_users (put_user ?u w)) = Some ?u \<and> wf_users (w_users (put_user ?u w))"
    using first_row_put [of "w_users w" name u ?u] Cons.prems by (simp add: put_user_def)
  have admins: "length (active_admins (w_users (put_user ?u w))) = length (active_admins (w_users w))"
    using active_admins_put [of "w_users w" name u ?u] Cons.prems by (simp add: put_user_def)
  have IH: "first_row (\<lambda>u. u_username u = name) (w_users (attempts cf lc dir check name tries (put_user ?u w)))
      = Some (?u\<lparr>u_failed := u_failed ?u + length tries\<rparr>)
    \<and> wf_users (w_users (attempts cf lc dir check name tries (put_user ?u w)))
    \<and> length (active_admins (w_users (attempts cf lc dir check name tries (put_user ?u w))))
        = length (active_admins (w_users (put_user ?u w)))"
    by (rule Cons.IH) (use Cons.prems rest in auto)
  then show ?case using step x admins by (simp add: attempts_def)
qed

text \<open>C17. Brute force: for an unlocked local account with a clean counter that is not the only active administrator,
  the attempt that makes the number of consecutive wrong passwords equal to the threshold locks the account
  for the configured minutes (and no earlier attempt does); until then every password, the right one
  included, is refused and changes nothing.\<close>

theorem lockout_engages:
  assumes "wf_users (w_users w)" "first_row (\<lambda>u. u_username u = name) (w_users w) = Some u"
    and "u_auth_source u = ''local''" "name \<noteq> []" "u_failed u = 0"
    and "\<not> is_last_active_admin (w_users w) u"
    and "0 < cf_lockout_threshold cf" "int (length tries) + 1 = cf_lockout_threshold cf"
    and "\<forall>(rq, pw) \<in> set (tries @ [(rq', pw')]). pw \<noteq> [] \<and> \<not> check (u_password_hash u) pw \<and> \<not> is_locked (rq_now rq) u"
    and "rq_now rq < rq_now rq' + minutes (cf_lockout_minutes cf)" "pw \<noteq> []"
    and locked: "w' = attempts cf lc dir check name (tries @ [(rq', pw')]) w"
  shows "(\<exists>v. first_row (\<lambda>u. u_username u = name) (w_users w') = Some v
      \<and> u_locked_until v = Some (rq_now rq' + minutes (cf_lockout_minutes cf))
      \<and> authenticate cf lc dir check rq name pw w' = (w', refused (Some v) Locked ''local''))
    \<and> first_row (\<lambda>u. u_username u = name) (w_users (attempts cf lc dir check name tries w))
      = Some (u\<lparr>u_failed := length tries\<rparr>)"
proof -
  let ?w1 = "attempts cf lc dir check name tries w"
  let ?u = "u\<lparr>u_failed := length tries\<rparr>"
  have below: "first_row (\<lambda>u. u_username u = name) (w_users ?w1) = Some ?u" "wf_users (w_users ?w1)"
    "length (active_admins (w_users ?w1)) = length (active_admins (w_users w))"
    using failures_below_threshold [of tries check u cf w name lc dir] assms by auto
  let ?v = "u\<lparr>u_locked_until := Some (rq_now rq' + minutes (cf_lockout_minutes cf)), u_failed := 0\<rparr>"
  have notlast: "\<not> is_last_active_admin (w_users ?w1) (u\<lparr>u_failed := n\<rparr>)" for n
    using assms(6) below(3) by (auto simp: is_last_active_admin_def split: if_splits)
  have "w' = fst (authenticate cf lc dir check rq' name pw' ?w1)"
    unfolding locked by (simp add: attempts_def)
  also have "\<dots> = register_failed_attempt cf (rq_now rq') ?u ?w1"
    using wrong_password [OF below(1)] assms by simp
  also have "\<dots> = put_user ?v ?w1"
    using notlast assms(7,8) by (simp add: register_failed_attempt_def Let_def)
  finally have w': "w' = put_user ?v ?w1" .
  have "first_row (\<lambda>u. u_username u = name) (w_users w') = Some ?v"
    using first_row_put [OF below(2,1), of ?v] by (simp add: w' put_user_def)
  then show ?thesis using assms below(1) by (simp add: authenticate_def is_locked_def)
qed

theorem lockout_engages_witness:
  "\<exists>v. first_row (\<lambda>u. u_username u = ''bob'')
     (w_users (attempts demo_cf demo_lc demo_dir (\<lambda>h p. h = p) ''bob''
        [(anon_rq 1, ''guess''), (anon_rq 2, ''again'')] demo_world)) = Some v
   \<and> u_locked_until v = Some (2 + minutes 15)"
  using lockout_engages [of demo_world "''bob''" "demo_user 2 ''bob'' ''csr_requester''" demo_cf "[(anon_rq 1, ''guess'')]"
      "anon_rq 2" "''again''" "\<lambda>h p. h = p" "anon_rq 5" "''secret''" _ demo_lc demo_dir, OF _ _ _ _ _ _ _ _ _ _ _ refl]
  by (auto simp: demo_defs wf_users_def wf_table_def first_row_def is_last_active_admin_def is_locked_def minutes_def seconds_def)

lemma put_row_get_self:
  "wf_table k t \<Longrightarrow> x \<in> set t \<Longrightarrow> get_row k (k x) (put_row k r t) = Some (if k x = k r then r else x)"
  using get_row_in [of k t x] by (cases "k x = k r") (simp_all add: get_put_same get_put_other)

lemma register_failed_cases:
  "register_failed_attempt cf now u w = w \<or>
   (\<exists>v. register_failed_attempt cf now u w = put_user v w \<and> u_id v = u_id u \<and>
      (u_locked_until v = u_locked_until u \<or> \<not> is_last_active_admin (w_users w) (u\<lparr>u_failed := u_failed u + 1\<rparr>)))"
proof -
  let ?u1 = "u\<lparr>u_failed := u_failed u + 1\<rparr>"
  let ?l = "?u1\<lparr>u_locked_until := Some (now + minutes (cf_lockout_minutes cf)), u_failed := 0\<rparr>"
  consider "cf_lockout_threshold cf \<le> 0" | "0 < cf_lockout_threshold cf" "int (u_failed u + 1) < cf_lockout_threshold cf"
    | "0 < cf_lockout_threshold cf" "cf_lockout_threshold cf \<le> int (u_failed u + 1)" by linarith
  then show ?thesis
  proof cases
    case 2
    then show ?thesis by (intro disjI2 exI [of _ ?u1]) (simp add: register_failed_attempt_def Let_def)
  next
    case 3
    then show ?thesis
      by (cases "is_last_active_admin (w_users w) ?u1")
        (rule disjI2, rule exI [of _ "?u1\<lparr>u_failed := 0\<rparr>"], simp add: register_failed_attempt_def Let_def,
         rule disjI2, rule exI [of _ ?l], simp add: register_failed_attempt_def Let_def)
  qed (simp add: register_failed_attempt_def)
qed

text \<open>C18. The only active administrator is never locked out: no login attempt, under any name and whatever the
  password, gives that account a lock, so a stranger cannot lock everybody out of the application.\<close>

theorem sole_admin_never_locked:
  assumes "wf_users (w_users w)" "get_row u_id i (w_users w) = Some a" "u_role a = ''admin''" "u_active a"
    and "is_last_active_admin (w_users w) a" "u_locked_until a = None"
    and "get_row u_id i (w_users (fst (authenticate cf lc dir check rq name pw w))) = Some b"
  shows "u_locked_until b = None"
proof -
  have wf: "wf_table u_id (w_users w)" using assms(1) by (simp add: wf_users_def)
  note a = get_row_Some [OF assms(2)]
  have after_put: "u_locked_until x = None"
    if "get_row u_id i (w_users (put_user v w)) = Some x" "u_id v = i \<longrightarrow> u_locked_until v = None" for v x
    using that assms(2,6) wf put_row_get_self [OF wf, of a v] a by (auto simp: put_user_def split: if_splits)
  have same: "u_locked_until x = None" if "get_row u_id i (w_users w) = Some x" for x
    using that assms(2,6) by simp
  have uniq: "u = a" if "u \<in> set (w_users w)" "u_id u = i" for u
    using that a wf by (metis assms(2) get_row_in option.inject)
  have failed: "u_locked_until x = None"
    if "get_row u_id i (w_users (register_failed_attempt cf (rq_now rq) u w)) = Some x" "u \<in> set (w_users w)" for u x
  proof -
    have last: "is_last_active_admin (w_users w) (a\<lparr>u_failed := n\<rparr>)" for n
      using assms(5) by (simp add: is_last_active_admin_def)
    consider (id) "register_failed_attempt cf (rq_now rq) u w = w"
      | (put) v where "register_failed_attempt cf (rq_now rq) u w = put_user v w" "u_id v = u_id u"
          "u_locked_until v = u_locked_until u \<or> \<not> is_last_active_admin (w_users w) (u\<lparr>u_failed := u_failed u + 1\<rparr>)"
      using register_failed_cases [of cf "rq_now rq" u w] by blast
    then show ?thesis
    proof cases
      case id
      with that(1) same show ?thesis by simp
    next
      case (put v)
      have "u_id v = i \<longrightarrow> u_locked_until v = None"
        using put uniq [OF that(2)] last assms(6) by auto
      with put(1) that(1) after_put [of v x] show ?thesis by simp
    qed
  qed
  have ldap: "u_locked_until x = None"
    if "get_row u_id i (w_users (fst (finish_ldap rq lc dir name pw ex w))) = Some x"
       "\<And>u. ex = Some u \<Longrightarrow> u \<in> set (w_users w)" for ex x
  proof (cases "w_users (fst (finish_ldap rq lc dir name pw ex w)) = w_users w")
    case True
    with that same show ?thesis by simp
  next
    case False
    show ?thesis
    proof (cases ex)
      case None
      obtain n where n: "w_users (fst (finish_ldap rq lc dir name pw ex w)) = w_users w @ [n]" "u_locked_until n = None"
        using False None by (auto simp: finish_ldap_def provision_user_def new_user_def Let_def
            split: ldap_outcome.splits option.splits if_splits)
      with that(1) have "x \<in> set (w_users w) \<and> u_id x = i \<or> x = n" by (auto dest: get_row_Some)
      with uniq assms(6) n show ?thesis by auto
    next
      case (Some u)
      with that(2) have u: "u \<in> set (w_users w)" by simp
      obtain role where "w_users (fst (finish_ldap rq lc dir name pw ex w)) = w_users (put_user (u\<lparr>u_role := role\<rparr>) w)"
        using False Some by (auto simp: finish_ldap_def sync_role_def Let_def
            split: ldap_outcome.splits option.splits if_splits)
      with that(1) after_put [of "u\<lparr>u_role := role\<rparr>" x] uniq [OF u] assms(6) show ?thesis by auto
    qed
  qed
  show ?thesis
  proof (cases "first_row (\<lambda>u. u_username u = name) (w_users w)")
    case None
    with assms(7) ldap [of None b] same show ?thesis by (auto simp: authenticate_def split: if_splits)
  next
    case (Some u)
    then have u: "u \<in> set (w_users w)" by (auto dest: first_row_SomeD)
    have "u_id (reset_lockout u) = i \<longrightarrow> u_locked_until (reset_lockout u) = None"
      using uniq [OF u] assms(6) by (auto simp: reset_lockout_def clear_lockout_def)
    with assms(7) Some u ldap [of "Some u" b] same failed [of u b] after_put [of "reset_lockout u" b] show ?thesis
      by (auto simp: authenticate_def split: if_splits)
  qed
qed

theorem sole_admin_never_locked_witness:
  "u_locked_until (demo_user 1 ''admin'' ''admin'') = None"
proof -
  have "get_row u_id 1 (w_users (fst (authenticate demo_cf demo_lc demo_dir (\<lambda>h p. h = p) (anon_rq 3) ''admin'' ''x'' demo_world)))
      = Some (demo_user 1 ''admin'' ''admin''\<lparr>u_failed := 1\<rparr>)"
    by (simp add: demo_defs authenticate_def first_row_def is_locked_def check_password_def UNUSABLE_PASSWORD_def
        register_failed_attempt_def put_user_def put_row_def get_row_def)
  from sole_admin_never_locked [OF _ _ _ _ _ _ this, of "demo_user 1 ''admin'' ''admin''"] show ?thesis
    by (simp add: demo_defs wf_users_def wf_table_def get_row_def is_last_active_admin_def active_admins_def)
qed

end
