(* ===== verification/Totp.thy ===== *)
theory Totp
  imports Auth "HOL-Library.Word"
begin

unbundle bit_operations_syntax

text \<open>
  The second factor and the interactive login: \<open>app/services/totp_service.py\<close> and
  the login, second-factor and password-change routes of \<open>app/routes/auth.py\<close>.
  \<open>hm secret message\<close> is HMAC-SHA1 under the key the base32 text \<open>secret\<close> denotes;
  \<open>check\<close> is werkzeug's \<open>check_password_hash\<close>. Unix time is in whole seconds.
\<close>

section \<open>RFC 4226 and RFC 6238\<close>

type_synonym bytes = "8 word list"

definition STEP_SECONDS :: int where "STEP_SECONDS = 30"
definition DIGITS :: nat where "DIGITS = 6"
definition WINDOW :: int where "WINDOW = 1"

text \<open>\<open>struct.pack(">Q", counter)\<close>.\<close>

definition pack_u64 :: "int \<Rightarrow> bytes" where
  "pack_u64 n = map (\<lambda>i. word_of_int (n div 256 ^ i)) [7, 6, 5, 4, 3, 2, 1, 0]"

text \<open>\<open>struct.unpack(">I", b)[0]\<close> of the four bytes at \<open>off\<close>.\<close>

definition unpack_u32 :: "bytes \<Rightarrow> nat \<Rightarrow> 32 word" where
  "unpack_u32 d off =
     (push_bit 24 (ucast (d ! off)) OR push_bit 16 (ucast (d ! (off + 1)))
      OR push_bit 8 (ucast (d ! (off + 2))) OR ucast (d ! (off + 3)))"

definition hotp :: "(string \<Rightarrow> bytes \<Rightarrow> bytes) \<Rightarrow> string \<Rightarrow> int \<Rightarrow> string" where
  "hotp hm secret counter =
     (let digest = hm secret (pack_u64 counter);
          offset = unat (last digest AND 0x0F);
          n = unat (unpack_u32 digest offset AND 0x7FFFFFFF)
      in zpad DIGITS (n mod 10 ^ DIGITS))"

definition current_step :: "int \<Rightarrow> int" where
  "current_step now = now div STEP_SECONDS"

definition clean_code :: "string \<Rightarrow> string" where
  "clean_code c = filter (\<lambda>x. x \<noteq> CHR '' '') (strip_str c)"

definition totp_verify :: "(string \<Rightarrow> bytes \<Rightarrow> bytes) \<Rightarrow> string \<Rightarrow> string \<Rightarrow> int option \<Rightarrow> int \<Rightarrow> int option" where
  "totp_verify hm secret code last_step now =
     (let c = clean_code code; step = current_step now
      in if c = [] \<or> \<not> list_all is_digit c \<or> length c \<noteq> DIGITS then None
         else find (\<lambda>k. \<not> (case last_step of None \<Rightarrow> False | Some l \<Rightarrow> k \<le> l) \<and> hotp hm secret k = c)
                   [step - WINDOW..step + WINDOW])"

section \<open>Recovery codes\<close>

definition normalise_recovery_code :: "string \<Rightarrow> string option" where
  "normalise_recovery_code code =
     (let raw = filter (\<lambda>x. x \<noteq> CHR ''-'' \<and> x \<noteq> CHR '' '') (upper_str (strip_str code))
      in if length raw = 10 then Some (take 5 raw @ ''-'' @ drop 5 raw) else None)"

text \<open>The loop of \<open>consume_recovery_code\<close>: the first matching hash is removed.\<close>

fun remove_match :: "(string \<Rightarrow> string \<Rightarrow> bool) \<Rightarrow> string \<Rightarrow> string list \<Rightarrow> string list option" where
  "remove_match check c [] = None"
| "remove_match check c (h # hs) = (if check h c then Some hs else map_option ((#) h) (remove_match check c hs))"

definition consume_recovery_code :: "(string \<Rightarrow> string \<Rightarrow> bool) \<Rightarrow> string list \<Rightarrow> string \<Rightarrow> string list \<times> bool" where
  "consume_recovery_code check hashes code =
     (case normalise_recovery_code code of
        None \<Rightarrow> (hashes, False)
      | Some c \<Rightarrow> (case remove_match check c hashes of Some rest \<Rightarrow> (rest, True) | None \<Rightarrow> (hashes, False)))"

section \<open>Enforcement\<close>

definition enforcement_mode :: "string \<Rightarrow> bool \<Rightarrow> string" where
  "enforcement_mode require_2fa for_admins =
     (let mode = lower_str (if require_2fa = [] then ''off'' else require_2fa)
      in if mode = ''off'' \<and> for_admins then ''admins'' else mode)"

definition enforced_for :: "string \<Rightarrow> bool \<Rightarrow> user \<Rightarrow> bool" where
  "enforced_for require_2fa for_admins u =
     (let mode = enforcement_mode require_2fa for_admins
      in if mode = ''all'' then True else if mode = ''admins'' then is_admin u else False)"

section \<open>The login routes\<close>

text \<open>The browser session: the signed-in user with the version stamp, and the half-finished login.\<close>

record pre_2fa =
  pf_uid :: nat
  pf_exp :: int
  pf_method :: string

record session_state =
  ss_user :: "nat option"
  ss_sv :: "nat option"
  ss_pre_2fa :: "pre_2fa option"

definition PRE_2FA_TTL_SECONDS :: int where "PRE_2FA_TTL_SECONDS = 300"

definition finish_login :: "request_ctx \<Rightarrow> user \<Rightarrow> string \<Rightarrow> string option \<Rightarrow> session_state \<Rightarrow> world \<Rightarrow> session_state \<times> world" where
  "finish_login rq u method second ss w =
     (ss\<lparr>ss_user := Some (u_id u), ss_sv := Some (u_session_version u), ss_pre_2fa := None\<rparr>,
      w\<lparr>w_log := log_action (rq\<lparr>rq_user := Some (u_id u, u_username u)\<rparr>) None ''login_success'' (Some ''user'')
          (Some (u_id u))
          (Some (JObj ((''auth_method'', JStr method) #
             (case second of None \<Rightarrow> [] | Some s \<Rightarrow> [(''second_factor'', JStr s)])))) (w_log w)\<rparr>)"

definition reason_text :: "auth_reason \<Rightarrow> string" where
  "reason_text r =
     (case r of
        Invalid \<Rightarrow> ''invalid_credentials'' | Deactivated \<Rightarrow> ''account_deactivated''
      | Pending_approval \<Rightarrow> ''account_pending'' | Ldap_unreachable \<Rightarrow> ''ldap_unreachable''
      | Ldap_no_role \<Rightarrow> ''ldap_no_role'' | Locked \<Rightarrow> ''account_locked'')"

datatype login_outcome = Logged_in | Second_factor_needed | Login_refused auth_reason

definition login :: "auth_config \<Rightarrow> ldap_config \<Rightarrow> directory \<Rightarrow> (string \<Rightarrow> string \<Rightarrow> bool) \<Rightarrow> int \<Rightarrow> request_ctx
    \<Rightarrow> string \<Rightarrow> string \<Rightarrow> session_state \<Rightarrow> world \<Rightarrow> (session_state \<times> world) \<times> login_outcome" where
  "login cf lc dir check unix rq form_name pw ss w =
     (let name = strip_str form_name; (w1, r) = authenticate cf lc dir check rq name pw w
      in case (au_reason r, au_user r) of
           (None, Some u) \<Rightarrow>
             if u_totp_enabled u then
               ((ss\<lparr>ss_pre_2fa := Some \<lparr>pf_uid = u_id u, pf_exp = unix + PRE_2FA_TTL_SECONDS, pf_method = au_method r\<rparr>\<rparr>, w1),
                Second_factor_needed)
             else (finish_login rq u (au_method r) None ss w1, Logged_in)
         | (reason, ou) \<Rightarrow>
             let why = (case reason of Some x \<Rightarrow> x | None \<Rightarrow> Invalid)
             in ((ss, w1\<lparr>w_log := log_action rq None ''login_failure'' (Some ''user'') (map_option u_id ou)
                   (Some (JObj [(''reason'', JStr (reason_text why)),
                      (''attempted_username'', JStr (sanitize_username_for_log (\<lambda>x. \<exists>u \<in> set (w_users w1). u_username u = x) name)),
                      (''auth_method'', JStr (au_method r))])) (w_log w1)\<rparr>),
                 Login_refused why))"

text \<open>\<open>_pre_2fa_user\<close>: the user of a half-finished login that has not expired.\<close>

definition pre_2fa_user :: "int \<Rightarrow> session_state \<Rightarrow> world \<Rightarrow> (user \<times> pre_2fa) option" where
  "pre_2fa_user unix ss w =
     (case ss_pre_2fa ss of
        None \<Rightarrow> None
      | Some p \<Rightarrow>
          if pf_exp p < unix then None
          else (case get_row u_id (pf_uid p) (w_users w) of
                  None \<Rightarrow> None
                | Some u \<Rightarrow> if \<not> u_active u \<or> \<not> u_totp_enabled u then None else Some (u, p)))"

text \<open>\<open>_check_second_factor\<close>: the user row with the replay or consumption state, and what was accepted.\<close>

definition check_second_factor :: "(string \<Rightarrow> bytes \<Rightarrow> bytes) \<Rightarrow> (string \<Rightarrow> string \<Rightarrow> bool) \<Rightarrow> int \<Rightarrow> string \<Rightarrow> user
    \<Rightarrow> user \<times> string option" where
  "check_second_factor hm check unix code u =
     (case totp_verify hm (or_empty (u_totp_secret u)) code (u_totp_last_step u) unix of
        Some step \<Rightarrow> (u\<lparr>u_totp_last_step := Some step\<rparr>, Some ''totp'')
      | None \<Rightarrow>
          (let (rest, ok) = consume_recovery_code check (u_recovery u) code
           in if ok then (u\<lparr>u_recovery := rest\<rparr>, Some ''recovery'') else (u, None)))"

datatype second_outcome = Login_again | Wait_locked | Code_refused | Second_accepted string

definition two_factor :: "(string \<Rightarrow> bytes \<Rightarrow> bytes) \<Rightarrow> (string \<Rightarrow> string \<Rightarrow> bool) \<Rightarrow> auth_config \<Rightarrow> int \<Rightarrow> request_ctx
    \<Rightarrow> string \<Rightarrow> session_state \<Rightarrow> world \<Rightarrow> (session_state \<times> world) \<times> second_outcome" where
  "two_factor hm check cf unix rq code ss w =
     (case pre_2fa_user unix ss w of
        None \<Rightarrow> ((ss\<lparr>ss_pre_2fa := None\<rparr>, w), Login_again)
      | Some (u, p) \<Rightarrow>
          if is_locked (rq_now rq) u then ((ss, w), Wait_locked)
          else
            (case check_second_factor hm check unix code u of
               (_, None) \<Rightarrow>
                 let w1 = register_failed_attempt cf (rq_now rq) u w
                 in ((ss, w1\<lparr>w_log := log_action rq None ''login_2fa_failed'' (Some ''user'') (Some (u_id u))
                       (Some (JObj [(''username'', JStr (u_username u))])) (w_log w1)\<rparr>), Code_refused)
             | (u1, Some kind) \<Rightarrow>
                 (let u2 = clear_lockout u1
                  in (finish_login rq u2 (pf_method p) (Some kind) ss (put_user u2 w), Second_accepted kind))))"

text \<open>\<open>change_password\<close> for the signed-in user \<open>u\<close>; \<open>hash\<close> is werkzeug's \<open>generate_password_hash\<close>.\<close>

datatype change_outcome = Directory_managed | Current_wrong | Too_short | No_match | Not_different | Changed

definition change_password :: "(string \<Rightarrow> string) \<Rightarrow> (string \<Rightarrow> string \<Rightarrow> bool) \<Rightarrow> auth_config \<Rightarrow> request_ctx \<Rightarrow> user
    \<Rightarrow> string \<Rightarrow> string \<Rightarrow> string \<Rightarrow> session_state \<Rightarrow> world \<Rightarrow> (session_state \<times> world) \<times> change_outcome" where
  "change_password hash check cf rq u cur new confirm ss w =
     (if u_password_hash u = UNUSABLE_PASSWORD then ((ss, w), Directory_managed)
      else if \<not> check_password check u cur then ((ss, w), Current_wrong)
      else if int (length new) < cf_min_password cf then ((ss, w), Too_short)
      else if new \<noteq> confirm then ((ss, w), No_match)
      else if new = cur then ((ss, w), Not_different)
      else
        let (u1, w1) = bump_session_version (u\<lparr>u_password_hash := hash new, u_must_change := False\<rparr>) w;
            w2 = put_user u1 w1
        in ((ss\<lparr>ss_sv := Some (u_session_version u1)\<rparr>,
             w2\<lparr>w_log := log_action rq None ''change_password'' (Some ''user'') (Some (u_id u)) None (w_log w2)\<rparr>),
            Changed))"

definition clear_totp :: "user \<Rightarrow> user" where
  "clear_totp u = u\<lparr>u_totp_secret := None, u_totp_enabled := False, u_totp_confirmed_at := None,
     u_totp_last_step := None, u_recovery := []\<rparr>"

datatype disable_outcome = Not_enrolled | Required_here | Password_wrong | Code_wrong | Disabled

definition two_factor_disable :: "(string \<Rightarrow> bytes \<Rightarrow> bytes) \<Rightarrow> (string \<Rightarrow> string \<Rightarrow> bool) \<Rightarrow> string \<Rightarrow> bool \<Rightarrow> int \<Rightarrow> request_ctx
    \<Rightarrow> user \<Rightarrow> string \<Rightarrow> string \<Rightarrow> session_state \<Rightarrow> world \<Rightarrow> (session_state \<times> world) \<times> disable_outcome" where
  "two_factor_disable hm check require_2fa for_admins unix rq u pw code ss w =
     (if \<not> u_totp_enabled u then ((ss, w), Not_enrolled)
      else if enforced_for require_2fa for_admins u then ((ss, w), Required_here)
      else if u_password_hash u \<noteq> UNUSABLE_PASSWORD \<and> \<not> check_password check u pw then ((ss, w), Password_wrong)
      else
        (case check_second_factor hm check unix code u of
           (_, None) \<Rightarrow> ((ss, w), Code_wrong)
         | (u1, Some _) \<Rightarrow>
             let (u2, w1) = bump_session_version (clear_totp u1) w; w2 = put_user u2 w1
             in ((ss\<lparr>ss_sv := Some (u_session_version u2)\<rparr>,
                  w2\<lparr>w_log := log_action rq None ''totp_disabled'' (Some ''user'') (Some (u_id u)) None (w_log w2)\<rparr>),
                 Disabled)))"

end
