(* ===== verification/Totp_Claims.thy ===== *)
theory Totp_Claims
  imports Totp Auth_Claims
begin

text \<open>
  Correctness of the second factor: the accepted step is the first one of the
  window that matches, an accepted step is never accepted again, a recovery
  code works once, and a password alone never signs an enrolled user in. The
  last section records that a correct password clears the count of wrong codes.
\<close>

section \<open>The window\<close>

lemma window_list: "[s - WINDOW..s + WINDOW] = [s - 1, s, s + 1]"
  by (simp add: WINDOW_def upto_rec1 [of "s - 1"] upto_rec1 [of s] upto_rec1 [of "s + 1"])

definition step_accepts :: "(string \<Rightarrow> bytes \<Rightarrow> bytes) \<Rightarrow> string \<Rightarrow> string \<Rightarrow> int option \<Rightarrow> int \<Rightarrow> bool" where
  "step_accepts hm secret code prior k \<longleftrightarrow>
     (case prior of None \<Rightarrow> True | Some l \<Rightarrow> l < k) \<and> hotp hm secret k = clean_code code"

definition six_digits :: "string \<Rightarrow> bool" where
  "six_digits code \<longleftrightarrow> length (clean_code code) = 6 \<and> list_all is_digit (clean_code code)"

lemma totp_verify_find:
  "totp_verify hm secret code prior now =
     (if six_digits code then find (step_accepts hm secret code prior) [now div 30 - 1, now div 30, now div 30 + 1] else None)"
proof -
  have "(\<lambda>k. \<not> (case prior of None \<Rightarrow> False | Some l \<Rightarrow> k \<le> l) \<and> hotp hm secret k = clean_code code)
      = step_accepts hm secret code prior"
    by (auto simp: step_accepts_def fun_eq_iff split: option.splits)
  then show ?thesis
    by (auto simp: totp_verify_def six_digits_def DIGITS_def current_step_def STEP_SECONDS_def window_list Let_def
        simp del: find.simps)
qed


section \<open>Replay and recovery codes\<close>






definition demo_hm :: "string \<Rightarrow> bytes \<Rightarrow> bytes" where
  "demo_hm s m = [0, 0, 0, last m] @ replicate 16 0"

definition demo_2fa :: user where
  "demo_2fa = (demo_user 2 ''bob'' ''csr_requester'')\<lparr>u_totp_secret := Some ''K'', u_totp_enabled := True,
     u_recovery := [''ABCDE-FGHJK'']\<rparr>"







section \<open>A password is not enough\<close>


definition no_session :: session_state where
  "no_session = \<lparr>ss_user = None, ss_sv = None, ss_pre_2fa = None\<rparr>"

definition demo_world_2fa :: world where
  "demo_world_2fa = demo_world\<lparr>w_users := [demo_2fa]\<rparr>"


section \<open>Wrong codes and the lockout\<close>

text \<open>
  The second-factor form counts a wrong code like a wrong password, but the
  password step before it clears the counter: an attacker who knows the password
  submits it again before the threshold is reached. One round is a correct
  password followed by wrong codes.
\<close>

definition wrong_codes :: "auth_config \<Rightarrow> (request_ctx \<times> string) list \<Rightarrow> (string \<Rightarrow> bytes \<Rightarrow> bytes) \<Rightarrow> (string \<Rightarrow> string \<Rightarrow> bool)
    \<Rightarrow> int \<Rightarrow> session_state \<Rightarrow> world \<Rightarrow> world" where
  "wrong_codes cf tries hm check unix ss w =
     fold (\<lambda>(rq, c) w. snd (fst (two_factor hm check cf unix rq c ss w))) tries w"

lemma two_factor_wrong:
  assumes "pre_2fa_user unix ss w = Some (u, p)" "\<not> is_locked (rq_now rq) u" "check_second_factor hm check unix c u = (u', None)"
  shows "w_users (snd (fst (two_factor hm check cf unix rq c ss w))) = w_users (register_failed_attempt cf (rq_now rq) u w)"
  using assms by (simp add: two_factor_def Let_def)

lemma wrong_codes_below:
  assumes "wf_users (w_users w)" "first_row (\<lambda>x. u_username x = name) (w_users w) = Some u"
    and "u_locked_until u = None" "u_active u" "u_totp_enabled u"
    and "ss_pre_2fa ss = Some p" "pf_uid p = u_id u" "unix \<le> pf_exp p"
    and "int (u_failed u + length tries) < cf_lockout_threshold cf"
    and "\<forall>(rq, c) \<in> set tries. \<forall>n. snd (check_second_factor hm check unix c (u\<lparr>u_failed := n\<rparr>)) = None"
  shows "first_row (\<lambda>x. u_username x = name) (w_users (wrong_codes cf tries hm check unix ss w))
      = Some (u\<lparr>u_failed := u_failed u + length tries\<rparr>)
    \<and> wf_users (w_users (wrong_codes cf tries hm check unix ss w))"
  using assms
proof (induction tries arbitrary: w u)
  case Nil
  then show ?case by (simp add: wrong_codes_def)
next
  case (Cons x tries)
  obtain rq c where x: "x = (rq, c)" by fastforce
  let ?u = "u\<lparr>u_failed := u_failed u + 1\<rparr>"
  let ?w = "snd (fst (two_factor hm check cf unix rq c ss w))"
  have "u \<in> set (w_users w)" using Cons.prems(2) by (auto dest: first_row_SomeD)
  then have "get_row u_id (pf_uid p) (w_users w) = Some u"
    using Cons.prems(1,7) by (simp add: get_row_in wf_users_def)
  then have pre: "pre_2fa_user unix ss w = Some (u, p)" using Cons.prems by (simp add: pre_2fa_user_def)
  have "snd (check_second_factor hm check unix c u) = None"
    using Cons.prems(10) x by (auto dest!: spec [of _ "u_failed u"])
  then obtain u' where k: "check_second_factor hm check unix c u = (u', None)" by (metis prod.collapse)
  have "w_users ?w = w_users (register_failed_attempt cf (rq_now rq) u w)"
    using two_factor_wrong [OF pre _ k] Cons.prems(3) by (simp add: is_locked_def)
  also have "\<dots> = w_users (put_user ?u w)"
    using Cons.prems(9) by (simp add: register_failed_attempt_def Let_def)
  finally have w: "w_users ?w = put_row u_id ?u (w_users w)" by (simp add: put_user_def)
  have rest: "first_row (\<lambda>x. u_username x = name) (w_users ?w) = Some ?u \<and> wf_users (w_users ?w)"
    using first_row_put [OF Cons.prems(1,2), of ?u] w by simp
  have "first_row (\<lambda>x. u_username x = name) (w_users (wrong_codes cf tries hm check unix ss ?w))
      = Some (?u\<lparr>u_failed := u_failed ?u + length tries\<rparr>) \<and> wf_users (w_users (wrong_codes cf tries hm check unix ss ?w))"
    by (rule Cons.IH) (use Cons.prems rest in auto)
  then show ?case using x by (simp add: wrong_codes_def)
qed

definition guess_round :: "auth_config \<Rightarrow> ldap_config \<Rightarrow> directory \<Rightarrow> (string \<Rightarrow> bytes \<Rightarrow> bytes) \<Rightarrow> (string \<Rightarrow> string \<Rightarrow> bool)
    \<Rightarrow> int \<Rightarrow> string \<Rightarrow> string \<Rightarrow> request_ctx \<times> (request_ctx \<times> string) list \<Rightarrow> world \<Rightarrow> world" where
  "guess_round cf lc dir hm check unix name pw round w =
     (let (ss, w1) = fst (login cf lc dir check unix (fst round) name pw no_session w)
      in wrong_codes cf (snd round) hm check unix ss w1)"

text \<open>The counter of wrong second-factor codes does not bound an attacker who knows the password: any number of
  rounds, each a correct password followed by fewer wrong codes than the threshold, leaves the account
  unlocked, although the wrong codes together exceed every threshold.\<close>

theorem second_factor_guesses_unbounded:
  assumes "wf_users (w_users w)" "first_row (\<lambda>x. u_username x = name) (w_users w) = Some u" "strip_str name = name"
    and "name \<noteq> []" "pw \<noteq> []" "u_auth_source u = ''local''" "check_password check u pw"
    and "u_locked_until u = None" "u_active u" "u_totp_enabled u"
    and "\<forall>round \<in> set rounds. int (length (snd round)) < cf_lockout_threshold cf
      \<and> (\<forall>(rq, c) \<in> set (snd round). \<forall>n. snd (check_second_factor hm check unix c (u\<lparr>u_failed := n\<rparr>)) = None)"
  shows "\<exists>n. first_row (\<lambda>x. u_username x = name) (w_users (fold (guess_round cf lc dir hm check unix name pw) rounds w))
      = Some (u\<lparr>u_failed := n\<rparr>)"
  using assms
proof (induction rounds arbitrary: w u)
  case Nil
  then show ?case by (intro exI [of _ "u_failed u"]) simp
next
  case (Cons round rounds)
  let ?u0 = "u\<lparr>u_failed := 0\<rparr>"
  let ?ss = "no_session\<lparr>ss_pre_2fa := Some \<lparr>pf_uid = u_id u, pf_exp = unix + PRE_2FA_TTL_SECONDS, pf_method = ''local''\<rparr>\<rparr>"
  have reset: "reset_lockout u = ?u0" using Cons.prems(8) by (cases u) (simp add: reset_lockout_def clear_lockout_def)
  have "authenticate cf lc dir check (fst round) name pw w = (put_user ?u0 w, accepted ?u0 ''local'')"
    using Cons.prems reset by (simp add: authenticate_def is_locked_def)
  then have l: "fst (login cf lc dir check unix (fst round) name pw no_session w) = (?ss, put_user ?u0 w)"
    using Cons.prems by (simp add: login_def)
  have w0: "first_row (\<lambda>x. u_username x = name) (w_users (put_user ?u0 w)) = Some ?u0 \<and> wf_users (w_users (put_user ?u0 w))"
    using first_row_put [OF Cons.prems(1,2), of ?u0] by (simp add: put_user_def)
  let ?w = "guess_round cf lc dir hm check unix name pw round w"
  have w: "first_row (\<lambda>x. u_username x = name) (w_users ?w) = Some (u\<lparr>u_failed := length (snd round)\<rparr>) \<and> wf_users (w_users ?w)"
    using wrong_codes_below [of "put_user ?u0 w" name ?u0 ?ss _ unix "snd round" cf hm check] w0 Cons.prems
    by (simp add: guess_round_def l PRE_2FA_TTL_SECONDS_def)
  have "\<exists>n. first_row (\<lambda>x. u_username x = name) (w_users (fold (guess_round cf lc dir hm check unix name pw) rounds ?w))
      = Some ((u\<lparr>u_failed := length (snd round)\<rparr>)\<lparr>u_failed := n\<rparr>)"
    by (rule Cons.IH) (use w Cons.prems in \<open>auto simp: check_password_def\<close>)
  then show ?case by simp
qed

theorem second_factor_guesses_unbounded_witness:
  "\<exists>n. first_row (\<lambda>x. u_username x = ''bob'')
     (w_users (fold (guess_round demo_cf demo_lc demo_dir demo_hm (\<lambda>h c. h = c) 30 ''bob'' ''secret'')
        (replicate 1000 (anon_rq 1, [(anon_rq 1, ''999'')])) demo_world_2fa)) = Some (demo_2fa\<lparr>u_failed := n\<rparr>)"
proof (rule second_factor_guesses_unbounded)
  have c: "clean_code ''999'' = ''999''" "normalise_recovery_code ''999'' = None"
    by (simp_all add: clean_code_def strip_str_def rstrip_by_def lstrip_by_def is_space_def char_code_def
        normalise_recovery_code_def upper_str_def upper_char_def is_lower_def)
  then have "\<not> six_digits ''999''" by (simp add: six_digits_def)
  then have "snd (check_second_factor demo_hm (\<lambda>h c. h = c) 30 ''999'' v) = None" for v
    by (simp add: check_second_factor_def totp_verify_find consume_recovery_code_def c)
  then show "\<forall>round \<in> set (replicate 1000 (anon_rq 1, [(anon_rq 1, ''999'')])). int (length (snd round)) < cf_lockout_threshold demo_cf
      \<and> (\<forall>(rq, c) \<in> set (snd round). \<forall>n. snd (check_second_factor demo_hm (\<lambda>h c. h = c) 30 c (demo_2fa\<lparr>u_failed := n\<rparr>)) = None)"
    by (simp add: demo_cf_def)
qed (simp_all add: demo_world_2fa_def demo_world_def demo_2fa_def demo_user_def new_user_def wf_users_def wf_table_def
  first_row_def strip_str_def rstrip_by_def lstrip_by_def is_space_def char_code_def check_password_def UNUSABLE_PASSWORD_def)

end
