(* ===== verification/UserAdmin.thy ===== *)
theory UserAdmin
  imports Auth
begin

text \<open>
  Dual control (\<open>app/services/dual_control_service.py\<close>), the account handlers of
  \<open>app/routes/users.py\<close> and the account commands of \<open>app/cli.py\<close>. A handler maps
  the state to the state it commits and to its outcome: \<open>Inl\<close> the reason it
  refused (each flash or error response of the code), \<open>Inr\<close> what it did.
\<close>

section \<open>Dual control\<close>

definition is_exempt :: "auth_config \<Rightarrow> user \<Rightarrow> bool" where
  "is_exempt cf u \<longleftrightarrow> u_username u = cf_admin_username cf"

definition dc_is_active :: "auth_config \<Rightarrow> ldap_config \<Rightarrow> user list \<Rightarrow> bool" where
  "dc_is_active cf lc t \<longleftrightarrow>
     cf_dual_control cf \<and> (list_ex (\<lambda>u. u_active u \<and> u_username u \<noteq> cf_admin_username cf) t \<or> lc_enabled lc)"

definition since_cutoff :: "time \<Rightarrow> time option \<Rightarrow> bool" where
  "since_cutoff cutoff t = (case t of None \<Rightarrow> False | Some x \<Rightarrow> cutoff \<le> x)"

definition can_approve :: "auth_config \<Rightarrow> time \<Rightarrow> user option \<Rightarrow> nat option \<Rightarrow> bool" where
  "can_approve cf now approver creator =
     (case approver of
        None \<Rightarrow> False
      | Some a \<Rightarrow>
          if is_exempt cf a then True
          else case creator of
            None \<Rightarrow> True
          | Some c \<Rightarrow>
              if u_id a = c then False
              else if cf_cooldown_hours cf \<le> 0 then True
              else
                let cutoff = now - hours (cf_cooldown_hours cf)
                in if u_created_by a = Some c \<and> since_cutoff cutoff (u_created_at a) then False
                   else if u_reset_by a = Some c \<and> since_cutoff cutoff (u_reset_at a) then False
                   else True)"

datatype refusal = Same_admin | Cooling_down

definition refuse_reason :: "auth_config \<Rightarrow> time \<Rightarrow> user \<Rightarrow> nat option \<Rightarrow> refusal option" where
  "refuse_reason cf now a creator =
     (if can_approve cf now (Some a) creator then None
      else if Some (u_id a) = creator then Some Same_admin
      else Some Cooling_down)"

section \<open>Outcomes\<close>

datatype users_error =
    Not_logged_in | Not_admin | User_not_found | Fields_required | Invalid_role | Username_exists
  | Password_too_short | Last_admin_demotion | Own_account | Awaits_approval | Last_admin_deactivation
  | Ldap_managed | Bootstrap_not_reset | Password_required | Not_awaiting | Refused refusal

datatype users_done =
    User_created nat bool | Promotion_requested | Role_updated | Toggled bool | Password_reset bool
  | User_approved bool "string option"

definition log_user :: "request_ctx \<Rightarrow> string option \<Rightarrow> string \<Rightarrow> nat \<Rightarrow> json option \<Rightarrow> world \<Rightarrow> world" where
  "log_user rq actor action i details w =
     w\<lparr>w_log := log_action rq actor action (Some ''user'') (Some i) details (w_log w)\<rparr>"

text \<open>\<open>admin_required\<close>: the row of the session's user, when it is active (flask-login) and an administrator.\<close>

definition admin_required :: "request_ctx \<Rightarrow> (user \<Rightarrow> world \<Rightarrow> world \<times> (users_error + users_done)) \<Rightarrow> world
    \<Rightarrow> world \<times> (users_error + users_done)" where
  "admin_required rq f w =
     (case rq_user rq of
        None \<Rightarrow> (w, Inl Not_logged_in)
      | Some (i, _) \<Rightarrow>
          (case get_row u_id i (w_users w) of
             None \<Rightarrow> (w, Inl Not_logged_in)
           | Some a \<Rightarrow> if \<not> u_active a then (w, Inl Not_logged_in)
                       else if \<not> is_admin a then (w, Inl Not_admin)
                       else f a w))"

definition gated :: "auth_config \<Rightarrow> ldap_config \<Rightarrow> user \<Rightarrow> world \<Rightarrow> bool" where
  "gated cf lc actor w \<longleftrightarrow> dc_is_active cf lc (w_users w) \<and> \<not> is_exempt cf actor"

section \<open>Handlers\<close>

definition create_user :: "auth_config \<Rightarrow> ldap_config \<Rightarrow> (string \<Rightarrow> string) \<Rightarrow> request_ctx \<Rightarrow> string \<Rightarrow> string \<Rightarrow> string
    \<Rightarrow> world \<Rightarrow> world \<times> (users_error + users_done)" where
  "create_user cf lc hash rq form_name pw role = admin_required rq (\<lambda>me w.
     let name = strip_str form_name
     in if name = [] \<or> pw = [] then (w, Inl Fields_required)
        else if role \<noteq> ''admin'' \<and> role \<noteq> ''csr_requester'' then (w, Inl Invalid_role)
        else if first_row (\<lambda>u. u_username u = name) (w_users w) \<noteq> None then (w, Inl Username_exists)
        else if int (length pw) < cf_min_password cf then (w, Inl Password_too_short)
        else
          let i = fresh_id u_id (w_users w);
              u = (new_user i name role ''local'' (hash pw) (rq_now rq))
                    \<lparr>u_must_change := True, u_created_by := Some (u_id me)\<rparr>;
              g = gated cf lc me w;
              u' = (if g then u\<lparr>u_active := False, u_approval := ''pending'', u_pending_by := Some (u_id me)\<rparr> else u)
          in (log_user rq None ''create_user'' i
                (Some (JObj [(''role'', JStr role), (''approval_status'', JStr (u_approval u'))]))
                (w\<lparr>w_users := w_users w @ [u']\<rparr>),
              Inr (User_created i g)))"

definition edit_by :: "auth_config \<Rightarrow> ldap_config \<Rightarrow> request_ctx \<Rightarrow> nat \<Rightarrow> string option \<Rightarrow> user
    \<Rightarrow> world \<Rightarrow> world \<times> (users_error + users_done)" where
  "edit_by cf lc rq i form_role me w =
     (case get_row u_id i (w_users w) of
        None \<Rightarrow> (w, Inl User_not_found)
      | Some u \<Rightarrow>
          let new_role = (case form_role of Some r \<Rightarrow> r | None \<Rightarrow> u_role u)
          in if new_role \<noteq> ''admin'' \<and> new_role \<noteq> ''csr_requester'' then (w, Inl Invalid_role)
             else if u_role u = ''admin'' \<and> new_role \<noteq> ''admin'' \<and> length (active_admins (w_users w)) \<le> 1
             then (w, Inl Last_admin_demotion)
             else
               let details = Some (JObj [(''old_role'', JStr (u_role u)), (''new_role'', JStr new_role)])
               in if new_role = ''admin'' \<and> u_role u \<noteq> ''admin'' \<and> gated cf lc me w
                  then (log_user rq None ''request_user_promotion'' i details
                          (put_user (u\<lparr>u_pending_role := Some ''admin'', u_pending_by := Some (u_id me)\<rparr>) w),
                        Inr Promotion_requested)
                  else
                    let u1 = u\<lparr>u_role := new_role\<rparr>;
                        u2 = (if new_role \<noteq> ''admin'' then u1\<lparr>u_pending_role := None\<rparr> else u1)
                    in (log_user rq None ''update_user_role'' i details (put_user u2 w), Inr Role_updated))"

definition edit_user :: "auth_config \<Rightarrow> ldap_config \<Rightarrow> request_ctx \<Rightarrow> nat \<Rightarrow> string option
    \<Rightarrow> world \<Rightarrow> world \<times> (users_error + users_done)" where
  "edit_user cf lc rq i form_role = admin_required rq (edit_by cf lc rq i form_role)"

definition toggle_active :: "request_ctx \<Rightarrow> nat \<Rightarrow> world \<Rightarrow> world \<times> (users_error + users_done)" where
  "toggle_active rq i = admin_required rq (\<lambda>me w.
     case get_row u_id i (w_users w) of
       None \<Rightarrow> (w, Inl User_not_found)
     | Some u \<Rightarrow>
         if u_id u = u_id me then (w, Inl Own_account)
         else if \<not> u_active u \<and> is_pending u then (w, Inl Awaits_approval)
         else if u_active u \<and> u_role u = ''admin'' \<and> length (active_admins (w_users w)) \<le> 1
         then (w, Inl Last_admin_deactivation)
         else
           let u1 = u\<lparr>u_active := \<not> u_active u\<rparr>;
               u2 = (if u_active u1 then clear_lockout u1 else u1)
           in (log_user rq None (if u_active u2 then ''activate_user'' else ''deactivate_user'') i None (put_user u2 w),
               Inr (Toggled (u_active u2))))"

definition reset_by :: "auth_config \<Rightarrow> ldap_config \<Rightarrow> (string \<Rightarrow> string) \<Rightarrow> request_ctx \<Rightarrow> nat \<Rightarrow> string
    \<Rightarrow> user \<Rightarrow> world \<Rightarrow> world \<times> (users_error + users_done)" where
  "reset_by cf lc hash rq i pw me w =
     (case get_row u_id i (w_users w) of
        None \<Rightarrow> (w, Inl User_not_found)
      | Some u \<Rightarrow>
          if u_auth_source u = ''ldap'' then (w, Inl Ldap_managed)
          else
            let g = (gated cf lc me w \<and> u_role u = ''admin'' \<and> u_id u \<noteq> u_id me)
            in if g \<and> is_exempt cf u then (w, Inl Bootstrap_not_reset)
               else if pw = [] then (w, Inl Password_required)
               else if int (length pw) < cf_min_password cf then (w, Inl Password_too_short)
               else
                 let u1 = clear_lockout (u\<lparr>u_password_hash := hash pw, u_must_change := True,
                            u_reset_by := Some (u_id me), u_reset_at := Some (rq_now rq)\<rparr>);
                     (u2, w1) = bump_session_version u1 w;
                     u3 = (if g then u2\<lparr>u_active := False, u_approval := ''pending'', u_pending_by := Some (u_id me)\<rparr>
                           else u2)
                 in (log_user rq None ''reset_user_password'' i (Some (JObj [(''pending_approval'', JBool g)])) (put_user u3 w1),
                     Inr (Password_reset g)))"

definition reset_password :: "auth_config \<Rightarrow> ldap_config \<Rightarrow> (string \<Rightarrow> string) \<Rightarrow> request_ctx \<Rightarrow> nat \<Rightarrow> string
    \<Rightarrow> world \<Rightarrow> world \<times> (users_error + users_done)" where
  "reset_password cf lc hash rq i pw = admin_required rq (reset_by cf lc hash rq i pw)"

text \<open>What an approval applies: a pending promotion, a pending activation.\<close>

definition apply_approval :: "user \<Rightarrow> user \<times> bool \<times> string option" where
  "apply_approval u =
     (let (u1, role) = (if or_empty (u_pending_role u) \<noteq> []
                        then (u\<lparr>u_role := or_empty (u_pending_role u), u_pending_role := None\<rparr>, u_pending_role u)
                        else (u, None));
          (u2, act) = (if is_pending u1
                       then (clear_lockout (u1\<lparr>u_approval := ''approved'', u_active := True\<rparr>), True)
                       else (u1, False))
      in (u2, act, role))"

definition approval_details :: "bool \<Rightarrow> string option \<Rightarrow> bool \<Rightarrow> json" where
  "approval_details act role glass =
     JObj ([(''activated'', JBool act), (''role'', j_opt_str role)] @ (if glass then [(''break_glass'', JBool True)] else []))"

definition approve_by :: "auth_config \<Rightarrow> ldap_config \<Rightarrow> request_ctx \<Rightarrow> nat \<Rightarrow> user \<Rightarrow> world
    \<Rightarrow> world \<times> (users_error + users_done)" where
  "approve_by cf lc rq i me w =
     (case get_row u_id i (w_users w) of
        None \<Rightarrow> (w, Inl User_not_found)
      | Some u \<Rightarrow>
          if \<not> awaits_approval u then (w, Inl Not_awaiting)
          else
            case (if dc_is_active cf lc (w_users w) then refuse_reason cf (rq_now rq) me (u_pending_by u) else None) of
              Some r \<Rightarrow> (w, Inl (Refused r))
            | None \<Rightarrow>
                let (u1, act, role) = apply_approval u;
                    u2 = u1\<lparr>u_approved_by := Some (u_id me), u_approved_at := Some (rq_now rq), u_pending_by := None\<rparr>
                in (log_user rq None ''approve_user'' i (Some (approval_details act role False)) (put_user u2 w),
                    Inr (User_approved act role)))"

definition approve_user :: "auth_config \<Rightarrow> ldap_config \<Rightarrow> request_ctx \<Rightarrow> nat \<Rightarrow> world \<Rightarrow> world \<times> (users_error + users_done)" where
  "approve_user cf lc rq i = admin_required rq (approve_by cf lc rq i)"

section \<open>Break-glass commands\<close>

definition cli_unlock :: "request_ctx \<Rightarrow> string \<Rightarrow> world \<Rightarrow> world" where
  "cli_unlock rq name w =
     (case first_row (\<lambda>u. u_username u = name) (w_users w) of
        None \<Rightarrow> w
      | Some u \<Rightarrow> log_user rq (Some ''cli'') ''unlock_user'' (u_id u) (Some (JObj [(''username'', JStr name)]))
                   (put_user (clear_lockout u) w))"

definition cli_approve :: "request_ctx \<Rightarrow> string \<Rightarrow> world \<Rightarrow> world" where
  "cli_approve rq name w =
     (case first_row (\<lambda>u. u_username u = name) (w_users w) of
        None \<Rightarrow> w
      | Some u \<Rightarrow>
          if \<not> awaits_approval u then w
          else
            let (u1, act, role) = apply_approval u;
                u2 = u1\<lparr>u_approved_by := None, u_approved_at := Some (rq_now rq), u_pending_by := None\<rparr>
            in log_user rq (Some ''cli'') ''approve_user'' (u_id u) (Some (approval_details act role True)) (put_user u2 w))"

definition cli_reset_password :: "auth_config \<Rightarrow> (string \<Rightarrow> string) \<Rightarrow> request_ctx \<Rightarrow> string \<Rightarrow> string \<Rightarrow> world \<Rightarrow> world" where
  "cli_reset_password cf hash rq name raw w =
     (case first_row (\<lambda>u. u_username u = name) (w_users w) of
        None \<Rightarrow> w
      | Some u \<Rightarrow>
          let pw = rstrip_by (\<lambda>c. c = CHR 0x0D \<or> c = CHR 0x0A) raw
          in if u_password_hash u = UNUSABLE_PASSWORD then w
             else if int (length pw) < cf_min_password cf then w
             else
               let u1 = clear_lockout (u\<lparr>u_password_hash := hash pw, u_must_change := True\<rparr>);
                   (u2, w1) = bump_session_version u1 w
               in log_user rq (Some ''cli'') ''reset_user_password'' (u_id u)
                    (Some (JObj [(''username'', JStr name), (''break_glass'', JBool True)])) (put_user u2 w1))"

section \<open>The actions as one step\<close>

datatype user_action =
    Create string string string
  | Edit nat "string option"
  | Toggle nat
  | Reset nat string
  | Approve nat

definition run_action :: "auth_config \<Rightarrow> ldap_config \<Rightarrow> (string \<Rightarrow> string) \<Rightarrow> request_ctx \<Rightarrow> user_action \<Rightarrow> world
    \<Rightarrow> world \<times> (users_error + users_done)" where
  "run_action cf lc hash rq act w =
     (case act of
        Create name pw role \<Rightarrow> create_user cf lc hash rq name pw role w
      | Edit i role \<Rightarrow> edit_user cf lc rq i role w
      | Toggle i \<Rightarrow> toggle_active rq i w
      | Reset i pw \<Rightarrow> reset_password cf lc hash rq i pw w
      | Approve i \<Rightarrow> approve_user cf lc rq i w)"

end
