(* ===== verification/UserAdmin_Claims.thy ===== *)
theory UserAdmin_Claims
  imports UserAdmin Auth_Claims
begin

text \<open>
  Correctness of account administration: no action removes the last active
  administrator, and under dual control no single administrator makes an
  active administrator.
\<close>

section \<open>What an action does to the table\<close>

definition active_admin :: "user \<Rightarrow> bool" where
  "active_admin u \<longleftrightarrow> u_role u = ''admin'' \<and> u_active u"

text \<open>The only role a pending promotion can carry.\<close>

definition promo_ok :: "user \<Rightarrow> bool" where
  "promo_ok u \<longleftrightarrow> u_pending_role u = None \<or> u_pending_role u = Some ''admin''"

definition acting :: "request_ctx \<Rightarrow> user \<Rightarrow> world \<Rightarrow> bool" where
  "acting rq me w \<longleftrightarrow> (\<exists>i n. rq_user rq = Some (i, n) \<and> get_row u_id i (w_users w) = Some me \<and> active_admin me)"

definition created_row :: "auth_config \<Rightarrow> ldap_config \<Rightarrow> user \<Rightarrow> world \<Rightarrow> user \<Rightarrow> bool" where
  "created_row cf lc me w u' \<longleftrightarrow> u_id u' = fresh_id u_id (w_users w) \<and> promo_ok u'
     \<and> (\<forall>u \<in> set (w_users w). u_username u \<noteq> u_username u') \<and> (gated cf lc me w \<longrightarrow> \<not> u_active u')"

definition changed_row :: "auth_config \<Rightarrow> ldap_config \<Rightarrow> request_ctx \<Rightarrow> user_action \<Rightarrow> user \<Rightarrow> world \<Rightarrow> user \<Rightarrow> user \<Rightarrow> bool" where
  "changed_row cf lc rq act me w u v \<longleftrightarrow> u_id v = u_id u \<and> u_username v = u_username u \<and> promo_ok v
     \<and> (active_admin u \<and> \<not> active_admin v \<longrightarrow> 2 \<le> length (active_admins (w_users w)) \<or> u_id u \<noteq> u_id me)
     \<and> (active_admin v \<and> \<not> active_admin u \<and> gated cf lc me w \<longrightarrow>
          (act = Toggle (u_id u) \<and> u_role u = ''admin'' \<and> \<not> is_pending u)
          \<or> (act = Approve (u_id u) \<and> can_approve cf (rq_now rq) (Some me) (u_pending_by u)))"

definition run_effect :: "auth_config \<Rightarrow> ldap_config \<Rightarrow> request_ctx \<Rightarrow> user_action \<Rightarrow> world \<Rightarrow> world \<Rightarrow> bool" where
  "run_effect cf lc rq act w w' \<longleftrightarrow> w' = w \<or>
     (\<exists>me. acting rq me w \<and>
        ((\<exists>u'. w_users w' = w_users w @ [u'] \<and> created_row cf lc me w u')
         \<or> (\<exists>u v. u \<in> set (w_users w) \<and> w_users w' = put_row u_id v (w_users w) \<and> changed_row cf lc rq act me w u v)))"

lemma admin_required_cases:
  "admin_required rq f w = (w', r) \<Longrightarrow> w' = w \<or> (\<exists>me. acting rq me w \<and> f me w = (w', r))"
  by (auto simp: admin_required_def acting_def active_admin_def is_admin_def split: option.splits if_splits)

lemma run_effect_put:
  assumes "acting rq me w" "get_row u_id i (w_users w) = Some u" "w_users w' = put_row u_id v (w_users w)"
    "changed_row cf lc rq act me w u v"
  shows "run_effect cf lc rq act w w'"
  using assms unfolding run_effect_def by (blast dest: get_row_mem)

lemma log_user_users [simp]: "w_users (log_user rq a b i d w) = w_users w"
  by (simp add: log_user_def)

lemma put_user_users [simp]: "w_users (put_user v w) = put_row u_id v (w_users w)"
  by (simp add: put_user_def)

lemma create_effect:
  assumes "create_user cf lc hash rq n pw role w = (w', r)"
  shows "run_effect cf lc rq (Create n pw role) w w'"
proof (cases "w' = w")
  case False
  obtain me where me: "acting rq me w" and new: "first_row (\<lambda>u. u_username u = strip_str n) (w_users w) = None"
    and w': "w_users w' = w_users w @ [if gated cf lc me w
      then (new_user (fresh_id u_id (w_users w)) (strip_str n) role ''local'' (hash pw) (rq_now rq))
        \<lparr>u_must_change := True, u_created_by := Some (u_id me), u_active := False, u_approval := ''pending'',
         u_pending_by := Some (u_id me)\<rparr>
      else (new_user (fresh_id u_id (w_users w)) (strip_str n) role ''local'' (hash pw) (rq_now rq))
        \<lparr>u_must_change := True, u_created_by := Some (u_id me)\<rparr>]"
    using admin_required_cases [OF assms [unfolded create_user_def]] False by (auto simp: Let_def split: if_splits)
  let ?u = "last (w_users w')"
  have "created_row cf lc me w ?u"
    using new w' by (auto simp: created_row_def new_user_def promo_ok_def first_row_def find_None_all)
  with me w' show ?thesis unfolding run_effect_def by (metis last_snoc)
qed (simp add: run_effect_def)

lemma active_adminsD: "active_admin u \<Longrightarrow> u_role u = ''admin'' \<and> u_active u"
  by (simp add: active_admin_def)

lemma edit_effect:
  assumes "edit_user cf lc rq i role w = (w', r)" and ok: "\<forall>u \<in> set (w_users w). promo_ok u"
  shows "run_effect cf lc rq (Edit i role) w w'"
proof (cases "w' = w")
  case False
  obtain me where me: "acting rq me w" and body: "edit_by cf lc rq i role me w = (w', r)"
    using admin_required_cases [OF assms(1) [unfolded edit_user_def]] False by blast
  obtain u where u: "get_row u_id i (w_users w) = Some u"
    using body False by (auto simp: edit_by_def split: option.splits)
  define nr where "nr = (case role of Some r \<Rightarrow> r | None \<Rightarrow> u_role u)"
  note body' = body [unfolded edit_by_def u option.case nr_def [symmetric] Let_def]
  have nr: "nr = ''admin'' \<or> nr = ''csr_requester''"
    and guard: "u_role u = ''admin'' \<and> nr \<noteq> ''admin'' \<longrightarrow> 2 \<le> length (active_admins (w_users w))"
    using body' False by (auto split: if_splits)
  have w': "w_users w' = put_row u_id
      (if nr = ''admin'' \<and> u_role u \<noteq> ''admin'' \<and> gated cf lc me w
       then u\<lparr>u_pending_role := Some ''admin'', u_pending_by := Some (u_id me)\<rparr>
       else if nr \<noteq> ''admin'' then u\<lparr>u_role := nr, u_pending_role := None\<rparr> else u\<lparr>u_role := nr\<rparr>) (w_users w)"
    using body' False by (auto split: if_splits)
  have "promo_ok u" using ok u by (auto dest: get_row_mem)
  with guard nr have "changed_row cf lc rq (Edit i role) me w u
      (if nr = ''admin'' \<and> u_role u \<noteq> ''admin'' \<and> gated cf lc me w
       then u\<lparr>u_pending_role := Some ''admin'', u_pending_by := Some (u_id me)\<rparr>
       else if nr \<noteq> ''admin'' then u\<lparr>u_role := nr, u_pending_role := None\<rparr> else u\<lparr>u_role := nr\<rparr>)"
    by (auto simp: changed_row_def promo_ok_def active_admin_def)
  with me u w' show ?thesis by (intro run_effect_put)
qed (simp add: run_effect_def)

lemma clear_lockout_simps [simp]:
  "u_id (clear_lockout u) = u_id u" "u_username (clear_lockout u) = u_username u" "u_role (clear_lockout u) = u_role u"
  "u_active (clear_lockout u) = u_active u" "u_pending_role (clear_lockout u) = u_pending_role u"
  "u_approval (clear_lockout u) = u_approval u"
  by (simp_all add: clear_lockout_def)

lemma toggle_effect:
  assumes "toggle_active rq i w = (w', r)" and ok: "\<forall>u \<in> set (w_users w). promo_ok u"
  shows "run_effect cf lc rq (Toggle i) w w'"
proof (cases "w' = w")
  case False
  obtain me u where me: "acting rq me w" and u: "get_row u_id i (w_users w) = Some u"
    and other: "u_id u \<noteq> u_id me" "u_active u \<or> \<not> is_pending u"
    and w': "w_users w' = put_row u_id
      (if \<not> u_active u then clear_lockout (u\<lparr>u_active := \<not> u_active u\<rparr>) else u\<lparr>u_active := \<not> u_active u\<rparr>) (w_users w)"
    using admin_required_cases [OF assms(1) [unfolded toggle_active_def]] False
    by (auto simp: Let_def split: option.splits if_splits)
  have "promo_ok u" using ok u by (auto dest: get_row_mem)
  with other u have "changed_row cf lc rq (Toggle i) me w u
      (if \<not> u_active u then clear_lockout (u\<lparr>u_active := \<not> u_active u\<rparr>) else u\<lparr>u_active := \<not> u_active u\<rparr>)"
    by (auto simp: changed_row_def promo_ok_def active_admin_def dest: get_row_key)
  with me u w' show ?thesis by (intro run_effect_put)
qed (simp add: run_effect_def)

lemma reset_effect:
  assumes "reset_password cf lc hash rq i pw w = (w', r)" and ok: "\<forall>u \<in> set (w_users w). promo_ok u"
  shows "run_effect cf lc rq (Reset i pw) w w'"
proof (cases "w' = w")
  case False
  let ?v = "\<lambda>me u. (clear_lockout (u\<lparr>u_password_hash := hash pw, u_must_change := True, u_reset_by := Some (u_id me),
      u_reset_at := Some (rq_now rq)\<rparr>))\<lparr>u_session_version := u_session_version u + 1\<rparr>"
  obtain me where me: "acting rq me w" and body: "reset_by cf lc hash rq i pw me w = (w', r)"
    using admin_required_cases [OF assms(1) [unfolded reset_password_def]] False by blast
  obtain u where u: "get_row u_id i (w_users w) = Some u"
    using body False by (auto simp: reset_by_def split: option.splits)
  define g where "g \<longleftrightarrow> gated cf lc me w \<and> u_role u = ''admin'' \<and> u_id u \<noteq> u_id me"
  have w': "w_users w' = put_row u_id (if g then (?v me u)\<lparr>u_active := False, u_approval := ''pending'',
        u_pending_by := Some (u_id me)\<rparr> else ?v me u) (w_users w)"
    using body False by (simp add: reset_by_def u Let_def bump_session_version_def clear_lockout_def g_def [symmetric]
      split: if_splits) auto
  have g: "g \<longrightarrow> u_id u \<noteq> u_id me" by (simp add: g_def)
  have "promo_ok u" using ok u by (auto dest: get_row_mem)
  with g have "changed_row cf lc rq (Reset i pw) me w u (if g then (?v me u)\<lparr>u_active := False, u_approval := ''pending'',
        u_pending_by := Some (u_id me)\<rparr> else ?v me u)"
    by (auto simp: changed_row_def promo_ok_def active_admin_def clear_lockout_def)
  with me u w' show ?thesis by (intro run_effect_put)
qed (simp add: run_effect_def)

lemma apply_approval_row:
  assumes "apply_approval u = (v, act, role)" "promo_ok u"
  shows "u_id v = u_id u \<and> u_username v = u_username u \<and> promo_ok v \<and> (active_admin u \<longrightarrow> active_admin v)"
  using assms by (auto simp: apply_approval_def Let_def promo_ok_def active_admin_def is_pending_def split: if_splits)

lemma approve_effect:
  assumes "approve_user cf lc rq i w = (w', r)" and ok: "\<forall>u \<in> set (w_users w). promo_ok u"
  shows "run_effect cf lc rq (Approve i) w w'"
proof (cases "w' = w")
  case False
  obtain me where me: "acting rq me w" and body: "approve_by cf lc rq i me w = (w', r)"
    using admin_required_cases [OF assms(1) [unfolded approve_user_def]] False by blast
  obtain u where u: "get_row u_id i (w_users w) = Some u"
    using body False by (auto simp: approve_by_def split: option.splits)
  have dc: "dc_is_active cf lc (w_users w) \<longrightarrow> can_approve cf (rq_now rq) (Some me) (u_pending_by u)"
    using body False by (auto simp: approve_by_def u refuse_reason_def split: option.splits if_splits)
  have w': "w_users w' = put_row u_id ((fst (apply_approval u))\<lparr>u_approved_by := Some (u_id me),
        u_approved_at := Some (rq_now rq), u_pending_by := None\<rparr>) (w_users w)"
    using body False by (auto simp: approve_by_def u Let_def split: option.splits if_splits prod.splits)
  have pu: "promo_ok u" using ok u by (auto dest: get_row_mem)
  obtain v act role where v: "apply_approval u = (v, act, role)" by (metis prod.collapse)
  from apply_approval_row [OF v pu] v dc u have "changed_row cf lc rq (Approve i) me w u
      ((fst (apply_approval u))\<lparr>u_approved_by := Some (u_id me), u_approved_at := Some (rq_now rq), u_pending_by := None\<rparr>)"
    by (auto simp: changed_row_def promo_ok_def active_admin_def gated_def dest: get_row_key)
  with me u w' show ?thesis by (intro run_effect_put)
qed (simp add: run_effect_def)

lemma run_action_effect:
  assumes "run_action cf lc hash rq act w = (w', r)" "\<forall>u \<in> set (w_users w). promo_ok u"
  shows "run_effect cf lc rq act w w'"
  using assms
  by (cases act) (auto simp: run_action_def create_effect edit_effect toggle_effect reset_effect approve_effect)

section \<open>There is always an administrator\<close>

text \<open>The steps of account administration: the handlers, whoever calls them, and the shell commands.\<close>

inductive users_step :: "auth_config \<Rightarrow> ldap_config \<Rightarrow> (string \<Rightarrow> string) \<Rightarrow> world \<Rightarrow> world \<Rightarrow> bool" for cf lc hash where
  Action: "run_action cf lc hash rq act w = (w', r) \<Longrightarrow> users_step cf lc hash w w'"
| Shell_unlock: "users_step cf lc hash w (cli_unlock rq name w)"
| Shell_approve: "users_step cf lc hash w (cli_approve rq name w)"
| Shell_reset: "users_step cf lc hash w (cli_reset_password cf hash rq name raw w)"

inductive users_steps :: "auth_config \<Rightarrow> ldap_config \<Rightarrow> (string \<Rightarrow> string) \<Rightarrow> world \<Rightarrow> world \<Rightarrow> bool" for cf lc hash where
  Refl: "users_steps cf lc hash w w"
| Trans: "users_steps cf lc hash w v \<Longrightarrow> users_step cf lc hash v u \<Longrightarrow> users_steps cf lc hash w u"

definition admin_inv :: "world \<Rightarrow> bool" where
  "admin_inv w \<longleftrightarrow> wf_users (w_users w) \<and> (\<forall>u \<in> set (w_users w). promo_ok u) \<and> active_admins (w_users w) \<noteq> []"

lemma active_admins_set: "set (active_admins t) = {u \<in> set t. active_admin u}"
  by (auto simp: active_admins_def active_admin_def)

lemma active_admins_Nil: "active_admins t = [] \<longleftrightarrow> \<not> (\<exists>u \<in> set t. active_admin u)"
  by (auto simp: active_admins_def active_admin_def filter_empty_conv)

lemma two_admins:
  assumes "2 \<le> length (active_admins t)" "wf_users t" "u \<in> set t"
  shows "\<exists>x \<in> set t. active_admin x \<and> u_id x \<noteq> u_id u"
proof (rule ccontr)
  assume "\<not> ?thesis"
  then have "u_id ` set (active_admins t) \<subseteq> {u_id u}" by (auto simp: active_admins_set)
  moreover have "distinct (map u_id (active_admins t))"
    using assms(2) by (simp add: wf_users_def wf_table_def active_admins_def distinct_map_filter)
  then have "card (u_id ` set (active_admins t)) = length (active_admins t)"
    by (metis distinct_card length_map set_map)
  ultimately have "length (active_admins t) \<le> 1"
    using card_mono [of "{u_id u}" "u_id ` set (active_admins t)"] by simp
  with assms(1) show False by simp
qed

lemma wf_users_put:
  assumes "wf_users t" "u \<in> set t" "u_id v = u_id u" "u_username v = u_username u"
  shows "wf_users (put_row u_id v t)"
  using first_row_put [OF assms(1) find_username [OF _ assms(2)] assms(3,4)] assms(1) by (simp add: wf_users_def)

text \<open>Replacing one row by a row with the same key keeps the invariant, unless it was the last administrator.\<close>

lemma admin_inv_put:
  assumes "admin_inv w" "u \<in> set (w_users w)" "u_id v = u_id u" "u_username v = u_username u" "promo_ok v"
    and "w_users w' = put_row u_id v (w_users w)"
    and "active_admin u \<and> \<not> active_admin v \<longrightarrow> (\<exists>x \<in> set (w_users w). active_admin x \<and> u_id x \<noteq> u_id u)"
  shows "admin_inv w'"
proof -
  have wf: "wf_users (w_users w)" using assms(1) by (simp add: admin_inv_def)
  have mem: "set (w_users w') = insert v {x \<in> set (w_users w). u_id x \<noteq> u_id v}"
    using assms(2,3,6) by (auto simp: set_put_row)
  obtain a where a: "a \<in> set (w_users w)" "active_admin a"
    using assms(1) by (auto simp: admin_inv_def active_admins_Nil)
  have uniq: "x = u" if "x \<in> set (w_users w)" "u_id x = u_id u" for x
    using that wf assms(2) by (auto simp: wf_users_def wf_table_def distinct_map dest: inj_onD)
  have "\<exists>x \<in> set (w_users w'). active_admin x"
  proof (cases "u_id a = u_id u")
    case True
    with a uniq have "active_admin u" by auto
    with assms(3,7) mem show ?thesis by auto
  next
    case False
    with a mem assms(3) show ?thesis by auto
  qed
  moreover have "wf_users (w_users w')" using wf_users_put [OF wf assms(2-4)] assms(6) by simp
  ultimately show ?thesis using assms(1,5) mem by (auto simp: admin_inv_def active_admins_Nil)
qed

lemma admin_inv_action:
  assumes "admin_inv w" "run_action cf lc hash rq act w = (w', r)"
  shows "admin_inv w'"
proof -
  have "run_effect cf lc rq act w w'"
    using assms by (intro run_action_effect) (auto simp: admin_inv_def)
  then consider "w' = w"
    | (new) me u' where "w_users w' = w_users w @ [u']" "created_row cf lc me w u'"
    | (put) me u v where "acting rq me w" "u \<in> set (w_users w)" "w_users w' = put_row u_id v (w_users w)"
        "changed_row cf lc rq act me w u v"
    unfolding run_effect_def by blast
  then show ?thesis
  proof cases
    case new
    with assms(1) show ?thesis
      by (auto simp: admin_inv_def created_row_def wf_users_def active_admins_def intro: wf_table_snoc)
  next
    case put
    have "\<exists>x \<in> set (w_users w). active_admin x \<and> u_id x \<noteq> u_id u" if "active_admin u \<and> \<not> active_admin v"
    proof -
      from put(4) that have "2 \<le> length (active_admins (w_users w)) \<or> u_id u \<noteq> u_id me" by (simp add: changed_row_def)
      with two_admins [of "w_users w" u] put(1,2) assms(1) show ?thesis
        by (auto simp: admin_inv_def acting_def dest: get_row_mem)
    qed
    with put show ?thesis by (intro admin_inv_put [OF assms(1), of u v]) (auto simp: changed_row_def)
  qed (use assms in simp)
qed

lemma admin_inv_shell:
  assumes "admin_inv w"
  shows "admin_inv (cli_unlock rq name w)" "admin_inv (cli_approve rq name w)"
    "admin_inv (cli_reset_password cf hash rq name raw w)"
proof -
  have keep: "admin_inv w'"
    if "w_users w' = put_row u_id v (w_users w)" "first_row (\<lambda>u. u_username u = name) (w_users w) = Some u"
      "u_id v = u_id u" "u_username v = u_username u" "promo_ok v" "active_admin u \<longrightarrow> active_admin v" for w' u v
    by (rule admin_inv_put [OF assms _ that(3,4,5,1)]) (use that in \<open>auto dest: first_row_SomeD\<close>)
  have ok: "promo_ok u" if "first_row (\<lambda>u. u_username u = name) (w_users w) = Some u" for u
    using that assms by (auto simp: admin_inv_def dest: first_row_SomeD)
  show "admin_inv (cli_unlock rq name w)"
    using assms ok by (auto simp: cli_unlock_def promo_ok_def active_admin_def intro!: keep split: option.splits)
  show "admin_inv (cli_approve rq name w)"
  proof (cases "cli_approve rq name w = w")
    case False
    then obtain u where u: "first_row (\<lambda>u. u_username u = name) (w_users w) = Some u" "awaits_approval u"
      by (auto simp: cli_approve_def split: option.splits if_splits)
    obtain v act role where v: "apply_approval u = (v, act, role)" by (metis prod.collapse)
    from apply_approval_row [OF v ok [OF u(1)]] u v show ?thesis
      by (intro keep [of _ "v\<lparr>u_approved_by := None, u_approved_at := Some (rq_now rq), u_pending_by := None\<rparr>" u])
        (auto simp: cli_approve_def promo_ok_def active_admin_def)
  qed (use assms in simp)
  show "admin_inv (cli_reset_password cf hash rq name raw w)"
  proof (cases "cli_reset_password cf hash rq name raw w = w")
    case False
    then obtain u where u: "first_row (\<lambda>u. u_username u = name) (w_users w) = Some u"
      by (auto simp: cli_reset_password_def split: option.splits)
    from False u ok [OF u] show ?thesis
      by (intro keep [of _ "(clear_lockout (u\<lparr>u_password_hash := hash (rstrip_by (\<lambda>c. c = CHR 0x0D \<or> c = CHR 0x0A) raw),
            u_must_change := True\<rparr>))\<lparr>u_session_version := u_session_version u + 1\<rparr>" u])
        (auto simp: cli_reset_password_def bump_session_version_def clear_lockout_def promo_ok_def active_admin_def Let_def
          split: if_splits)
  qed (use assms in simp)
qed

text \<open>C13. No sequence of account actions, by whatever users, and of break-glass commands leaves the system without an
  active administrator; user names and keys stay unique.\<close>

theorem always_an_active_admin:
  assumes "users_steps cf lc hash w w'" "admin_inv w"
  shows "active_admins (w_users w') \<noteq> [] \<and> wf_users (w_users w')"
proof -
  have "admin_inv w'" using assms
    by (induction rule: users_steps.induct)
      (auto elim!: users_step.cases intro: admin_inv_action admin_inv_shell)
  then show ?thesis by (simp add: admin_inv_def)
qed

definition admin_rq :: "time \<Rightarrow> request_ctx" where
  "admin_rq t = \<lparr>rq_user = Some (1, ''admin''), rq_addr = None, rq_now = t\<rparr>"

lemma demo_admin_inv: "admin_inv demo_world"
  by (simp add: admin_inv_def demo_world_def demo_user_def new_user_def wf_users_def wf_table_def promo_ok_def
      active_admins_def)

theorem always_an_active_admin_witness:
  "active_admins (w_users (fst (edit_user demo_cf demo_lc (admin_rq 9) 1 (Some ''csr_requester'')
      (fst (toggle_active (admin_rq 8) 1 demo_world))))) \<noteq> []"
proof -
  let ?w1 = "fst (toggle_active (admin_rq 8) 1 demo_world)"
  have "users_step demo_cf demo_lc id demo_world ?w1"
    by (rule users_step.Action [of _ _ _ "admin_rq 8" "Toggle 1" _ _ "snd (toggle_active (admin_rq 8) 1 demo_world)"])
      (simp add: run_action_def)
  moreover have "users_step demo_cf demo_lc id ?w1 (fst (edit_user demo_cf demo_lc (admin_rq 9) 1 (Some ''csr_requester'') ?w1))"
    by (rule users_step.Action [of _ _ _ "admin_rq 9" "Edit 1 (Some ''csr_requester'')" _ _
          "snd (edit_user demo_cf demo_lc (admin_rq 9) 1 (Some ''csr_requester'') ?w1)"]) (simp add: run_action_def)
  ultimately have "users_steps demo_cf demo_lc id demo_world
      (fst (edit_user demo_cf demo_lc (admin_rq 9) 1 (Some ''csr_requester'') ?w1))"
    by (meson users_steps.intros)
  from always_an_active_admin [OF this demo_admin_inv] show ?thesis by simp
qed

section \<open>Four eyes\<close>

text \<open>The cool-down: the approver was not created or reset by the creator within it.\<close>

definition cooled_down :: "auth_config \<Rightarrow> time \<Rightarrow> user \<Rightarrow> nat option \<Rightarrow> bool" where
  "cooled_down cf now a creator \<longleftrightarrow> creator = None \<or> cf_cooldown_hours cf \<le> 0 \<or>
     (\<not> (u_created_by a = creator \<and> since_cutoff (now - hours (cf_cooldown_hours cf)) (u_created_at a))
      \<and> \<not> (u_reset_by a = creator \<and> since_cutoff (now - hours (cf_cooldown_hours cf)) (u_reset_at a)))"

lemma can_approve_iff:
  "\<not> is_exempt cf a \<Longrightarrow>
   can_approve cf now (Some a) creator \<longleftrightarrow> creator \<noteq> Some (u_id a) \<and> cooled_down cf now a creator"
  by (auto simp: can_approve_def cooled_down_def Let_def split: option.splits)

text \<open>C8. While dual control applies, an administrator other than the bootstrap account cannot make an active
  administrator alone: if an action of theirs leaves an active administrator that was not one before, the
  account existed, and either it was an approved administrator being switched on again, or they approved a
  request that somebody else set up and that the cool-down does not bar them from.\<close>

theorem four_eyes:
  assumes "run_action cf lc hash rq act w = (w', r)" "wf_users (w_users w)" "\<forall>u \<in> set (w_users w). promo_ok u"
    and "dc_is_active cf lc (w_users w)" "rq_user rq = Some (i, n)" "get_row u_id i (w_users w) = Some me" "\<not> is_exempt cf me"
    and "v \<in> set (w_users w')" "active_admin v" "\<not> (\<exists>u \<in> set (w_users w). u_id u = u_id v \<and> active_admin u)"
  shows "\<exists>u \<in> set (w_users w). u_id u = u_id v \<and>
     ((act = Toggle (u_id u) \<and> u_role u = ''admin'' \<and> \<not> is_pending u)
      \<or> (act = Approve (u_id u) \<and> u_pending_by u \<noteq> Some (u_id me) \<and> cooled_down cf (rq_now rq) me (u_pending_by u)))"
proof -
  have me: "a = me" if "acting rq a w" for a using that assms(5,6) by (auto simp: acting_def)
  have g: "gated cf lc me w" using assms(4,7) by (simp add: gated_def)
  from run_action_effect [OF assms(1,3)] consider "w' = w"
    | (new) u' where "w_users w' = w_users w @ [u']" "created_row cf lc me w u'"
    | (put) u x where "u \<in> set (w_users w)" "w_users w' = put_row u_id x (w_users w)" "changed_row cf lc rq act me w u x"
    unfolding run_effect_def using me by blast
  then show ?thesis
  proof cases
    case 1
    with assms(8-10) show ?thesis by auto
  next
    case new
    then have "v \<in> set (w_users w) \<or> v = u'" using assms(8) by auto
    moreover have "\<not> active_admin u'" using new(2) g by (simp add: created_row_def active_admin_def)
    ultimately show ?thesis using assms(9,10) by auto
  next
    case put
    then have id: "u_id x = u_id u" by (simp add: changed_row_def)
    have v: "v = x" using assms(8-10) put(2) by (auto dest: put_row_mem)
    with assms(9,10) put(1) id have "active_admin x" "\<not> active_admin u" by auto
    with put(3) g have "(act = Toggle (u_id u) \<and> u_role u = ''admin'' \<and> \<not> is_pending u)
        \<or> (act = Approve (u_id u) \<and> can_approve cf (rq_now rq) (Some me) (u_pending_by u))"
      by (simp add: changed_row_def)
    with can_approve_iff [OF assms(7)] put(1) id v show ?thesis by auto
  qed
qed

text \<open>Two ordinary administrators next to the bootstrap account; the third user's promotion was asked for by the second.\<close>

definition demo_four :: world where
  "demo_four = demo_world\<lparr>w_users := [demo_user 1 ''admin'' ''admin'', demo_user 2 ''ann'' ''admin'', demo_user 3 ''ben'' ''admin'',
     (demo_user 4 ''carl'' ''csr_requester'')\<lparr>u_pending_role := Some ''admin'', u_pending_by := Some 2\<rparr>]\<rparr>"

definition ben_rq :: request_ctx where
  "ben_rq = \<lparr>rq_user = Some (3, ''ben''), rq_addr = None, rq_now = days 2\<rparr>"

theorem four_eyes_witness:
  "\<exists>u \<in> set (w_users demo_four). u_id u = 4 \<and> u_pending_by u \<noteq> Some 3"
proof -
  let ?v = "(demo_user 4 ''carl'' ''admin'')\<lparr>u_approved_by := Some 3, u_approved_at := Some (days 2)\<rparr>"
  obtain w' r where r: "run_action demo_cf demo_lc id ben_rq (Approve 4) demo_four = (w', r)" by fastforce
  have "?v \<in> set (w_users (fst (run_action demo_cf demo_lc id ben_rq (Approve 4) demo_four)))"
    by (simp add: run_action_def approve_user_def admin_required_def approve_by_def demo_four_def ben_rq_def demo_cf_def demo_lc_def
        demo_user_def new_user_def get_row_def is_admin_def awaits_approval_def is_pending_def dc_is_active_def refuse_reason_def
        can_approve_def is_exempt_def since_cutoff_def hours_def minutes_def seconds_def days_def apply_approval_def put_row_def
        demo_world_def Let_def)
  then have v: "?v \<in> set (w_users w')" by (simp add: r)
  from four_eyes [OF r _ _ _ _ _ _ v, of 3 "''ben''" "demo_user 3 ''ben'' ''admin''"] show ?thesis
    by (auto simp: demo_four_def ben_rq_def demo_cf_def demo_lc_def demo_user_def new_user_def demo_world_def wf_users_def
        wf_table_def promo_ok_def dc_is_active_def is_exempt_def get_row_def active_admin_def)
qed

text \<open>
  The approver must differ from the administrator in \<open>pending_by\<close>, which later
  actions overwrite: once another administrator asks for the promotion of an
  account that is pending, the one who created the account may approve it.
\<close>

lemma creator_may_approve_after_overwrite:
  assumes "get_row u_id i (w_users w) = Some u" "u_role u = ''csr_requester''" "acting rq b w" "gated cf lc b w"
    and "is_pending u" "u_created_by u = Some (u_id a)" "u_pending_by u = Some (u_id a)" "\<not> is_exempt cf a"
    and "u_id a \<noteq> u_id b" "cf_cooldown_hours cf \<le> 0"
  shows "\<not> can_approve cf now (Some a) (u_pending_by u)
    \<and> (\<exists>v. get_row u_id i (w_users (fst (edit_user cf lc rq i (Some ''admin'') w))) = Some v
         \<and> is_pending v \<and> u_created_by v = Some (u_id a) \<and> can_approve cf now (Some a) (u_pending_by v))"
proof -
  have "fst (edit_user cf lc rq i (Some ''admin'') w)
      = log_user rq None ''request_user_promotion'' i (Some (JObj [(''old_role'', JStr (u_role u)), (''new_role'', JStr ''admin'')]))
          (put_user (u\<lparr>u_pending_role := Some ''admin'', u_pending_by := Some (u_id b)\<rparr>) w)"
    using assms by (auto simp: edit_user_def admin_required_def edit_by_def acting_def active_admin_def is_admin_def Let_def)
  with assms get_row_key [OF assms(1)] show ?thesis
    by (auto simp: can_approve_iff cooled_down_def get_put_same is_pending_def)
qed

end
