(* ===== verification/Scheduler.thy ===== *)
theory Scheduler
  imports AuditChain
begin

text \<open>
  The background scheduler: \<open>app/services/scheduler_service.py\<close> and
  \<open>app/models/scheduler_lease.py\<close>. The jobs work on an application state of any
  type; a job returns the state it committed and, when it raised, the class name
  and message of the exception.
\<close>

section \<open>The lease\<close>

record lease =
  ls_holder :: "string option"
  ls_expires_at :: "time option"
  ls_last_tick_at :: "time option"
  ls_last_error :: "string option"

definition new_lease :: lease where
  "new_lease = \<lparr>ls_holder = None, ls_expires_at = None, ls_last_tick_at = None, ls_last_error = None\<rparr>"

text \<open>\<open>_ensure_lease_row\<close>: None is the missing row.\<close>

definition ensure_lease_row :: "lease option \<Rightarrow> lease" where
  "ensure_lease_row l = (case l of None \<Rightarrow> new_lease | Some x \<Rightarrow> x)"

text \<open>The WHERE clause of the conditional UPDATE.\<close>

definition lease_free :: "time \<Rightarrow> string \<Rightarrow> lease \<Rightarrow> bool" where
  "lease_free now holder l \<longleftrightarrow>
     (case ls_expires_at l of None \<Rightarrow> True | Some e \<Rightarrow> e < now) \<or> ls_holder l = Some holder"

definition acquire_lease :: "time \<Rightarrow> time \<Rightarrow> string \<Rightarrow> lease option \<Rightarrow> lease \<times> bool" where
  "acquire_lease ttl now holder row =
     (let l = ensure_lease_row row
      in if lease_free now holder l
         then (l\<lparr>ls_holder := Some holder, ls_expires_at := Some (now + ttl), ls_last_tick_at := Some now\<rparr>, True)
         else (l, False))"

definition should_start :: "bool \<Rightarrow> string option \<Rightarrow> bool \<Rightarrow> bool" where
  "should_start enabled flag testing =
     (if \<not> enabled then False else if flag \<noteq> Some ''1'' then False else if testing then False else True)"

section \<open>Jobs and ticks\<close>

record job_row =
  jr_last_run_at :: "time option"
  jr_last_error :: "string option"

record 's job =
  jb_name :: string
  jb_run :: "time \<Rightarrow> 's \<Rightarrow> 's \<times> (string \<times> string) option"
  jb_interval :: int

record 's sched =
  sc_lease :: "lease option"
  sc_rows :: "string \<Rightarrow> job_row"
  sc_app :: 's

record tick_summary =
  tk_lease :: bool
  tk_jobs :: "(string \<times> string option) list"
  tk_skipped :: "string list"

definition job_is_due :: "job_row \<Rightarrow> int \<Rightarrow> time \<Rightarrow> bool" where
  "job_is_due row interval now \<longleftrightarrow>
     interval \<le> 0 \<or> (case jr_last_run_at row of None \<Rightarrow> True | Some t \<Rightarrow> seconds interval \<le> now - t)"

definition error_message :: "string \<Rightarrow> string \<times> string \<Rightarrow> string" where
  "error_message name e = name @ '': '' @ fst e @ '': '' @ take 200 (snd e)"

text \<open>One job of the loop: its outcome on the row (the row keeps \<open>last_run_at\<close> when the job raised).\<close>

definition run_job :: "time \<Rightarrow> 's job \<Rightarrow> 's sched \<Rightarrow> 's sched \<times> string option" where
  "run_job now j st =
     (let (app, e) = jb_run j now (sc_app st); row = sc_rows st (jb_name j)
      in case e of
           None \<Rightarrow>
             (st\<lparr>sc_app := app,
                 sc_rows := (sc_rows st)(jb_name j := row\<lparr>jr_last_run_at := Some now, jr_last_error := None\<rparr>)\<rparr>, None)
         | Some x \<Rightarrow>
             let m = error_message (jb_name j) x
             in (st\<lparr>sc_app := app, sc_rows := (sc_rows st)(jb_name j := row\<lparr>jr_last_error := Some m\<rparr>)\<rparr>, Some m))"

fun run_jobs :: "bool \<Rightarrow> time \<Rightarrow> 's job list \<Rightarrow> 's sched \<Rightarrow> 's sched \<times> (string \<times> string option) list \<times> string list" where
  "run_jobs force now [] st = (st, [], [])"
| "run_jobs force now (j # js) st =
     (if \<not> force \<and> \<not> job_is_due (sc_rows st (jb_name j)) (jb_interval j) now
      then (let (st', done, skipped) = run_jobs force now js st in (st', done, jb_name j # skipped))
      else (let (st1, e) = run_job now j st; (st', done, skipped) = run_jobs force now js st1
            in (st', (jb_name j, e) # done, skipped)))"

text \<open>
  A tick. \<open>audit_error\<close> writes the \<open>scheduler_error\<close> row; it is called only when the
  joined message differs from the one already on the lease row.
\<close>

definition tick :: "(string list \<Rightarrow> time \<Rightarrow> 's \<Rightarrow> 's) \<Rightarrow> 's job list \<Rightarrow> time \<Rightarrow> string \<Rightarrow> bool \<Rightarrow> time \<Rightarrow> 's sched
    \<Rightarrow> 's sched \<times> tick_summary" where
  "tick audit_error jobs ttl holder force now st =
     (let (l, got) = (if force then (ensure_lease_row (sc_lease st), True) else acquire_lease ttl now holder (sc_lease st));
          st0 = st\<lparr>sc_lease := Some l\<rparr>
      in if \<not> got then (st0, \<lparr>tk_lease = False, tk_jobs = [], tk_skipped = []\<rparr>)
         else
           let (st1, done, skipped) = run_jobs force now jobs st0;
               errors = List.map_filter snd done;
               joined = (if errors = [] then None else Some (join_with ''; '' errors));
               st2 = (if joined \<noteq> None \<and> joined \<noteq> ls_last_error l
                      then st1\<lparr>sc_app := audit_error errors now (sc_app st1)\<rparr> else st1)
           in (st2\<lparr>sc_lease := Some (l\<lparr>ls_last_error := joined\<rparr>)\<rparr>,
               \<lparr>tk_lease = True, tk_jobs = done, tk_skipped = skipped\<rparr>))"

section \<open>Expiry events\<close>

text \<open>A certificate or CA row as the job sees it; \<open>ex_renewed\<close> is \<open>renewals.any()\<close> (False for a CA).\<close>

record expiring =
  ex_id :: nat
  ex_not_after :: time
  ex_revoked :: bool
  ex_renewed :: bool
  ex_notified_at :: "time option"

datatype expiry_event = Expiring nat time | Expired nat time

definition due_for_expiry :: "time \<Rightarrow> int \<Rightarrow> expiring \<Rightarrow> bool" where
  "due_for_expiry now warning_days x \<longleftrightarrow>
     \<not> ex_revoked x \<and> \<not> ex_renewed x \<and>
     ((ex_not_after x \<le> now \<and> (case ex_notified_at x of None \<Rightarrow> True | Some t \<Rightarrow> t < ex_not_after x))
      \<or> (now < ex_not_after x \<and> ex_not_after x \<le> now + days warning_days \<and> ex_notified_at x = None))"

definition event_of :: "time \<Rightarrow> expiring \<Rightarrow> expiry_event" where
  "event_of now x = (if ex_not_after x \<le> now then Expired (ex_id x) now else Expiring (ex_id x) now)"

text \<open>
  \<open>job_expiry_events\<close> for one table. \<open>commits\<close> says for which rows the transaction
  succeeds; a row whose commit fails is rolled back and keeps its timestamp.
\<close>

definition job_expiry_events :: "time \<Rightarrow> int \<Rightarrow> (nat \<Rightarrow> bool) \<Rightarrow> expiring list \<Rightarrow> expiring list \<times> expiry_event list" where
  "job_expiry_events now warning_days commits t =
     (let due = filter (\<lambda>x. commits (ex_id x)) (sort_key ex_not_after (filter (due_for_expiry now warning_days) t))
      in (fold (\<lambda>x. put_row ex_id (x\<lparr>ex_notified_at := Some now\<rparr>)) due t, map (event_of now) due))"

end
