(* ===== verification/Scheduler_Claims.thy ===== *)
theory Scheduler_Claims
  imports Scheduler
begin

text \<open>
  Correctness of the scheduler: the lease is exclusive, a tick runs each due job
  once whatever the others do, and each stage of an expiry is reported once.
\<close>

section \<open>Leases\<close>

text \<open>What a client of a lease relies on: a lease that was taken keeps others out until it has expired.\<close>

locale exclusive_lease =
  fixes acquire :: "time \<Rightarrow> 'h \<Rightarrow> 'l \<Rightarrow> 'l \<times> bool"
    and owner :: "'l \<Rightarrow> 'h option"
    and until :: "'l \<Rightarrow> time"
    and ttl :: time
  assumes taken: "acquire t h l = (l', True) \<Longrightarrow> owner l' = Some h \<and> until l' = t + ttl"
    and kept: "acquire t h l = (l', False) \<Longrightarrow> owner l' = owner l \<and> until l' = until l"
    and foreign: "acquire t h l = (l', True) \<Longrightarrow> owner l = Some k \<Longrightarrow> k \<noteq> h \<Longrightarrow> until l < t"
begin

text \<open>A history of attempts (time and holder), and the lease it leaves.\<close>

definition attempt :: "time \<times> 'h \<Rightarrow> 'l \<Rightarrow> 'l" where
  "attempt a l = fst (acquire (fst a) (snd a) l)"

definition granted :: "time \<times> 'h \<Rightarrow> 'l \<Rightarrow> bool" where
  "granted a l = snd (acquire (fst a) (snd a) l)"

text \<open>After a grant at \<open>t\<close> to \<open>h\<close>, the lease is still \<open>h\<close>'s until at least \<open>t + ttl\<close>, or time has passed that point.\<close>

lemma after_grant:
  assumes "owner l = Some h" "t + ttl \<le> until l" "\<forall>a \<in> set as. t \<le> fst a" "sorted (map fst as)"
  shows "(owner (fold attempt as l) = Some h \<and> t + ttl \<le> until (fold attempt as l))
    \<or> (as \<noteq> [] \<and> t + ttl < fst (last as))"
  using assms
proof (induction as rule: rev_induct)
  case Nil
  then show ?case by simp
next
  case (snoc a as)
  let ?m = "fold attempt as l"
  have srt: "sorted (map fst as)" "\<forall>b \<in> set as. fst b \<le> fst a"
    using snoc.prems(4) by (auto simp: sorted_append)
  have IH: "(owner ?m = Some h \<and> t + ttl \<le> until ?m) \<or> (as \<noteq> [] \<and> t + ttl < fst (last as))"
    using snoc.IH snoc.prems srt(1) by simp
  obtain m' g where m': "acquire (fst a) (snd a) ?m = (m', g)" by fastforce
  then have fin: "fold attempt (as @ [a]) l = m'" by (simp add: attempt_def [of a])
  show ?case
  proof (cases "as \<noteq> [] \<and> t + ttl < fst (last as)")
    case True
    then have "fst (last as) \<le> fst a" using srt(2) by simp
    with True show ?thesis by simp
  next
    case False
    with IH have own: "owner ?m = Some h" "t + ttl \<le> until ?m" by auto
    show ?thesis
    proof (cases g)
      case True
      with m' have m'': "acquire (fst a) (snd a) ?m = (m', True)" by simp
      note tk = taken [OF m''] and fr = foreign [OF m'' own(1)]
      show ?thesis
      proof (cases "snd a = h")
        case True
        with tk snoc.prems(3) fin show ?thesis by simp
      next
        case False
        with fr own(2) have "t + ttl < fst a" by auto
        then show ?thesis by simp
      qed
    next
      case False
      with kept [of "fst a" "snd a" ?m m'] m' own fin show ?thesis by simp
    qed
  qed
qed

theorem grants_exclude:
  assumes "granted (t, h) l" "granted (t', h') (fold attempt as (attempt (t, h) l))" "h \<noteq> h'"
    and "sorted (t # map fst as @ [t'])"
  shows "t + ttl < t'"
proof -
  let ?l = "attempt (t, h) l" and ?m = "fold attempt as (attempt (t, h) l)"
  have "owner ?l = Some h" "until ?l = t + ttl"
    using taken [of t h l "attempt (t, h) l"] assms(1)
    by (cases "acquire t h l"; simp add: granted_def attempt_def)+
  then have "(owner ?m = Some h \<and> t + ttl \<le> until ?m) \<or> (as \<noteq> [] \<and> t + ttl < fst (last as))"
    using assms(4) by (intro after_grant) (auto simp: sorted_append)
  then show ?thesis
  proof
    assume "owner ?m = Some h \<and> t + ttl \<le> until ?m"
    moreover obtain m' where "acquire t' h' ?m = (m', True)"
      using assms(2) by (cases "acquire t' h' ?m") (simp add: granted_def)
    ultimately show ?thesis using assms(3) foreign [of t' h' ?m m' h] by simp
  next
    assume "as \<noteq> [] \<and> t + ttl < fst (last as)"
    moreover have "as \<noteq> [] \<Longrightarrow> fst (last as) \<le> t'" using assms(4) by (auto simp: sorted_append)
    ultimately show ?thesis by auto
  qed
qed

end

definition lease_owner :: "lease option \<Rightarrow> string option" where
  "lease_owner l = (case l of None \<Rightarrow> None | Some x \<Rightarrow> if ls_expires_at x = None then None else ls_holder x)"

definition lease_until :: "lease option \<Rightarrow> time" where
  "lease_until l = (case l of None \<Rightarrow> 0 | Some x \<Rightarrow> (case ls_expires_at x of None \<Rightarrow> 0 | Some e \<Rightarrow> e))"

definition lease_attempt :: "time \<Rightarrow> time \<Rightarrow> string \<Rightarrow> lease option \<Rightarrow> lease option \<times> bool" where
  "lease_attempt ttl now holder row = (let (l, got) = acquire_lease ttl now holder row in (Some l, got))"

interpretation main_lease: exclusive_lease "lease_attempt ttl" lease_owner lease_until ttl for ttl
  by unfold_locales
    (auto simp: lease_attempt_def acquire_lease_def lease_free_def ensure_lease_row_def new_lease_def lease_owner_def
      lease_until_def Let_def split: if_splits option.splits)

text \<open>C22. Whatever the interleaving of the workers' attempts, when one worker got the lease and later another one does,
  the first one's lease time has passed: the jobs never run in two workers at once, as long as the clocks of
  the workers agree.\<close>

theorem lease_mutual_exclusion:
  assumes "snd (lease_attempt ttl t h row)"
    and "snd (lease_attempt ttl t' h' (fold (\<lambda>a l. fst (lease_attempt ttl (fst a) (snd a) l)) as
           (fst (lease_attempt ttl t h row))))"
    and "h \<noteq> h'" "sorted (t # map fst as @ [t'])"
  shows "t + ttl < t'"
  by (rule main_lease.grants_exclude [of ttl t h row t' h' as])
    (use assms in \<open>simp_all add: main_lease.granted_def main_lease.attempt_def [abs_def]\<close>)

theorem lease_mutual_exclusion_witness:
  "(0 :: time) + 180 < 200"
  by (rule lease_mutual_exclusion [of 180 0 "''w1''" None 200 "''w2''" "[(10, ''w2''), (15, ''w3'')]"])
    (simp_all add: lease_attempt_def acquire_lease_def lease_free_def ensure_lease_row_def new_lease_def)

section \<open>Ticks\<close>

definition due_jobs :: "bool \<Rightarrow> time \<Rightarrow> 's job list \<Rightarrow> (string \<Rightarrow> job_row) \<Rightarrow> 's job list" where
  "due_jobs force now js rows = filter (\<lambda>j. force \<or> job_is_due (rows (jb_name j)) (jb_interval j) now) js"

definition job_result :: "time \<Rightarrow> 's job \<Rightarrow> 's \<Rightarrow> string option" where
  "job_result now j s = map_option (error_message (jb_name j)) (snd (jb_run j now s))"

text \<open>What a tick is meant to do: run the due jobs one after the other, recording each one's result.\<close>

fun job_results :: "time \<Rightarrow> 's job list \<Rightarrow> 's \<Rightarrow> (string \<times> string option) list" where
  "job_results now [] s = []"
| "job_results now (j # js) s = (jb_name j, job_result now j s) # job_results now js (fst (jb_run j now s))"

definition recorded :: "time \<Rightarrow> string option \<Rightarrow> job_row \<Rightarrow> job_row" where
  "recorded now e row =
     (case e of None \<Rightarrow> row\<lparr>jr_last_run_at := Some now, jr_last_error := None\<rparr> | Some m \<Rightarrow> row\<lparr>jr_last_error := Some m\<rparr>)"

lemma run_job_result:
  "run_job now j st = (st\<lparr>sc_app := fst (jb_run j now (sc_app st)),
     sc_rows := (sc_rows st)(jb_name j := recorded now (job_result now j (sc_app st)) (sc_rows st (jb_name j)))\<rparr>,
     job_result now j (sc_app st))"
  by (auto simp: run_job_def job_result_def recorded_def Let_def split: prod.splits option.splits)

lemma due_jobs_cong:
  "\<forall>j \<in> set js. rows (jb_name j) = rows' (jb_name j) \<Longrightarrow> due_jobs force now js rows = due_jobs force now js rows'"
  unfolding due_jobs_def by (rule filter_cong) auto

lemma map_of_job_results: "n \<notin> jb_name ` set js \<Longrightarrow> map_of (job_results now js s) n = None"
  by (induction js arbitrary: s) auto

lemma run_jobs_spec:
  assumes "distinct (map jb_name js)" "run_jobs force now js st = (st', done, skipped)"
  shows "done = job_results now (due_jobs force now js (sc_rows st)) (sc_app st)
    \<and> sc_app st' = fold (\<lambda>j s. fst (jb_run j now s)) (due_jobs force now js (sc_rows st)) (sc_app st)
    \<and> skipped = map jb_name (filter (\<lambda>j. \<not> (force \<or> job_is_due (sc_rows st (jb_name j)) (jb_interval j) now)) js)
    \<and> sc_rows st' = (\<lambda>n. case map_of done n of None \<Rightarrow> sc_rows st n | Some e \<Rightarrow> recorded now e (sc_rows st n))
    \<and> sc_lease st' = sc_lease st"
  using assms
proof (induction force now js st arbitrary: st' "done" skipped rule: run_jobs.induct)
  case (1 force now st)
  then show ?case by (simp add: due_jobs_def)
next
  case (2 force now j js st)
  have dist: "distinct (map jb_name js)" "jb_name j \<notin> jb_name ` set js" using 2(3) by auto
  show ?case
  proof (cases "force \<or> job_is_due (sc_rows st (jb_name j)) (jb_interval j) now")
    case False
    obtain s d k where r: "run_jobs force now js st = (s, d, k)" by (metis prod.collapse)
    with False 2(1) [OF _ dist(1) r] 2(4) show ?thesis by (auto simp: due_jobs_def)
  next
    case True
    obtain st1 e where j: "run_job now j st = (st1, e)" by fastforce
    obtain s d k where r: "run_jobs force now js st1 = (s, d, k)" by (metis prod.collapse)
    have rows: "sc_rows st1 (jb_name i) = sc_rows st (jb_name i)" if "i \<in> set js" for i
    proof -
      have "jb_name i \<noteq> jb_name j" using that dist(2) by (metis image_eqI)
      then show ?thesis using j by (auto simp: run_job_result)
    qed
    have IH: "d = job_results now (due_jobs force now js (sc_rows st1)) (sc_app st1)
      \<and> sc_app s = fold (\<lambda>j s. fst (jb_run j now s)) (due_jobs force now js (sc_rows st1)) (sc_app st1)
      \<and> k = map jb_name (filter (\<lambda>j. \<not> (force \<or> job_is_due (sc_rows st1 (jb_name j)) (jb_interval j) now)) js)
      \<and> sc_rows s = (\<lambda>n. case map_of d n of None \<Rightarrow> sc_rows st1 n | Some e \<Rightarrow> recorded now e (sc_rows st1 n))
      \<and> sc_lease s = sc_lease st1"
      using 2(2) [OF _ j [symmetric] refl dist(1)] True r by auto
    have due: "due_jobs force now js (sc_rows st1) = due_jobs force now js (sc_rows st)"
      by (rule due_jobs_cong) (simp add: rows)
    have skip: "filter (\<lambda>j. \<not> (force \<or> job_is_due (sc_rows st1 (jb_name j)) (jb_interval j) now)) js
        = filter (\<lambda>j. \<not> (force \<or> job_is_due (sc_rows st (jb_name j)) (jb_interval j) now)) js"
      by (rule filter_cong) (simp_all add: rows)
    have st1: "sc_app st1 = fst (jb_run j now (sc_app st))" "e = job_result now j (sc_app st)" "sc_lease st1 = sc_lease st"
      "sc_rows st1 = (sc_rows st)(jb_name j := recorded now e (sc_rows st (jb_name j)))"
      using j by (auto simp: run_job_result)
    have none: "map_of d (jb_name j) = None"
      using IH dist(2) by (auto simp: due_jobs_def intro!: map_of_job_results)
    have out: "st' = s" "done = (jb_name j, e) # d" "skipped = k"
      using 2(4) True j r by auto
    have dj: "due_jobs force now (j # js) (sc_rows st) = j # due_jobs force now js (sc_rows st)"
      using True by (auto simp: due_jobs_def)
    show ?thesis
      using IH st1 none True unfolding out due skip dj by (auto simp: fun_eq_iff split: option.splits)
  qed
qed

text \<open>A tick that holds the lease runs exactly the due jobs, in the configured order, each once and on the state the
  previous one left, whatever the previous ones raised; a job that succeeded has its run time recorded and its
  error cleared, a job that raised keeps its old run time and records its error, and nobody else's row changes.\<close>

theorem tick_runs_due_jobs:
  assumes "distinct (map jb_name jobs)" "tick audit_error jobs ttl holder force now st = (st', sm)" "tk_lease sm"
  shows "tk_jobs sm = job_results now (due_jobs force now jobs (sc_rows st)) (sc_app st)
    \<and> tk_skipped sm = map jb_name (filter (\<lambda>j. \<not> (force \<or> job_is_due (sc_rows st (jb_name j)) (jb_interval j) now)) jobs)
    \<and> sc_rows st' = (\<lambda>n. case map_of (tk_jobs sm) n of None \<Rightarrow> sc_rows st n | Some e \<Rightarrow> recorded now e (sc_rows st n))
    \<and> (let app = fold (\<lambda>j s. fst (jb_run j now s)) (due_jobs force now jobs (sc_rows st)) (sc_app st);
           errors = List.map_filter snd (tk_jobs sm)
       in sc_app st' = app \<or> errors \<noteq> [] \<and> sc_app st' = audit_error errors now app)"
proof -
  obtain l got where l: "(if force then (ensure_lease_row (sc_lease st), True) else acquire_lease ttl now holder (sc_lease st)) = (l, got)"
    by fastforce
  obtain st1 d k where r: "run_jobs force now jobs (st\<lparr>sc_lease := Some l\<rparr>) = (st1, d, k)" by (metis prod.collapse)
  have got using assms(2,3) l by (auto simp: tick_def Let_def split: if_splits)
  with assms(2) l r have "tk_jobs sm = d" "tk_skipped sm = k" "sc_rows st' = sc_rows st1"
    "sc_app st' = (if (if List.map_filter snd d = [] then None else Some (join_with ''; '' (List.map_filter snd d))) \<noteq> None
        \<and> (if List.map_filter snd d = [] then None else Some (join_with ''; '' (List.map_filter snd d))) \<noteq> ls_last_error l
      then audit_error (List.map_filter snd d) now (sc_app st1) else sc_app st1)"
    by (auto simp: tick_def Let_def split: prod.splits)
  moreover have "sc_rows (st\<lparr>sc_lease := Some l\<rparr>) = sc_rows st" "sc_app (st\<lparr>sc_lease := Some l\<rparr>) = sc_app st" by simp_all
  note run_jobs_spec [OF assms(1) r, unfolded this]
  ultimately show ?thesis by (auto simp: Let_def)
qed

definition demo_jobs :: "nat job list" where
  "demo_jobs = [\<lparr>jb_name = ''crl'', jb_run = \<lambda>t s. (s + 1, Some (''ValueError'', ''no key'')), jb_interval = 0\<rparr>,
     \<lparr>jb_name = ''seal'', jb_run = \<lambda>t s. (s + 10, None), jb_interval = 0\<rparr>]"

definition demo_sched :: "nat sched" where
  "demo_sched = \<lparr>sc_lease = None, sc_rows = (\<lambda>n. \<lparr>jr_last_run_at = None, jr_last_error = None\<rparr>), sc_app = 0\<rparr>"

theorem tick_runs_due_jobs_witness:
  "sc_rows (fst (tick (\<lambda>e t s. s) demo_jobs 180 ''w1'' False 7 demo_sched)) ''seal''
     = \<lparr>jr_last_run_at = Some 7, jr_last_error = None\<rparr>"
proof -
  let ?t = "tick (\<lambda>e t s. s) demo_jobs 180 ''w1'' False 7 demo_sched"
  have "tk_lease (snd ?t)"
    by (simp add: tick_def demo_sched_def acquire_lease_def lease_free_def ensure_lease_row_def new_lease_def Let_def split: prod.splits)
  from tick_runs_due_jobs [OF _ prod.collapse [symmetric] this] show ?thesis
    by (simp add: demo_jobs_def demo_sched_def due_jobs_def job_is_due_def job_result_def recorded_def)
qed


section \<open>Expiry events\<close>

text \<open>
  A history of the daily job on one table: before each run any certificate may have been revoked or renewed
  since, and each run has its own clock, warning window and commit failures.
\<close>

record expiry_run =
  er_now :: time
  er_warning :: int
  er_commits :: "nat \<Rightarrow> bool"
  er_revoked :: "nat \<Rightarrow> bool"
  er_renewed :: "nat \<Rightarrow> bool"

definition revised :: "expiry_run \<Rightarrow> expiring \<Rightarrow> expiring" where
  "revised r x = x\<lparr>ex_revoked := er_revoked r (ex_id x), ex_renewed := er_renewed r (ex_id x)\<rparr>"

definition run_expiry :: "expiry_run \<Rightarrow> expiring list \<Rightarrow> expiring list \<times> expiry_event list" where
  "run_expiry r t = job_expiry_events (er_now r) (er_warning r) (er_commits r) (map (revised r) t)"

fun run_expiries :: "expiry_run list \<Rightarrow> expiring list \<Rightarrow> expiring list \<times> expiry_event list" where
  "run_expiries [] t = (t, [])"
| "run_expiries (r # rs) t =
     (let (t1, e1) = run_expiry r t; (t2, e2) = run_expiries rs t1 in (t2, e1 @ e2))"

fun event_id :: "expiry_event \<Rightarrow> nat" where
  "event_id (Expiring i _) = i"
| "event_id (Expired i _) = i"

definition about :: "nat \<Rightarrow> expiry_event list \<Rightarrow> expiry_event list" where
  "about i es = filter (\<lambda>e. event_id e = i) es"

lemma event_id_of [simp]: "event_id (event_of now x) = ex_id x"
  by (simp add: event_of_def)

lemma find_key_None: "v \<notin> k ` set ys \<Longrightarrow> find (\<lambda>y. k y = v) ys = None"
  by (force simp: find_None_all)

lemma filter_key: "wf_table k t \<Longrightarrow> filter (\<lambda>x. k x = i) t = (case get_row k i t of None \<Rightarrow> [] | Some x \<Rightarrow> [x])"
  by (induction t) (auto simp: wf_table_def get_row_def find_key_None split: option.splits)

lemma get_row_fold_put:
  assumes "distinct (map k ys)" "\<And>x. k (g x) = k x"
  shows "get_row k i (fold (\<lambda>x. put_row k (g x)) ys t)
    = (case get_row k i t of None \<Rightarrow> None | Some r \<Rightarrow> (case find (\<lambda>y. k y = i) ys of None \<Rightarrow> Some r | Some y \<Rightarrow> Some (g y)))"
  using assms(1)
proof (induction ys arbitrary: t)
  case Nil
  then show ?case by (simp split: option.splits)
next
  case (Cons y ys)
  show ?case
  proof (cases "k y = i")
    case True
    then have "find (\<lambda>y. k y = i) ys = None" using Cons.prems by (auto intro: find_key_None)
    with True Cons show ?thesis by (simp add: assms(2) get_put_same split: option.splits)
  next
    case False
    then have "find (\<lambda>y. k y = i) (y # ys) = find (\<lambda>y. k y = i) ys" by simp
    with False Cons show ?thesis by (cases "get_row k i t") (simp_all add: assms(2) get_put_other)
  qed
qed

lemma wf_fold_put: "wf_table k (fold (\<lambda>x. put_row k (g x)) ys t) = wf_table k t"
  by (induction ys arbitrary: t) (simp_all add: put_row_wf)

lemma find_filter_head: "find p xs = (case filter p xs of [] \<Rightarrow> None | x # _ \<Rightarrow> Some x)"
  by (induction xs) auto

text \<open>One run, seen from one row: it is reported and stamped exactly when it is due and its commit succeeds.\<close>

definition reported :: "expiry_run \<Rightarrow> expiring \<Rightarrow> bool" where
  "reported r x \<longleftrightarrow> er_commits r (ex_id x) \<and> due_for_expiry (er_now r) (er_warning r) (revised r x)"

lemma run_expiry_row:
  assumes "wf_table ex_id t" "get_row ex_id i t = Some x" "run_expiry r t = (t', es)"
  shows "wf_table ex_id t'
    \<and> get_row ex_id i t' = Some (if reported r x then (revised r x)\<lparr>ex_notified_at := Some (er_now r)\<rparr> else revised r x)
    \<and> about i es = (if reported r x then [event_of (er_now r) x] else [])"
proof -
  let ?t = "map (revised r) t"
  let ?due = "filter (\<lambda>x. er_commits r (ex_id x)) (sort_key ex_not_after (filter (due_for_expiry (er_now r) (er_warning r)) ?t))"
  have key: "ex_id (revised r y) = ex_id y" for y by (simp add: revised_def)
  have wf: "wf_table ex_id ?t" using assms(1) by (simp add: wf_table_def key comp_def)
  have row: "get_row ex_id i ?t = Some (revised r x)" using assms(2) by (simp add: get_row_map key)
  have i: "ex_id x = i" using get_row_key [OF assms(2)] .
  have one: "filter (\<lambda>y. ex_id y = i) ?t = [revised r x]" using filter_key [OF wf, of i] row by simp
  have "filter (\<lambda>y. ex_id y = i) ?due
      = sort_key ex_not_after (filter (\<lambda>y. er_commits r (ex_id y) \<and> due_for_expiry (er_now r) (er_warning r) y) (filter (\<lambda>y. ex_id y = i) ?t))"
    by (simp add: filter_sort conj_ac del: filter_map) 
  also have "\<dots> = (if reported r x then [revised r x] else [])"
    unfolding one by (simp add: reported_def key)
  finally have mine: "filter (\<lambda>y. ex_id y = i) ?due = (if reported r x then [revised r x] else [])" .
  have dist: "distinct (map ex_id ?due)"
  proof -
    have "distinct (map ex_id (filter P (sort_key ex_not_after ys)))" if "distinct (map ex_id ys)" for P ys
      using that by (auto simp: distinct_map inj_on_def)
    then show ?thesis using wf distinct_map_filter [of ex_id ?t] unfolding wf_table_def by blast
  qed
  have t': "t' = fold (\<lambda>x. put_row ex_id (x\<lparr>ex_notified_at := Some (er_now r)\<rparr>)) ?due ?t"
    and es: "es = map (event_of (er_now r)) ?due"
    using assms(3) by (simp_all add: run_expiry_def job_expiry_events_def Let_def)
  have "find (\<lambda>y. ex_id y = i) ?due = (if reported r x then Some (revised r x) else None)"
    unfolding find_filter_head mine by simp
  then have "get_row ex_id i t' = Some (if reported r x then (revised r x)\<lparr>ex_notified_at := Some (er_now r)\<rparr> else revised r x)"
    unfolding t' by (subst get_row_fold_put [OF dist]) (simp_all add: row)
  moreover have "about i es = map (event_of (er_now r)) (filter (\<lambda>y. ex_id y = i) ?due)"
    unfolding about_def es by (simp only: filter_map comp_def event_id_of)
  moreover have "wf_table ex_id t'" unfolding t' wf_fold_put by (rule wf)
  ultimately show ?thesis unfolding mine by (simp add: event_of_def revised_def)
qed

lemma run_expiries_none:
  assumes "wf_table ex_id t" "get_row ex_id i t = Some x" "ex_notified_at x = Some n" "ex_not_after x \<le> n"
    "run_expiries rs t = (t', es)"
  shows "about i es = []"
  using assms
proof (induction rs arbitrary: t x es t')
  case Nil
  then show ?case by (simp add: about_def)
next
  case (Cons r rs)
  obtain t1 e1 where r: "run_expiry r t = (t1, e1)" by fastforce
  obtain t2 e2 where rs: "run_expiries rs t1 = (t2, e2)" by fastforce
  have nr: "\<not> reported r x" using Cons.prems(3,4) by (auto simp: reported_def due_for_expiry_def revised_def)
  note row = run_expiry_row [OF Cons.prems(1,2) r]
  have "about i e2 = []"
    by (rule Cons.IH [of t1 "revised r x"]) (use row nr rs Cons.prems(3,4,5) r in \<open>auto simp: revised_def\<close>)
  with row nr Cons.prems(5) r rs show ?case by (auto simp: about_def)
qed

lemma run_expiries_late:
  assumes "wf_table ex_id t" "get_row ex_id i t = Some x" "ex_notified_at x = Some n" "run_expiries rs t = (t', es)"
  shows "about i es = [] \<or> (\<exists>b. about i es = [Expired i b] \<and> ex_not_after x \<le> b)"
  using assms
proof (induction rs arbitrary: t x es t')
  case Nil
  then show ?case by (simp add: about_def)
next
  case (Cons r rs)
  obtain t1 e1 where r: "run_expiry r t = (t1, e1)" by fastforce
  obtain t2 e2 where rs: "run_expiries rs t1 = (t2, e2)" by fastforce
  have i: "ex_id x = i" using get_row_key [OF Cons.prems(2)] .
  have es: "about i es = about i e1 @ about i e2" using Cons.prems(4) r rs by (auto simp: about_def)
  note row = run_expiry_row [OF Cons.prems(1,2) r]
  show ?case
  proof (cases "reported r x")
    case True
    then have late: "ex_not_after x \<le> er_now r"
      using Cons.prems(3) by (auto simp: reported_def due_for_expiry_def revised_def)
    have "about i e2 = []"
      by (rule run_expiries_none [OF _ _ _ _ rs, of i "(revised r x)\<lparr>ex_notified_at := Some (er_now r)\<rparr>" "er_now r"])
        (use row True late in \<open>auto simp: revised_def\<close>)
    with True row es late i show ?thesis by (simp add: event_of_def)
  next
    case False
    have "about i e2 = [] \<or> (\<exists>b. about i e2 = [Expired i b] \<and> ex_not_after (revised r x) \<le> b)"
      by (rule Cons.IH [of t1]) (use row False rs Cons.prems(3) in \<open>auto simp: revised_def\<close>)
    with False row es show ?thesis by (simp add: revised_def)
  qed
qed

text \<open>C23. Over any history of runs, with failing commits, revocations and renewals in between, an object that was never
  reported gets at most one expiring event, sent before its end of validity, and at most one expired event, sent
  after it, in this order.\<close>

theorem expiry_reported_once:
  assumes "wf_table ex_id t" "get_row ex_id i t = Some x" "ex_notified_at x = None" "run_expiries rs t = (t', es)"
  shows "about i es = [] \<or> (\<exists>a. about i es = [Expiring i a] \<and> a < ex_not_after x)
    \<or> (\<exists>b. about i es = [Expired i b] \<and> ex_not_after x \<le> b)
    \<or> (\<exists>a b. about i es = [Expiring i a, Expired i b] \<and> a < ex_not_after x \<and> ex_not_after x \<le> b)"
  using assms
proof (induction rs arbitrary: t x es t')
  case Nil
  then show ?case by (simp add: about_def)
next
  case (Cons r rs)
  obtain t1 e1 where r: "run_expiry r t = (t1, e1)" by fastforce
  obtain t2 e2 where rs: "run_expiries rs t1 = (t2, e2)" by fastforce
  have i: "ex_id x = i" using get_row_key [OF Cons.prems(2)] .
  have es: "about i es = about i e1 @ about i e2" using Cons.prems(4) r rs by (auto simp: about_def)
  note row = run_expiry_row [OF Cons.prems(1,2) r]
  show ?case
  proof (cases "reported r x")
    case True
    let ?x = "(revised r x)\<lparr>ex_notified_at := Some (er_now r)\<rparr>"
    have row1: "wf_table ex_id t1" "get_row ex_id i t1 = Some ?x" using row True by auto
    have na: "ex_not_after ?x = ex_not_after x" by (simp add: revised_def)
    have e1: "about i e1 = [event_of (er_now r) x]" using row True by simp
    have "about i e2 = [] \<or> (\<exists>b. about i e2 = [Expired i b] \<and> ex_not_after x \<le> b)"
      using run_expiries_late [OF row1 _ rs] unfolding na by simp
    moreover have "ex_not_after x \<le> er_now r \<Longrightarrow> about i e2 = []"
      by (rule run_expiries_none [OF row1 _ _ rs, of "er_now r"]) (simp_all add: na)
    ultimately show ?thesis using es e1 i by (auto simp: event_of_def)
  next
    case False
    have "get_row ex_id i t1 = Some (revised r x)" "wf_table ex_id t1" using row False by auto
    moreover have "ex_notified_at (revised r x) = None" "ex_not_after (revised r x) = ex_not_after x"
      using Cons.prems(3) by (simp_all add: revised_def)
    ultimately have IH: "about i e2 = [] \<or> (\<exists>a. about i e2 = [Expiring i a] \<and> a < ex_not_after x)
      \<or> (\<exists>b. about i e2 = [Expired i b] \<and> ex_not_after x \<le> b)
      \<or> (\<exists>a b. about i e2 = [Expiring i a, Expired i b] \<and> a < ex_not_after x \<and> ex_not_after x \<le> b)"
      using Cons.IH [of t1 "revised r x", OF _ _ _ rs] by simp
    have "about i es = about i e2" using es row False by simp
    with IH show ?thesis by simp
  qed
qed

definition demo_expiring :: expiring where
  "demo_expiring = \<lparr>ex_id = 4, ex_not_after = days 100, ex_revoked = False, ex_renewed = False, ex_notified_at = None\<rparr>"

definition demo_run :: "int \<Rightarrow> expiry_run" where
  "demo_run d = \<lparr>er_now = days d, er_warning = 30, er_commits = (\<lambda>_. True), er_revoked = (\<lambda>_. False), er_renewed = (\<lambda>_. False)\<rparr>"

lemma demo_run_step:
  "run_expiry (demo_run d) [demo_expiring\<lparr>ex_notified_at := n\<rparr>] =
    (if due_for_expiry (days d) 30 (demo_expiring\<lparr>ex_notified_at := n\<rparr>)
     then ([demo_expiring\<lparr>ex_notified_at := Some (days d)\<rparr>], [event_of (days d) demo_expiring])
     else ([demo_expiring\<lparr>ex_notified_at := n\<rparr>], []))"
  by (simp add: demo_expiring_def demo_run_def run_expiry_def job_expiry_events_def revised_def event_of_def put_row_def)

lemma demo_due:
  "due_for_expiry (days d) 30 (demo_expiring\<lparr>ex_notified_at := n\<rparr>) \<longleftrightarrow>
    (100 \<le> d \<and> (case n of None \<Rightarrow> True | Some t \<Rightarrow> t < days 100)) \<or> (70 \<le> d \<and> d < 100 \<and> n = None)"
  by (cases n) (auto simp: due_for_expiry_def demo_expiring_def days_eq)

theorem expiry_reported_once_witness:
  "about 4 (snd (run_expiries (map demo_run [60, 71, 72, 101]) [demo_expiring]))
     = [Expiring 4 (days 71), Expired 4 (days 101)]"
proof -
  have d: "demo_expiring = demo_expiring\<lparr>ex_notified_at := None\<rparr>" by (simp add: demo_expiring_def)
  have ev: "run_expiries (map demo_run [60, 71, 72, 101]) [demo_expiring\<lparr>ex_notified_at := None\<rparr>]
      = ([demo_expiring\<lparr>ex_notified_at := Some (days 101)\<rparr>], [Expiring 4 (days 71), Expired 4 (days 101)])"
    by (simp add: demo_run_step demo_due) (simp add: event_of_def demo_expiring_def days_eq)
  have "wf_table ex_id [demo_expiring]" by (simp add: wf_table_def)
  moreover have "get_row ex_id 4 [demo_expiring] = Some demo_expiring" by (simp add: get_row_def demo_expiring_def)
  moreover have "ex_notified_at demo_expiring = None" by (simp add: demo_expiring_def)
  ultimately have "about 4 [Expiring 4 (days 71), Expired 4 (days 101)] \<noteq> []"
    using expiry_reported_once [OF _ _ _ ev [folded d], of 4 demo_expiring] by (simp add: about_def)
  then show ?thesis unfolding ev [folded d] by (simp add: about_def)
qed

end
