(* ===== verification/Tokens.thy ===== *)
theory Tokens
  imports Auth
begin

text \<open>
  Bearer tokens: the scoped API tokens of \<open>app/models/api_token.py\<close> and
  \<open>app/services/api_token_service.py\<close>, and the scrape tokens of
  \<open>app/models/metrics_token.py\<close> and \<open>app/services/metrics_token_service.py\<close>.
  The digest \<open>H\<close> is \<open>hashlib.sha256(...).hexdigest()\<close>; the random parts of a new
  token are arguments.
\<close>

section \<open>Rows\<close>

record api_token =
  at_id :: nat
  at_user_id :: nat
  at_name :: string
  at_token_id :: string
  at_token_hash :: string
  at_scopes_json :: string
  at_expires_at :: time
  at_created_at :: "time option"
  at_created_by :: "nat option"
  at_last_used_at :: "time option"
  at_revoked :: bool

record metrics_token =
  mt_id :: nat
  mt_name :: string
  mt_token_id :: string
  mt_token_hash :: string
  mt_expires_at :: time
  mt_created_at :: "time option"
  mt_created_by :: "nat option"
  mt_last_used_at :: "time option"
  mt_revoked :: bool

text \<open>The database as the requests of this component see it.\<close>

record store =
  s_world :: world
  s_api :: "api_token list"
  s_metrics :: "metrics_token list"

definition API_PREFIX :: string where
  "API_PREFIX = ''chy_api_''"

definition METRICS_PREFIX :: string where
  "METRICS_PREFIX = ''cmt_''"

definition SCOPES :: "string list" where
  "SCOPES = [''read'', ''issue'', ''revoke'', ''admin'']"

section \<open>Parsing a presented token\<close>

text \<open>\<open>split\<close> of both classes, which differ in the prefix.\<close>

definition split_bearer :: "string \<Rightarrow> string \<Rightarrow> (string \<times> string) option" where
  "split_bearer pre presented =
     (if presented = [] \<or> \<not> startswith presented pre then None
      else case partition_at (CHR ''_'') (drop (length pre) presented) of
             None \<Rightarrow> None
           | Some (token_id, secret) \<Rightarrow> if token_id = [] \<or> secret = [] then None else Some (token_id, secret))"

definition api_split :: "string \<Rightarrow> (string \<times> string) option" where
  "api_split = split_bearer API_PREFIX"

definition metrics_split :: "string \<Rightarrow> (string \<times> string) option" where
  "metrics_split = split_bearer METRICS_PREFIX"

definition api_is_valid :: "time \<Rightarrow> api_token \<Rightarrow> bool" where
  "api_is_valid now t \<longleftrightarrow> \<not> at_revoked t \<and> now < at_expires_at t"

definition metrics_is_valid :: "time \<Rightarrow> metrics_token \<Rightarrow> bool" where
  "metrics_is_valid now t \<longleftrightarrow> \<not> mt_revoked t \<and> now < mt_expires_at t"

text \<open>
  \<open>scopes\<close>: \<open>list(json.loads(...))\<close>, the empty list for text that does not parse.
  None stands for the TypeError that \<open>list\<close> raises for a number, a boolean or null.
\<close>

definition api_scopes :: "api_token \<Rightarrow> json list option" where
  "api_scopes t =
     (case loads (if at_scopes_json t = [] then ''[]'' else at_scopes_json t) of
        None \<Rightarrow> Some []
      | Some (JArr xs) \<Rightarrow> Some xs
      | Some (JObj kvs) \<Rightarrow> Some (map (\<lambda>kv. JStr (fst kv)) kvs)
      | Some (JStr s) \<Rightarrow> Some (map (\<lambda>c. JStr [c]) s)
      | Some _ \<Rightarrow> None)"

definition has_scope :: "string \<Rightarrow> json list \<Rightarrow> bool" where
  "has_scope scope scopes \<longleftrightarrow> JStr scope \<in> set scopes \<or> JStr ''admin'' \<in> set scopes"

section \<open>Creating and revoking API tokens\<close>

datatype token_error =
    Unknown_scopes "string list" | Scope_required | Name_required | Name_too_long | Days_not_integer
  | Days_out_of_range | Owner_deactivated | Duplicate_name | Expiry_required

text \<open>\<open>sorted(set(scopes))\<close> of valid scopes is the alphabetical list restricted to them.\<close>

definition sorted_scopes :: "string list \<Rightarrow> string list" where
  "sorted_scopes ss = filter (\<lambda>s. s \<in> set ss) [''admin'', ''issue'', ''read'', ''revoke'']"

definition normalise_scopes :: "string list \<Rightarrow> token_error + string list" where
  "normalise_scopes scopes =
     (let ss = map (\<lambda>s. lower_str (strip_str s)) (filter (\<lambda>s. strip_str s \<noteq> []) scopes);
          unknown = remdups (filter (\<lambda>s. s \<notin> set SCOPES) ss)
      in if unknown \<noteq> [] then Inl (Unknown_scopes unknown)
         else if ss = [] then Inl Scope_required
         else Inr (sorted_scopes ss))"

definition api_generate :: "(string \<Rightarrow> string) \<Rightarrow> nat \<Rightarrow> nat \<Rightarrow> string \<Rightarrow> string list \<Rightarrow> time \<Rightarrow> nat option \<Rightarrow> time
    \<Rightarrow> string \<Rightarrow> string \<Rightarrow> string \<times> api_token" where
  "api_generate H i uid name scopes expires created_by now tid secret =
     (API_PREFIX @ tid @ CHR ''_'' # secret,
      \<lparr>at_id = i, at_user_id = uid, at_name = name, at_token_id = tid, at_token_hash = H secret,
       at_scopes_json = dumps Spaced (JArr (map JStr (sorted_scopes scopes))), at_expires_at = expires,
       at_created_at = Some now, at_created_by = created_by, at_last_used_at = None, at_revoked = False\<rparr>)"

text \<open>\<open>expires_in_days\<close> is the value \<open>int()\<close> made of the argument, None when it raised.\<close>

definition api_create :: "(string \<Rightarrow> string) \<Rightarrow> int \<Rightarrow> request_ctx \<Rightarrow> string option \<Rightarrow> user \<Rightarrow> string \<Rightarrow> string list
    \<Rightarrow> int option \<Rightarrow> nat option \<Rightarrow> string \<Rightarrow> string \<Rightarrow> store \<Rightarrow> token_error + (store \<times> string \<times> api_token)" where
  "api_create H max_days rq actor u name0 scopes0 expires_in_days created_by tid secret st =
     (let name = strip_str name0
      in if name = [] then Inl Name_required
         else if 100 < length name then Inl Name_too_long
         else case normalise_scopes scopes0 of
           Inl e \<Rightarrow> Inl e
         | Inr scopes \<Rightarrow>
             (case expires_in_days of
                None \<Rightarrow> Inl Days_not_integer
              | Some d \<Rightarrow>
                  if d < 1 \<or> max_days < d then Inl Days_out_of_range
                  else if \<not> u_active u then Inl Owner_deactivated
                  else if first_row (\<lambda>t. at_user_id t = u_id u \<and> at_name t = name) (s_api st) \<noteq> None then Inl Duplicate_name
                  else
                    let expires = rq_now rq + days d;
                        (plain, row) = api_generate H (fresh_id at_id (s_api st)) (u_id u) name scopes expires created_by
                                         (rq_now rq) tid secret;
                        w = s_world st;
                        w' = w\<lparr>w_log := log_action rq actor ''create_api_token'' (Some ''api_token'') (Some (at_id row))
                               (Some (JObj [(''user_id'', JInt (int (u_id u))), (''username'', JStr (u_username u)),
                                  (''name'', JStr name), (''scopes'', JArr (map JStr scopes)),
                                  (''expires_at'', JStr (isoformat expires))])) (w_log w)\<rparr>
                    in Inr (st\<lparr>s_api := s_api st @ [row], s_world := w'\<rparr>, plain, row)))"

definition api_revoke :: "request_ctx \<Rightarrow> string option \<Rightarrow> api_token \<Rightarrow> store \<Rightarrow> store" where
  "api_revoke rq actor row st =
     (if at_revoked row then st
      else let w = s_world st
           in st\<lparr>s_api := put_row at_id (row\<lparr>at_revoked := True\<rparr>) (s_api st),
                 s_world := w\<lparr>w_log := log_action rq actor ''revoke_api_token'' (Some ''api_token'') (Some (at_id row))
                   (Some (JObj [(''user_id'', JInt (int (at_user_id row))), (''name'', JStr (at_name row))])) (w_log w)\<rparr>\<rparr>)"

definition pk_of :: "string \<Rightarrow> nat option" where
  "pk_of s = (case py_int s of None \<Rightarrow> None | Some i \<Rightarrow> if i < 0 then None else Some (nat i))"

definition api_get :: "string \<Rightarrow> api_token list \<Rightarrow> api_token option" where
  "api_get s t =
     (case first_row (\<lambda>r. at_token_id r = s) t of
        Some r \<Rightarrow> Some r
      | None \<Rightarrow> (case pk_of s of None \<Rightarrow> None | Some i \<Rightarrow> get_row at_id i t))"

section \<open>Verifying\<close>

definition api_verify :: "(string \<Rightarrow> string) \<Rightarrow> time \<Rightarrow> string \<Rightarrow> store \<Rightarrow> api_token option" where
  "api_verify H now presented st =
     (case api_split presented of
        None \<Rightarrow> None
      | Some (token_id, secret) \<Rightarrow>
          (case first_row (\<lambda>r. at_token_id r = token_id) (s_api st) of
             None \<Rightarrow> None
           | Some r \<Rightarrow>
               if \<not> api_is_valid now r \<or> at_token_hash r \<noteq> H secret then None
               else (case get_row u_id (at_user_id r) (w_users (s_world st)) of
                       None \<Rightarrow> None
                     | Some u \<Rightarrow> if u_active u then Some r else None)))"

definition TOUCH_THROTTLE :: time where
  "TOUCH_THROTTLE = seconds 60"

definition touched :: "time \<Rightarrow> time option \<Rightarrow> time option" where
  "touched now prev = (case prev of None \<Rightarrow> Some now | Some t \<Rightarrow> if TOUCH_THROTTLE \<le> now - t then Some now else Some t)"

definition api_touch :: "time \<Rightarrow> api_token \<Rightarrow> store \<Rightarrow> store" where
  "api_touch now row st =
     st\<lparr>s_api := put_row at_id (row\<lparr>at_last_used_at := touched now (at_last_used_at row)\<rparr>) (s_api st)\<rparr>"

definition ISSUE_ENDPOINTS :: "string list" where
  "ISSUE_ENDPOINTS = [''certificates.create'', ''certificates.renew'', ''csr.create'', ''csr.sign'']"

definition REVOKE_ENDPOINTS :: "string list" where
  "REVOKE_ENDPOINTS = [''certificates.revoke'', ''ca.revoke'', ''ca.generate_crl'']"

definition required_scope :: "string \<Rightarrow> string option \<Rightarrow> string option" where
  "required_scope meth endpoint =
     (if or_empty endpoint = [] then Some ''read''
      else if hd (split_at (CHR ''.'') (or_empty endpoint)) \<in> {''public'', ''health'', ''metrics'', ''static'', ''auth''} then None
      else if meth \<in> {''GET'', ''HEAD'', ''OPTIONS''} then Some ''read''
      else if or_empty endpoint \<in> set ISSUE_ENDPOINTS then Some ''issue''
      else if or_empty endpoint \<in> set REVOKE_ENDPOINTS then Some ''revoke''
      else Some ''admin'')"

section \<open>Metrics tokens\<close>

definition metrics_generate :: "(string \<Rightarrow> string) \<Rightarrow> nat \<Rightarrow> string \<Rightarrow> time \<Rightarrow> nat option \<Rightarrow> time \<Rightarrow> string \<Rightarrow> string
    \<Rightarrow> string \<times> metrics_token" where
  "metrics_generate H i name expires created_by now tid secret =
     (METRICS_PREFIX @ tid @ CHR ''_'' # secret,
      \<lparr>mt_id = i, mt_name = name, mt_token_id = tid, mt_token_hash = H secret, mt_expires_at = expires,
       mt_created_at = Some now, mt_created_by = created_by, mt_last_used_at = None, mt_revoked = False\<rparr>)"

text \<open>\<open>_audit\<close>: a row written without the notification hook, as the command line when nobody is signed in.\<close>

definition metrics_audit :: "request_ctx \<Rightarrow> string \<Rightarrow> nat \<Rightarrow> json \<Rightarrow> audit_log \<Rightarrow> audit_log" where
  "metrics_audit rq action i details lg =
     (let (uid, name, ip) = (case rq_user rq of
            Some (j, n) \<Rightarrow> (Some j, n, if or_empty (rq_addr rq) = [] then ''unknown'' else or_empty (rq_addr rq))
          | None \<Rightarrow> (None, ''cli'', ''cli''))
      in lg\<lparr>al_rows := al_rows lg @ [\<lparr>ar_id = fresh_id ar_id (al_rows lg), ar_timestamp = Some (rq_now rq),
              ar_user_id = uid, ar_username = name, ar_action = action, ar_target_type = Some ''metrics_token'',
              ar_target_id = Some i, ar_details = dumps_details (Some details), ar_ip = ip,
              ar_prev_hash = None, ar_entry_hash = None\<rparr>]\<rparr>)"

definition metrics_create :: "(string \<Rightarrow> string) \<Rightarrow> request_ctx \<Rightarrow> string \<Rightarrow> time option \<Rightarrow> nat option \<Rightarrow> string \<Rightarrow> string
    \<Rightarrow> store \<Rightarrow> token_error + (store \<times> string \<times> metrics_token)" where
  "metrics_create H rq name0 expires_at created_by tid secret st =
     (let name = strip_str name0
      in if name = [] then Inl Name_required
         else case expires_at of
           None \<Rightarrow> Inl Expiry_required
         | Some e \<Rightarrow>
             if first_row (\<lambda>t. mt_name t = name) (s_metrics st) \<noteq> None then Inl Duplicate_name
             else
               let (plain, row) = metrics_generate H (fresh_id mt_id (s_metrics st)) name e created_by (rq_now rq) tid secret;
                   w = s_world st
               in Inr (st\<lparr>s_metrics := s_metrics st @ [row],
                          s_world := w\<lparr>w_log := metrics_audit rq ''metrics_token_created'' (mt_id row)
                            (JObj [(''name'', JStr name), (''expires_at'', JStr (isoformat e))]) (w_log w)\<rparr>\<rparr>, plain, row))"

definition metrics_get :: "string \<Rightarrow> metrics_token list \<Rightarrow> metrics_token option" where
  "metrics_get s t =
     (case first_row (\<lambda>r. mt_name r = s) t of
        Some r \<Rightarrow> Some r
      | None \<Rightarrow> (case pk_of s of None \<Rightarrow> None | Some i \<Rightarrow> get_row mt_id i t))"

definition metrics_revoke :: "request_ctx \<Rightarrow> string \<Rightarrow> store \<Rightarrow> store \<times> metrics_token option" where
  "metrics_revoke rq s st =
     (case metrics_get s (s_metrics st) of
        None \<Rightarrow> (st, None)
      | Some row \<Rightarrow>
          if mt_revoked row then (st, Some row)
          else let row' = row\<lparr>mt_revoked := True\<rparr>; w = s_world st
               in (st\<lparr>s_metrics := put_row mt_id row' (s_metrics st),
                      s_world := w\<lparr>w_log := metrics_audit rq ''metrics_token_revoked'' (mt_id row)
                        (JObj [(''name'', JStr (mt_name row))]) (w_log w)\<rparr>\<rparr>, Some row'))"

definition metrics_verify :: "(string \<Rightarrow> string) \<Rightarrow> time \<Rightarrow> string \<Rightarrow> store \<Rightarrow> metrics_token option" where
  "metrics_verify H now presented st =
     (case metrics_split presented of
        None \<Rightarrow> None
      | Some (token_id, secret) \<Rightarrow>
          (case first_row (\<lambda>r. mt_token_id r = token_id) (s_metrics st) of
             None \<Rightarrow> None
           | Some r \<Rightarrow> if \<not> metrics_is_valid now r then None
                       else if mt_token_hash r \<noteq> H secret then None else Some r))"

definition metrics_touch :: "time \<Rightarrow> metrics_token \<Rightarrow> store \<Rightarrow> store" where
  "metrics_touch now row st =
     st\<lparr>s_metrics := put_row mt_id (row\<lparr>mt_last_used_at := touched now (mt_last_used_at row)\<rparr>) (s_metrics st)\<rparr>"

text \<open>\<open>_bearer\<close> and the guard of the \<open>/metrics\<close> view.\<close>

definition bearer_of :: "string \<Rightarrow> string" where
  "bearer_of header = (if startswith header ''Bearer '' then strip_str (drop 7 header) else [])"

datatype scrape = Scrape_not_found | Scrape_unauthorized | Scrape_served

definition metrics_view :: "(string \<Rightarrow> string) \<Rightarrow> bool \<Rightarrow> bool \<Rightarrow> time \<Rightarrow> string \<Rightarrow> store \<Rightarrow> store \<times> scrape" where
  "metrics_view H enabled allow_unauthenticated now header st =
     (if \<not> enabled then (st, Scrape_not_found)
      else if allow_unauthenticated then (st, Scrape_served)
      else case metrics_verify H now (bearer_of header) st of
             None \<Rightarrow> (st, Scrape_unauthorized)
           | Some row \<Rightarrow> (metrics_touch now row st, Scrape_served))"

end
