(* ===== verification/RequestGate.thy ===== *)
theory RequestGate
  imports Tokens Totp
begin

text \<open>
  What happens to a request before its view runs: \<open>check_basic_auth\<close>,
  \<open>_check_api_token\<close> and the password-change guard of \<open>app/__init__.py\<close>, the
  CSRF exemption of \<open>app/extensions.py\<close>, Flask-Login's choice of the current user
  and the guards of \<open>app/decorators.py\<close>, and the token views of
  \<open>app/routes/users.py\<close>.
\<close>

section \<open>Requests\<close>

text \<open>
  \<open>hr_basic\<close> holds the credentials werkzeug parsed from a Basic header, \<open>hr_session\<close>
  the user id of the session cookie with the session version stamped on it.
\<close>

record http_request =
  hr_method :: string
  hr_endpoint :: "string option"
  hr_blueprint :: "string option"
  hr_authorization :: string
  hr_basic :: "(string \<times> string) option"
  hr_session :: "(nat \<times> nat option) option"
  hr_cross_site :: bool
  hr_addr :: "string option"
  hr_now :: time

text \<open>The request globals \<open>flask.g\<close> the hooks set.\<close>

record globals =
  g_basic_used :: bool
  g_user :: "nat option"
  g_token :: "nat option"

definition no_globals :: globals where
  "no_globals = \<lparr>g_basic_used = False, g_user = None, g_token = None\<rparr>"

datatype reply = Proceed | Answer nat string

record gate_config =
  gc_auth :: auth_config
  gc_ldap :: ldap_config
  gc_basic_enabled :: bool
  gc_require_2fa :: string
  gc_require_2fa_admins :: bool

text \<open>
  Flask-Login: the session's user when its loader accepts it, else the one the
  request loader finds in \<open>g\<close>; \<open>login_required\<close> and the log then ask
  \<open>is_authenticated\<close>, which is \<open>is_active\<close>.
\<close>

definition current_user :: "http_request \<Rightarrow> globals \<Rightarrow> user list \<Rightarrow> user option" where
  "current_user hr g t =
     (case (case hr_session hr of None \<Rightarrow> None | Some (i, sv) \<Rightarrow> load_user i sv t) of
        Some u \<Rightarrow> Some u
      | None \<Rightarrow> (case g_user g of None \<Rightarrow> None | Some i \<Rightarrow> get_row u_id i t))"

definition request_ctx_of :: "http_request \<Rightarrow> globals \<Rightarrow> user list \<Rightarrow> request_ctx" where
  "request_ctx_of hr g t =
     \<lparr>rq_user = (case current_user hr g t of
          None \<Rightarrow> None | Some u \<Rightarrow> if u_active u then Some (u_id u, u_username u) else None),
      rq_addr = hr_addr hr, rq_now = hr_now hr\<rparr>"

section \<open>The hooks\<close>

fun reason_name :: "auth_reason \<Rightarrow> string" where
  "reason_name Invalid = ''invalid_credentials''"
| "reason_name Deactivated = ''account_deactivated''"
| "reason_name Pending_approval = ''account_pending''"
| "reason_name Ldap_unreachable = ''ldap_unreachable''"
| "reason_name Ldap_no_role = ''ldap_no_role''"
| "reason_name Locked = ''account_locked''"

definition log_gate :: "http_request \<Rightarrow> globals \<Rightarrow> string \<Rightarrow> string \<Rightarrow> nat option \<Rightarrow> json \<Rightarrow> store \<Rightarrow> store" where
  "log_gate hr g action target i details st =
     (let w = s_world st
      in st\<lparr>s_world := w\<lparr>w_log := log_action (request_ctx_of hr g (w_users w)) None action (Some target) i (Some details) (w_log w)\<rparr>\<rparr>)"

definition json_option :: "string option \<Rightarrow> json" where
  "json_option x = (case x of None \<Rightarrow> JNull | Some s \<Rightarrow> JStr s)"

definition check_api_token :: "(string \<Rightarrow> string) \<Rightarrow> http_request \<Rightarrow> string \<Rightarrow> store \<Rightarrow> store \<times> globals \<times> reply" where
  "check_api_token H hr presented st =
     (if hr_blueprint hr = Some ''metrics'' then (st, no_globals, Proceed)
      else if \<not> startswith presented API_PREFIX then
        let kind = (if startswith presented ''cmt_'' then ''metrics token'' else ''unknown bearer token'')
        in (log_gate hr no_globals ''api_token_auth_failed'' ''api_token'' None (JObj [(''reason'', JStr kind)]) st,
            no_globals, Answer 401 kind)
      else
        (case api_verify H (hr_now hr) presented st of
           None \<Rightarrow>
             let rest = drop (length API_PREFIX) presented;
                 token_id = take 32 (case partition_at (CHR ''_'') rest of None \<Rightarrow> rest | Some (a, b) \<Rightarrow> a)
             in (log_gate hr no_globals ''api_token_auth_failed'' ''api_token'' None
                   (JObj [(''reason'', JStr ''invalid, expired, revoked, or owner deactivated''), (''token_id'', JStr token_id)]) st,
                 no_globals, Answer 401 ''Invalid or expired API token.'')
         | Some row \<Rightarrow>
             let g = \<lparr>g_basic_used = True, g_user = Some (at_user_id row), g_token = Some (at_id row)\<rparr>;
                 st1 = api_touch (hr_now hr) row st
             in if (case get_row u_id (at_user_id row) (w_users (s_world st)) of None \<Rightarrow> False | Some u \<Rightarrow> u_must_change u)
                then (st1, g, Answer 403 ''Password change required'')
                else (case required_scope (hr_method hr) (hr_endpoint hr) of
                        None \<Rightarrow> (st1, g, Proceed)
                      | Some scope \<Rightarrow>
                          (case api_scopes row of
                             None \<Rightarrow> (st1, g, Answer 500 ''TypeError'')
                           | Some scopes \<Rightarrow>
                               if has_scope scope scopes then (st1, g, Proceed)
                               else (log_gate hr g ''api_token_scope_denied'' ''api_token'' (Some (at_id row))
                                       (JObj [(''required'', JStr scope), (''scopes'', JArr scopes),
                                              (''endpoint'', json_option (hr_endpoint hr)), (''method'', JStr (hr_method hr))]) st1,
                                     g, Answer 403 scope)))))"

text \<open>Basic credentials, once \<open>BASIC_AUTH_ENABLED\<close> and the header's type are checked; \<open>res\<close> is the outcome of \<open>authenticate_basic\<close>.\<close>

definition basic_outcome :: "gate_config \<Rightarrow> http_request \<Rightarrow> string \<Rightarrow> auth_result \<Rightarrow> store \<Rightarrow> store \<times> globals \<times> reply" where
  "basic_outcome gc hr name res st =
     (case (auth_ok res, au_user res) of
        (True, Some u) \<Rightarrow>
          (let g = \<lparr>g_basic_used = True, g_user = Some (u_id u), g_token = None\<rparr>;
               st1 = log_gate hr g ''basic_auth_success'' ''user'' (Some (u_id u))
                 (JObj [(''username'', JStr (u_username u)), (''auth_method'', JStr ''basic_auth''),
                        (''auth_backend'', JStr (au_method res))]) st
           in if u_totp_enabled u then (st1, g, Answer 403 ''This account uses two-factor authentication'')
              else if u_must_change u then (st1, g, Answer 403 ''Password change required'')
              else if enforced_for (gc_require_2fa gc) (gc_require_2fa_admins gc) u
                   then (st1, g, Answer 403 ''Two-factor authentication is required for this account'')
              else (st1, g, Proceed))
      | _ \<Rightarrow>
          (let known = (\<lambda>n. first_row (\<lambda>u. u_username u = n) (w_users (s_world st)) \<noteq> None);
               st1 = log_gate hr no_globals ''basic_auth_failed'' ''user'' None
                 (JObj [(''username'', JStr (sanitize_username_for_log known name)), (''auth_method'', JStr ''basic_auth''),
                        (''reason'', json_option (map_option reason_name (au_reason res)))]) st
           in if au_reason res = Some Ldap_unreachable then (st1, no_globals, Answer 503 ''Directory service unavailable.'')
              else (st1, no_globals, Proceed)))"

definition check_basic_auth :: "(string \<Rightarrow> string) \<Rightarrow> (string \<Rightarrow> string) \<Rightarrow> gate_config \<Rightarrow> directory \<Rightarrow> (string \<Rightarrow> string \<Rightarrow> bool)
    \<Rightarrow> time \<Rightarrow> http_request \<Rightarrow> store \<Rightarrow> store \<times> globals \<times> reply" where
  "check_basic_auth H mac gc dir check clock hr st =
     (if startswith (hr_authorization hr) ''Bearer '' then
        check_api_token H hr (strip_str (drop 7 (hr_authorization hr))) st
      else if \<not> gc_basic_enabled gc then (st, no_globals, Proceed)
      else case hr_basic hr of
        None \<Rightarrow> (st, no_globals, Proceed)
      | Some (name, pw) \<Rightarrow>
          let (w', res) = authenticate_basic mac (gc_auth gc) (gc_ldap gc) dir check clock
                            (request_ctx_of hr no_globals (w_users (s_world st))) name pw (s_world st)
          in basic_outcome gc hr name res (st\<lparr>s_world := w'\<rparr>))"

definition csrf_exempt :: "http_request \<Rightarrow> globals \<Rightarrow> bool" where
  "csrf_exempt hr g \<longleftrightarrow> g_basic_used g \<and> \<not> hr_cross_site hr"

definition guard_exempt :: "string list" where
  "guard_exempt = [''auth.change_password'', ''auth.logout'', ''static'', ''auth.two_factor_setup'',
     ''auth.two_factor_disable'', ''auth.two_factor_recovery_codes'']"

definition require_password_change :: "gate_config \<Rightarrow> http_request \<Rightarrow> globals \<Rightarrow> user list \<Rightarrow> reply" where
  "require_password_change gc hr g t =
     (if g_basic_used g then Proceed
      else if hr_blueprint hr \<in> Some ` {''public'', ''health'', ''metrics'', ''acme''}
              \<or> hr_endpoint hr \<in> Some ` set guard_exempt then Proceed
      else case current_user hr g t of
        None \<Rightarrow> Proceed
      | Some u \<Rightarrow>
          if \<not> u_active u then Proceed
          else if u_must_change u then Answer 302 ''auth.change_password''
          else if enforced_for (gc_require_2fa gc) (gc_require_2fa_admins gc) u \<and> \<not> u_totp_enabled u
               then Answer 302 ''auth.two_factor_setup''
          else Proceed)"

text \<open>
  The hooks in the order they are registered. A view that needs a CSRF token and
  is not exempt gets one checked by Flask-WTF: \<open>csrf_ok\<close> is its verdict.
\<close>

definition before_request :: "(string \<Rightarrow> string) \<Rightarrow> (string \<Rightarrow> string) \<Rightarrow> gate_config \<Rightarrow> directory \<Rightarrow> (string \<Rightarrow> string \<Rightarrow> bool)
    \<Rightarrow> time \<Rightarrow> http_request \<Rightarrow> bool \<Rightarrow> store \<Rightarrow> store \<times> globals \<times> reply" where
  "before_request H mac gc dir check clock hr csrf_ok st =
     (let (st1, g, r) = check_basic_auth H mac gc dir check clock hr st
      in if r \<noteq> Proceed then (st1, g, r)
         else if \<not> csrf_exempt hr g \<and> \<not> csrf_ok then (st1, g, Answer 400 ''csrf'')
         else (st1, g, require_password_change gc hr g (w_users (s_world st1))))"

section \<open>Guards of the views\<close>

datatype guard = Login_required | Admin_required | Role_required "string list"

definition guarded :: "guard \<Rightarrow> http_request \<Rightarrow> globals \<Rightarrow> user list \<Rightarrow> nat + user" where
  "guarded gd hr g t =
     (case current_user hr g t of
        None \<Rightarrow> Inl 401
      | Some u \<Rightarrow>
          if \<not> u_active u then Inl 401
          else case gd of
                 Login_required \<Rightarrow> Inr u
               | Admin_required \<Rightarrow> if is_admin u then Inr u else Inl 403
               | Role_required roles \<Rightarrow> if u_role u \<in> set roles then Inr u else Inl 403)"

text \<open>The answer to a request for a view with a guard: the user the view runs as, or the status.\<close>

definition serve :: "(string \<Rightarrow> string) \<Rightarrow> (string \<Rightarrow> string) \<Rightarrow> gate_config \<Rightarrow> directory \<Rightarrow> (string \<Rightarrow> string \<Rightarrow> bool)
    \<Rightarrow> time \<Rightarrow> http_request \<Rightarrow> bool \<Rightarrow> guard \<Rightarrow> store \<Rightarrow> store \<times> (nat + user)" where
  "serve H mac gc dir check clock hr csrf_ok gd st =
     (let (st1, g, r) = before_request H mac gc dir check clock hr csrf_ok st
      in case r of Answer code _ \<Rightarrow> (st1, Inl code)
                 | Proceed \<Rightarrow> (st1, guarded gd hr g (w_users (s_world st1))))"

section \<open>Token views\<close>

definition api_tokens_view :: "(string \<Rightarrow> string) \<Rightarrow> int \<Rightarrow> request_ctx \<Rightarrow> user \<Rightarrow> string \<Rightarrow> string list \<Rightarrow> int option
    \<Rightarrow> string \<Rightarrow> string \<Rightarrow> store \<Rightarrow> store \<times> (token_error + string \<times> api_token)" where
  "api_tokens_view H max_days rq me name scopes d tid secret st =
     (case api_create H max_days rq None me name scopes d (Some (u_id me)) tid secret st of
        Inl e \<Rightarrow> (st, Inl e)
      | Inr (st', plain, row) \<Rightarrow> (st', Inr (plain, row)))"

definition revoke_api_token_view :: "request_ctx \<Rightarrow> user \<Rightarrow> nat \<Rightarrow> store \<Rightarrow> store \<times> bool" where
  "revoke_api_token_view rq me i st =
     (case get_row at_id i (s_api st) of
        None \<Rightarrow> (st, False)
      | Some row \<Rightarrow>
          if at_user_id row \<noteq> u_id me \<and> \<not> is_admin me then (st, False)
          else (api_revoke rq None row st, True))"

end
