(* ===== verification/Tokens_Claims.thy ===== *)
theory Tokens_Claims
  imports RequestGate Auth_Claims
begin

text \<open>
  Correctness of bearer tokens and of the request gate. The contract both kinds
  of tokens share is the locale \<open>bearer_token\<close>, interpreted for each of them.
\<close>

section \<open>Bearer tokens\<close>

lemma split_bearer_Some:
  "split_bearer pre p = Some (i, s) \<longleftrightarrow> p = pre @ i @ CHR ''_'' # s \<and> CHR ''_'' \<notin> set i \<and> i \<noteq> [] \<and> s \<noteq> []"
proof
  assume a: "split_bearer pre p = Some (i, s)"
  then have "startswith p pre" and q: "partition_at (CHR ''_'') (drop (length pre) p) = Some (i, s)" "i \<noteq> []" "s \<noteq> []"
    by (auto simp: split_bearer_def split: if_splits option.splits)
  then obtain r where r: "p = pre @ r" by (auto simp: startswith_prefix prefix_def)
  with q partition_at_Some [OF q(1)] show "p = pre @ i @ CHR ''_'' # s \<and> CHR ''_'' \<notin> set i \<and> i \<noteq> [] \<and> s \<noteq> []" by simp
next
  assume "p = pre @ i @ CHR ''_'' # s \<and> CHR ''_'' \<notin> set i \<and> i \<noteq> [] \<and> s \<noteq> []"
  then show "split_bearer pre p = Some (i, s)" by (simp add: split_bearer_def partition_at_append)
qed

lemma first_row_key: "distinct (map f xs) \<Longrightarrow> x \<in> set xs \<Longrightarrow> first_row (\<lambda>y. f y = f x) xs = Some x"
  by (induction xs) (auto simp: first_row_def rev_image_eqI)

locale bearer_token =
  fixes prefix_of :: string
    and H :: "string \<Rightarrow> string"
    and verify_token :: "time \<Rightarrow> string \<Rightarrow> 's \<Rightarrow> 't option"
    and rows :: "'s \<Rightarrow> 't list"
    and tid :: "'t \<Rightarrow> string"
    and thash :: "'t \<Rightarrow> string"
    and alive :: "time \<Rightarrow> 's \<Rightarrow> 't \<Rightarrow> bool"
  assumes verify_eq: "verify_token now p s =
     (case split_bearer prefix_of p of
        None \<Rightarrow> None
      | Some (i, sec) \<Rightarrow>
          (case first_row (\<lambda>t. tid t = i) (rows s) of
             None \<Rightarrow> None
           | Some t \<Rightarrow> if alive now s t \<and> thash t = H sec then Some t else None))"
begin

lemma accepted_token:
  assumes "verify_token now p s = Some t"
  shows "\<exists>sec. p = prefix_of @ tid t @ CHR ''_'' # sec \<and> thash t = H sec \<and> t \<in> set (rows s) \<and> alive now s t"
  using assms by (auto simp: verify_eq split_bearer_Some split: option.splits if_splits dest!: first_row_SomeD)

lemma issued_token:
  assumes "t \<in> set (rows s)" "distinct (map tid (rows s))" "tid t \<noteq> []" "CHR ''_'' \<notin> set (tid t)" "sec \<noteq> []" "thash t = H sec"
  shows "verify_token now (prefix_of @ tid t @ CHR ''_'' # sec) s = (if alive now s t then Some t else None)"
proof -
  have "first_row (\<lambda>x. tid x = tid t) (rows s) = Some t"
    by (rule first_row_key [OF assms(2,1)])
  moreover have "split_bearer prefix_of (prefix_of @ tid t @ CHR ''_'' # sec) = Some (tid t, sec)"
    using assms by (subst split_bearer_Some) simp
  ultimately show ?thesis using assms(6) by (simp add: verify_eq)
qed

text \<open>Two texts accepted for one row are equal, unless the digest collides.\<close>

lemma one_secret:
  assumes "verify_token now p s = Some t" "verify_token now' p' s' = Some t'" "tid t' = tid t" "thash t' = thash t" "p \<noteq> p'"
  shows "\<exists>a b. a \<noteq> b \<and> H a = H b"
  using accepted_token [OF assms(1)] accepted_token [OF assms(2)] assms(3-5) by metis

end

definition api_alive :: "time \<Rightarrow> store \<Rightarrow> api_token \<Rightarrow> bool" where
  "api_alive now st t \<longleftrightarrow> api_is_valid now t \<and>
     (case get_row u_id (at_user_id t) (w_users (s_world st)) of None \<Rightarrow> False | Some u \<Rightarrow> u_active u)"

interpretation api: bearer_token API_PREFIX H "api_verify H" s_api at_token_id at_token_hash api_alive for H
  by unfold_locales (auto simp: api_verify_def api_split_def api_alive_def split: option.splits)

interpretation scrape: bearer_token METRICS_PREFIX H "metrics_verify H" s_metrics mt_token_id mt_token_hash
    "\<lambda>now st. metrics_is_valid now" for H
  by unfold_locales (auto simp: metrics_verify_def metrics_split_def split: option.splits)


section \<open>The life of a token\<close>

lemma api_create_ok:
  assumes "api_create H m rq actor u name scopes d cb tid sec st = Inr (st', plain, row)"
  shows "s_api st' = s_api st @ [row]" "plain = API_PREFIX @ tid @ CHR ''_'' # sec" "at_token_id row = tid"
    "at_token_hash row = H sec" "at_user_id row = u_id u" "at_id row = fresh_id at_id (s_api st)" "\<not> at_revoked row"
    "w_users (s_world st') = w_users (s_world st)" "u_active u"
    "rq_now rq < at_expires_at row" "at_expires_at row \<le> rq_now rq + days m"
    "\<exists>ss. normalise_scopes scopes = Inr ss \<and> at_scopes_json row = dumps Spaced (JArr (map JStr (sorted_scopes ss)))"
  using assms days_pos days_mono
  by (auto simp: api_create_def api_generate_def Let_def split: if_splits sum.splits option.splits)

text \<open>A new token opens its owner's account until it expires and no longer, within the configured maximum; it is
  refused from the moment it is revoked or its owner is deactivated, and the metrics endpoint never takes it.\<close>

theorem minted_token_life:
  assumes "api_create H m rq actor u name scopes d cb tid sec st = Inr (st', plain, row)"
    and "get_row u_id (u_id u) (w_users (s_world st)) = Some u"
    and "distinct (map at_token_id (s_api st))" "tid \<notin> at_token_id ` set (s_api st)"
    and "tid \<noteq> []" "CHR ''_'' \<notin> set tid" "sec \<noteq> []"
  shows "api_verify H now plain st' = (if now < at_expires_at row then Some row else None)
    \<and> at_expires_at row \<le> rq_now rq + days m
    \<and> api_verify H now plain (api_revoke rq' actor' row st') = None
    \<and> api_verify H now plain (st'\<lparr>s_world := put_user (u\<lparr>u_active := False\<rparr>) (s_world st')\<rparr>) = None
    \<and> metrics_verify H now plain st'' = None"
proof -
  note c = api_create_ok [OF assms(1)]
  have dist: "distinct (map at_token_id (s_api st'))" using assms(3,4) c(1,3) by auto
  have mem: "row \<in> set (s_api st')" using c(1) by simp
  have tk: "at_token_id row \<noteq> []" "CHR ''_'' \<notin> set (at_token_id row)" using assms c(3) by auto
  have alive: "api_alive now st' row \<longleftrightarrow> now < at_expires_at row"
    using c assms(2) by (simp add: api_alive_def api_is_valid_def)
  have 1: "api_verify H now plain st' = (if now < at_expires_at row then Some row else None)"
    using api.issued_token [where H = H and now = now, OF mem dist tk assms(7) c(4)] c(2,3) alive by simp
  let ?r = "row\<lparr>at_revoked := True\<rparr>"
  have rev: "s_api (api_revoke rq' actor' row st') = put_row at_id ?r (s_api st')"
    using c(7) by (simp add: api_revoke_def Let_def)
  have fresh: "x \<in> set (s_api st) \<Longrightarrow> at_id x \<noteq> at_id row" for x
    using c(6) fresh_id_gt [of x "s_api st" at_id] by simp
  have put: "put_row at_id ?r (s_api st') = s_api st @ [?r]"
    using c(1) fresh by (auto simp: put_row_def intro: map_idI)
  have 2: "api_verify H now plain (api_revoke rq' actor' row st') = None"
    using api.issued_token [of ?r "api_revoke rq' actor' row st'" sec H now] dist mem tk assms(7) c rev put
    by (simp add: api_alive_def api_is_valid_def)
  let ?off = "st'\<lparr>s_world := put_user (u\<lparr>u_active := False\<rparr>) (s_world st')\<rparr>"
  have "\<not> api_alive now ?off row"
    using c(5,8) assms(2) by (simp add: api_alive_def put_user_def get_put_same)
  then have 3: "api_verify H now plain ?off = None"
    using api.issued_token [of row ?off sec H now] dist mem tk assms(7) c by simp
  have "split_bearer METRICS_PREFIX plain = None"
    using c(2) by (simp add: split_bearer_def startswith_def METRICS_PREFIX_def API_PREFIX_def)
  then have 4: "metrics_verify H now plain st'' = None" by (simp add: metrics_verify_def metrics_split_def)
  from 1 2 3 4 c(11) show ?thesis by blast
qed

definition demo_store :: store where
  "demo_store = \<lparr>s_world = demo_world, s_api = [], s_metrics = []\<rparr>"

definition demo_token :: api_token where
  "demo_token = \<lparr>at_id = 1, at_user_id = 2, at_name = ''ci'', at_token_id = ''ab12'', at_token_hash = ''s3'',
     at_scopes_json = dumps Spaced (JArr [JStr ''read'']), at_expires_at = days 3, at_created_at = Some (days 1),
     at_created_by = None, at_last_used_at = None, at_revoked = False\<rparr>"

lemma demo_create:
  "\<exists>st'. api_create id 365 (anon_rq (days 1)) None (demo_user 2 ''bob'' ''csr_requester'') ''ci'' [''Read''] (Some 2) None ''ab12'' ''s3'' demo_store
     = Inr (st', ''chy_api_ab12_s3'', demo_token)"
proof -
  have n: "normalise_scopes [''Read''] = Inr [''read'']" "strip_str ''ci'' = ''ci''"
    by code_simp+
  show ?thesis
    by (simp add: api_create_def n demo_store_def first_row_def demo_defs api_generate_def API_PREFIX_def fresh_id_def
        demo_token_def sorted_scopes_def days_eq Let_def)
qed

theorem minted_token_life_witness:
  "\<exists>st'. api_verify id (days 2) ''chy_api_ab12_s3'' st' = Some demo_token
    \<and> api_verify id (days 3) ''chy_api_ab12_s3'' st' = None"
proof -
  obtain st' where c: "api_create id 365 (anon_rq (days 1)) None (demo_user 2 ''bob'' ''csr_requester'') ''ci'' [''Read''] (Some 2)
      None ''ab12'' ''s3'' demo_store = Inr (st', ''chy_api_ab12_s3'', demo_token)"
    using demo_create by blast
  have "api_verify id now ''chy_api_ab12_s3'' st' = (if now < at_expires_at demo_token then Some demo_token else None)" for now
    using minted_token_life [OF c, of now] by (auto simp: demo_store_def demo_defs get_row_def)
  then have "api_verify id (days 2) ''chy_api_ab12_s3'' st' = Some demo_token
    \<and> api_verify id (days 3) ''chy_api_ab12_s3'' st' = None"
    by (simp add: demo_token_def days_eq)
  then show ?thesis ..
qed

end
