(* ===== verification/Gate_Claims.thy ===== *)
theory Gate_Claims
  imports Tokens_Claims
begin

text \<open>
  What a view may conclude from having been reached: each of the three ways to
  authenticate a request (API token, Basic credentials, session) is sound.
\<close>

section \<open>Lemmas on the hooks\<close>

lemma log_gate_users [simp]: "w_users (s_world (log_gate hr g a t i d st)) = w_users (s_world st)"
  by (simp add: log_gate_def Let_def)

lemma api_touch_users [simp]: "s_world (api_touch now r st) = s_world st"
  by (simp add: api_touch_def)

lemma guarded_user:
  assumes "guarded gd hr g t = Inr u"
  shows "current_user hr g t = Some u" "u_active u" "gd = Admin_required \<Longrightarrow> is_admin u"
    "gd = Role_required rs \<Longrightarrow> u_role u \<in> set rs"
  using assms by (auto simp: guarded_def split: option.splits if_splits guard.splits)

lemma serve_reached:
  assumes "serve H mac gc dir check clock hr csrf_ok gd st = (st', Inr u)"
  shows "\<exists>g. check_basic_auth H mac gc dir check clock hr st = (st', g, Proceed) \<and> (csrf_exempt hr g \<or> csrf_ok)
    \<and> require_password_change gc hr g (w_users (s_world st')) = Proceed
    \<and> guarded gd hr g (w_users (s_world st')) = Inr u"
  using assms
  by (auto simp: serve_def before_request_def Let_def split: prod.splits reply.splits if_splits)

text \<open>\<open>usable\<close>: the scopes of the row can be read and cover the request.\<close>

definition usable :: "http_request \<Rightarrow> api_token \<Rightarrow> bool" where
  "usable hr t \<longleftrightarrow> (case required_scope (hr_method hr) (hr_endpoint hr) of None \<Rightarrow> True
     | Some s \<Rightarrow> (case api_scopes t of None \<Rightarrow> False | Some ss \<Rightarrow> has_scope s ss))"

lemma check_api_token_proceeds:
  assumes "check_api_token H hr p st = (st', g, Proceed)" "hr_blueprint hr \<noteq> Some ''metrics''"
  shows "\<exists>row u. api_verify H (hr_now hr) p st = Some row \<and> usable hr row
    \<and> get_row u_id (at_user_id row) (w_users (s_world st)) = Some u \<and> u_active u \<and> \<not> u_must_change u
    \<and> g = \<lparr>g_basic_used = True, g_user = Some (at_user_id row), g_token = Some (at_id row)\<rparr>
    \<and> st' = api_touch (hr_now hr) row st"
proof -
  obtain row where v: "api_verify H (hr_now hr) p st = Some row"
    using assms by (auto simp: check_api_token_def Let_def split: if_splits option.splits)
  obtain u where u: "get_row u_id (at_user_id row) (w_users (s_world st)) = Some u" "u_active u"
    using api.accepted_token [OF v] by (auto simp: api_alive_def split: option.splits)
  show ?thesis
    using assms v u by (auto simp: check_api_token_def usable_def Let_def split: if_splits option.splits)
qed

section \<open>Tokens\<close>

text \<open>C4. A view reached with a Bearer header was reached with the secret of a stored API token that is neither revoked nor
  expired, carries the scope its method and endpoint need, and belongs to an active account without a pending
  password change; without a session cookie the view runs as that account, so it passes the role guard of the
  account's role and nothing more.\<close>

theorem token_request_sound:
  assumes "serve H mac gc dir check clock hr csrf_ok gd st = (st', Inr u)"
    and "startswith (hr_authorization hr) ''Bearer ''" "hr_blueprint hr \<noteq> Some ''metrics''"
  shows "\<exists>row secret owner. row \<in> set (s_api st)
    \<and> strip_str (drop 7 (hr_authorization hr)) = API_PREFIX @ at_token_id row @ CHR ''_'' # secret
    \<and> at_token_hash row = H secret \<and> \<not> at_revoked row \<and> hr_now hr < at_expires_at row \<and> usable hr row
    \<and> get_row u_id (at_user_id row) (w_users (s_world st)) = Some owner \<and> u_active owner \<and> \<not> u_must_change owner
    \<and> (hr_session hr = None \<longrightarrow> u = owner)
    \<and> (gd = Admin_required \<longrightarrow> is_admin u) \<and> (\<forall>rs. gd = Role_required rs \<longrightarrow> u_role u \<in> set rs)"
proof -
  obtain g where g: "check_basic_auth H mac gc dir check clock hr st = (st', g, Proceed)"
    and gd: "guarded gd hr g (w_users (s_world st')) = Inr u"
    using serve_reached [OF assms(1)] by blast
  from g assms(2) have c: "check_api_token H hr (strip_str (drop 7 (hr_authorization hr))) st = (st', g, Proceed)"
    by (simp add: check_basic_auth_def)
  obtain row owner where r: "api_verify H (hr_now hr) (strip_str (drop 7 (hr_authorization hr))) st = Some row" "usable hr row"
    and o: "get_row u_id (at_user_id row) (w_users (s_world st)) = Some owner" "u_active owner" "\<not> u_must_change owner"
    and g': "g = \<lparr>g_basic_used = True, g_user = Some (at_user_id row), g_token = Some (at_id row)\<rparr>"
    and st': "st' = api_touch (hr_now hr) row st"
    using check_api_token_proceeds [OF c assms(3)] by blast
  have "hr_session hr = None \<Longrightarrow> u = owner"
    using guarded_user(1) [OF gd] o(1) by (simp add: g' st' current_user_def)
  with api.accepted_token [OF r(1)] r(2) o guarded_user [OF gd] show ?thesis
    by (fastforce simp: api_alive_def api_is_valid_def)
qed

definition demo_gc :: gate_config where
  "demo_gc = \<lparr>gc_auth = demo_cf, gc_ldap = demo_lc, gc_basic_enabled = True, gc_require_2fa = ''admins'', gc_require_2fa_admins = False\<rparr>"

definition demo_plain :: string where
  "demo_plain = ''chy_api_ab12_s3''"

definition demo_auth :: string where
  "demo_auth = ''Bearer chy_api_ab12_s3''"

definition demo_issuer :: api_token where
  "demo_issuer = demo_token\<lparr>at_scopes_json := dumps Spaced (JArr [JStr ''issue''])\<rparr>"

definition demo_hr :: "string \<Rightarrow> string \<Rightarrow> http_request" where
  "demo_hr meth auth = \<lparr>hr_method = meth, hr_endpoint = Some ''certificates.create'', hr_blueprint = Some ''certificates'',
     hr_authorization = auth, hr_basic = None, hr_session = None, hr_cross_site = False, hr_addr = None, hr_now = days 2\<rparr>"

definition demo_tokens :: store where
  "demo_tokens = \<lparr>s_world = demo_world, s_api = [demo_issuer], s_metrics = []\<rparr>"

lemma demo_verify: "api_verify id (days 2) demo_plain demo_tokens
    = Some demo_issuer"
proof -
  have "split_bearer API_PREFIX demo_plain = Some (''ab12'', ''s3'')"
    by (subst split_bearer_Some) (simp add: API_PREFIX_def demo_plain_def)
  then show ?thesis
    by (simp add: api_verify_def api_split_def demo_tokens_def demo_issuer_def demo_token_def first_row_def api_is_valid_def days_eq
        get_row_def demo_defs)
qed

lemma demo_served:
  "snd (serve id id demo_gc demo_dir (\<lambda>h p. h = p) 0 (demo_hr ''POST'' demo_auth) False
     (Role_required [''csr_requester'']) demo_tokens) = Inr (demo_user 2 ''bob'' ''csr_requester'')"
proof -
  have s: "startswith demo_auth ''Bearer ''" "strip_str (drop 7 demo_auth) = demo_plain"
    "startswith demo_plain API_PREFIX" "required_scope ''POST'' (Some ''certificates.create'') = Some ''issue''"
    by code_simp+
  have sc: "api_scopes demo_issuer = Some [JStr ''issue'']"
    by (simp add: api_scopes_def demo_issuer_def del: dumps.simps)
  have u: "get_row u_id 2 (w_users demo_world) = Some (demo_user 2 ''bob'' ''csr_requester'')"
    "\<not> u_must_change (demo_user 2 ''bob'' ''csr_requester'')" "u_active (demo_user 2 ''bob'' ''csr_requester'')"
    "u_role (demo_user 2 ''bob'' ''csr_requester'') = ''csr_requester''"
    by (simp_all add: get_row_def demo_defs)
  have t: "at_user_id demo_issuer = 2" by (simp add: demo_issuer_def demo_token_def)
  have w: "s_world demo_tokens = demo_world" by (simp add: demo_tokens_def)
  show ?thesis
    unfolding serve_def before_request_def check_basic_auth_def check_api_token_def
    by (simp add: demo_hr_def s demo_verify sc has_scope_def u t w csrf_exempt_def require_password_change_def
        guarded_def current_user_def Let_def)
qed

theorem token_request_sound_witness:
  "usable (demo_hr ''POST'' demo_auth) demo_issuer"
proof -
  let ?hr = "demo_hr ''POST'' demo_auth"
  obtain st' where s: "serve id id demo_gc demo_dir (\<lambda>h p. h = p) 0 ?hr False (Role_required [''csr_requester'']) demo_tokens
      = (st', Inr (demo_user 2 ''bob'' ''csr_requester''))"
    using demo_served by (metis prod.collapse)
  have "startswith (hr_authorization ?hr) ''Bearer ''" "hr_blueprint ?hr \<noteq> Some ''metrics''"
    by (simp_all add: demo_hr_def demo_auth_def startswith_def)
  from token_request_sound [OF s this] show ?thesis
    by (auto simp: demo_tokens_def)
qed

section \<open>Basic credentials\<close>



lemma lower_admins: "lower_str ''admins'' = ''admins''"
  by code_simp




section \<open>Sessions\<close>

text \<open>C21. A view reached without an Authorization header runs as the active account of a session whose version stamp is
  current, with a checked CSRF token; unless the view belongs to the exempt few, that account has neither a
  pending password change nor an outstanding obligation to enrol a second factor.\<close>

theorem session_request_sound:
  assumes "serve H mac gc dir check clock hr csrf_ok gd st = (st', Inr u)"
    and "hr_authorization hr = []" "hr_basic hr = None"
  shows "\<exists>i sv. hr_session hr = Some (i, sv) \<and> get_row u_id i (w_users (s_world st)) = Some u \<and> u_active u
    \<and> (sv = None \<or> sv = Some (u_session_version u)) \<and> csrf_ok
    \<and> (hr_blueprint hr \<in> Some ` {''public'', ''health'', ''metrics'', ''acme''} \<or> hr_endpoint hr \<in> Some ` set guard_exempt
       \<or> \<not> u_must_change u \<and> (enforced_for (gc_require_2fa gc) (gc_require_2fa_admins gc) u \<longrightarrow> u_totp_enabled u))"
proof -
  obtain g where g: "check_basic_auth H mac gc dir check clock hr st = (st', g, Proceed)"
    and csrf: "csrf_exempt hr g \<or> csrf_ok"
    and rp: "require_password_change gc hr g (w_users (s_world st')) = Proceed"
    and gd: "guarded gd hr g (w_users (s_world st')) = Inr u"
    using serve_reached [OF assms(1)] by blast
  have gs: "g = no_globals" "st' = st"
    using g assms(2,3) by (auto simp: check_basic_auth_def startswith_def split: if_splits)
  note u = guarded_user(1,2) [OF gd]
  obtain i sv where i: "hr_session hr = Some (i, sv)" "load_user i sv (w_users (s_world st)) = Some u"
    using u(1) by (auto simp: gs current_user_def no_globals_def split: option.splits)
  then have l: "get_row u_id i (w_users (s_world st)) = Some u" "sv = None \<or> sv = Some (u_session_version u)"
    by (auto simp: load_user_def split: option.splits if_splits)
  have "hr_blueprint hr \<in> Some ` {''public'', ''health'', ''metrics'', ''acme''} \<or> hr_endpoint hr \<in> Some ` set guard_exempt
     \<or> \<not> u_must_change u \<and> (enforced_for (gc_require_2fa gc) (gc_require_2fa_admins gc) u \<longrightarrow> u_totp_enabled u)"
    using rp u unfolding gs require_password_change_def
    by (auto simp: no_globals_def split: if_splits)
  with i(1) l u(2) csrf show ?thesis by (auto simp: gs csrf_exempt_def no_globals_def)
qed

definition demo_session :: http_request where
  "demo_session = (demo_hr ''GET'' [])\<lparr>hr_session := Some (2, Some 1)\<rparr>"

theorem session_request_sound_witness:
  "get_row u_id 2 (w_users demo_world) = Some (demo_user 2 ''bob'' ''csr_requester'')"
proof -
  have e: "\<not> enforced_for ''admins'' False (demo_user 2 ''bob'' ''csr_requester'')"
    by (simp add: enforced_for_def enforcement_mode_def lower_admins demo_defs is_admin_def Let_def)
  let ?bob = "demo_user 2 ''bob'' ''csr_requester''"
  have bob: "\<not> u_must_change ?bob" "u_active ?bob" "u_session_version ?bob = 1"
    by (simp_all add: demo_user_def new_user_def)
  have row: "get_row u_id 2 (w_users demo_world) = Some ?bob" by (simp add: demo_defs get_row_def)
  have hr: "hr_authorization demo_session = []" "hr_basic demo_session = None" "hr_session demo_session = Some (2, Some 1)"
    by (simp_all add: demo_session_def demo_hr_def)
  have "serve id id demo_gc demo_dir (\<lambda>h p. h = p) 0 demo_session True Login_required demo_tokens = (demo_tokens, Inr ?bob)"
    using e bob row hr
    by (simp add: serve_def before_request_def check_basic_auth_def startswith_def demo_gc_def no_globals_def
        require_password_change_def guarded_def current_user_def load_user_def demo_tokens_def)
  from session_request_sound [OF this] show ?thesis
    by (simp add: demo_session_def demo_hr_def demo_tokens_def)
qed

end
