(* ===== verification/Names.thy ===== *)
theory Names
  imports PyStrings Prelude
begin

text \<open>
  Subject alternative names and name constraints: \<open>app/services/san.py\<close> and
  \<open>app/services/name_constraints.py\<close>, with the parts of \<open>ipaddress\<close> and
  \<open>urllib.parse\<close> they use. A name is a pair of its kind and its value, as in the
  code; extensions hold such pairs.
\<close>

section \<open>Results\<close>

text \<open>\<open>require\<close> is a check that raises, \<open>and_then\<close> goes on with a computed value.\<close>

definition require :: "bool \<Rightarrow> 'e \<Rightarrow> ('e + 'a) \<Rightarrow> 'e + 'a" where
  "require c e r = (if c then r else Inl e)"

definition and_then :: "('e + 'a) \<Rightarrow> ('a \<Rightarrow> 'e + 'b) \<Rightarrow> 'e + 'b" where
  "and_then r f = (case r of Inl e \<Rightarrow> Inl e | Inr x \<Rightarrow> f x)"

lemma require_Inr [simp]: "require c e r = Inr x \<longleftrightarrow> c \<and> r = Inr x"
  by (simp add: require_def)

lemma require_True [simp]: "require True e r = r"
  by (simp add: require_def)

lemma require_False [simp]: "require False e r = Inl e"
  by (simp add: require_def)

lemma and_then_Inr: "and_then r f = Inr y \<longleftrightarrow> (\<exists>x. r = Inr x \<and> f x = Inr y)"
  by (cases r) (simp_all add: and_then_def)

lemma and_then_simps [simp]: "and_then (Inr x) f = f x" "and_then (Inl e) f = Inl e"
  by (simp_all add: and_then_def)

section \<open>Addresses\<close>

datatype ip = IPv4 nat | IPv6 nat

definition octet :: "string \<Rightarrow> nat option" where
  "octet s = (if s = [] \<or> \<not> list_all is_digit s \<or> 3 < length s then None
     else if 1 < length s \<and> hd s = CHR ''0'' then None
     else if 255 < read_nat s then None else Some (read_nat s))"

definition ipv4 :: "string \<Rightarrow> nat option" where
  "ipv4 s =
     (case map octet (split_at (CHR ''.'') s) of
        [Some a, Some b, Some c, Some d] \<Rightarrow> Some (((a * 256 + b) * 256 + c) * 256 + d)
      | _ \<Rightarrow> None)"

definition hextet_digit :: "char \<Rightarrow> nat option" where
  "hextet_digit c =
     (if is_digit c then Some (digit_val c)
      else let n = char_code (lower_char c) in if 97 \<le> n \<and> n \<le> 102 then Some (n - 87) else None)"

definition hextet :: "string \<Rightarrow> nat option" where
  "hextet s =
     (if s = [] \<or> 4 < length s \<or> \<not> list_all (\<lambda>c. hextet_digit c \<noteq> None) s then None
      else Some (fold (\<lambda>c n. 16 * n + the (hextet_digit c)) s 0))"

definition join16 :: "nat option list \<Rightarrow> nat option" where
  "join16 xs = (if None \<in> set xs then None else Some (fold (\<lambda>x n. 65536 * n + the x) xs 0))"

text \<open>The groups of an IPv6 address; an embedded IPv4 address counts as two.\<close>

definition groups6 :: "string \<Rightarrow> string list option" where
  "groups6 s =
     (let ps = split_at (CHR '':'') s
      in if length ps < 3 then None
         else if CHR ''.'' \<in> set (List.last ps) then
           (case ipv4 (List.last ps) of
              None \<Rightarrow> None
            | Some n \<Rightarrow>
                let hex4 = (\<lambda>k. map (\<lambda>i. ''0123456789abcdef'' ! (k div 16 ^ i mod 16)) [3, 2, 1, 0])
                in Some (butlast ps @ [hex4 (n div 65536), hex4 (n mod 65536)]))
         else Some ps)"

definition ipv6_groups :: "string list \<Rightarrow> nat option" where
  "ipv6_groups ps =
     (let n = length ps; inner = filter (\<lambda>i. ps ! i = []) [1..<n - 1]
      in if 9 < n then None
         else case inner of
           [] \<Rightarrow> if n \<noteq> 8 \<or> hd ps = [] \<or> List.last ps = [] then None else join16 (map hextet ps)
         | [i] \<Rightarrow>
             if (hd ps = [] \<and> i \<noteq> 1) \<or> (List.last ps = [] \<and> i \<noteq> n - 2) then None
             else
               let hi = (if hd ps = [] then [] else take i ps);
                   lo = (if List.last ps = [] then [] else drop (Suc i) ps)
               in if 7 < length hi + length lo then None
                  else join16 (map hextet hi @ replicate (8 - (length hi + length lo)) (Some 0) @ map hextet lo)
         | _ \<Rightarrow> None)"

definition ipv6 :: "string \<Rightarrow> nat option" where
  "ipv6 s0 =
     (case (case partition_at (CHR ''%'') s0 of
              None \<Rightarrow> Some s0
            | Some (a, scope) \<Rightarrow> if scope = [] \<or> CHR ''%'' \<in> set scope then None else Some a) of
        None \<Rightarrow> None
      | Some s \<Rightarrow> (case groups6 s of None \<Rightarrow> None | Some ps \<Rightarrow> ipv6_groups ps))"

definition ip_address :: "string \<Rightarrow> ip option" where
  "ip_address s =
     (if CHR ''/'' \<in> set s then None
      else case ipv4 s of Some n \<Rightarrow> Some (IPv4 n) | None \<Rightarrow> map_option IPv6 (ipv6 s))"

text \<open>\<open>ip_network(s, strict=True)\<close>: the address and the prefix length.\<close>

definition mask4 :: "string \<Rightarrow> nat option" where
  "mask4 s =
     (if s \<noteq> [] \<and> list_all is_digit s \<and> read_nat s \<le> 32 then Some (read_nat s)
      else case ipv4 s of
        None \<Rightarrow> None
      | Some m \<Rightarrow>
          (case find (\<lambda>p. m = 2 ^ 32 - 2 ^ (32 - p)) [0..<33] of
             Some p \<Rightarrow> Some p
           | None \<Rightarrow> find (\<lambda>p. m = 2 ^ (32 - p) - 1) [0..<33]))"

definition mask6 :: "string \<Rightarrow> nat option" where
  "mask6 s = (if s \<noteq> [] \<and> list_all is_digit s \<and> read_nat s \<le> 128 then Some (read_nat s) else None)"

definition ip_network :: "string \<Rightarrow> (ip \<times> nat) option" where
  "ip_network s =
     (let (addr, m4, m6) = (case split_at (CHR ''/'') s of
            [a] \<Rightarrow> (a, Some 32, Some 128)
          | [a, m] \<Rightarrow> (a, mask4 m, mask6 m)
          | _ \<Rightarrow> ([], None, None))
      in case (ipv4 addr, m4) of
           (Some n, Some p) \<Rightarrow> if n mod 2 ^ (32 - p) = 0 then Some (IPv4 n, p) else None
         | _ \<Rightarrow>
             (case (ipv6 addr, m6) of
                (Some n, Some p) \<Rightarrow> if n mod 2 ^ (128 - p) = 0 then Some (IPv6 n, p) else None
              | _ \<Rightarrow> None))"

fun in_network :: "ip \<Rightarrow> ip \<times> nat \<Rightarrow> bool" where
  "in_network (IPv4 a) (IPv4 n, p) = (a div 2 ^ (32 - p) = n div 2 ^ (32 - p))"
| "in_network (IPv6 a) (IPv6 n, p) = (a div 2 ^ (128 - p) = n div 2 ^ (128 - p))"
| "in_network _ _ = False"

section \<open>SAN entries\<close>

datatype name_error =
    San_prefix string | San_empty string | San_bad_ip string | San_rejected string string | Bad_url
  | Name_excluded string string nat | Name_not_permitted string string nat

definition san_kinds :: "(string \<times> string) list" where
  "san_kinds = [(''DNS'', ''dns''), (''IP'', ''ip''), (''EMAIL'', ''email''), (''URI'', ''uri''), (''UPN'', ''upn'')]"

definition san_parse_entry :: "string \<Rightarrow> name_error + (string \<times> string) option" where
  "san_parse_entry entry =
     (let raw = strip_str entry
      in if raw = [] then Inr None
         else case partition_at (CHR '':'') raw of
           None \<Rightarrow> Inr (Some (''dns'', raw))
         | Some (h, rest) \<Rightarrow>
             (case map_of san_kinds (upper_str (strip_str h)) of
                None \<Rightarrow> Inl (San_prefix raw)
              | Some kind \<Rightarrow> if strip_str rest = [] then Inl (San_empty raw) else Inr (Some (kind, strip_str rest))))"

text \<open>\<open>to_general_name\<close>; \<open>gn_ok\<close> is what pyca's GeneralName classes accept.\<close>

definition to_general_name :: "(string \<Rightarrow> string \<Rightarrow> bool) \<Rightarrow> string \<Rightarrow> string \<Rightarrow> name_error + (string \<times> string)" where
  "to_general_name gn_ok kind v =
     (if kind = ''ip'' then (case ip_address v of None \<Rightarrow> Inl (San_bad_ip v) | Some _ \<Rightarrow> Inr (kind, v))
      else if gn_ok kind v then Inr (kind, v) else Inl (San_rejected kind v))"

fun build_general_names :: "(string \<Rightarrow> string \<Rightarrow> bool) \<Rightarrow> string list \<Rightarrow> name_error + (string \<times> string) list" where
  "build_general_names gn_ok [] = Inr []"
| "build_general_names gn_ok (e # es) =
     and_then (san_parse_entry e) (\<lambda>p.
       case p of
         None \<Rightarrow> build_general_names gn_ok es
       | Some (k, v) \<Rightarrow> and_then (to_general_name gn_ok k v) (\<lambda>n. and_then (build_general_names gn_ok es) (\<lambda>ns. Inr (n # ns))))"

section \<open>Matching a name with a constraint\<close>

definition rstrip_dots :: "string \<Rightarrow> string" where
  "rstrip_dots s = rstrip_by (\<lambda>c. c = CHR ''.'') s"

definition lstrip_dots :: "string \<Rightarrow> string" where
  "lstrip_dots s = lstrip_by (\<lambda>c. c = CHR ''.'') s"

definition dns_within :: "string \<Rightarrow> string \<Rightarrow> bool" where
  "dns_within name0 constraint0 =
     (let name = rstrip_dots (lower_str name0); constraint = rstrip_dots (lower_str constraint0)
      in if startswith name ''*.'' then
           let base = drop 2 name
           in base = lstrip_dots constraint \<or> endswith base (CHR ''.'' # lstrip_dots constraint)
         else if startswith constraint ''.'' then endswith name constraint
         else name = constraint \<or> endswith name (CHR ''.'' # constraint))"

definition ip_within :: "string \<Rightarrow> string \<Rightarrow> bool" where
  "ip_within name constraint =
     (case (ip_network constraint, ip_address name) of (Some net, Some a) \<Rightarrow> in_network a net | _ \<Rightarrow> False)"

definition host_part :: "string \<Rightarrow> string" where
  "host_part s = (case rpartition_at (CHR ''@'') s of None \<Rightarrow> s | Some (_, h) \<Rightarrow> h)"

definition email_within :: "string \<Rightarrow> string \<Rightarrow> bool" where
  "email_within name0 constraint0 =
     (let name = lower_str name0; constraint = lower_str constraint0
      in if CHR ''@'' \<in> set constraint then name = constraint
         else if startswith constraint ''.'' then endswith (host_part name) constraint
         else host_part name = constraint)"

text \<open>\<open>urlsplit(s).hostname\<close>: Inl when \<open>urlsplit\<close> raises, Inr [] when there is no host.\<close>

definition scheme_char :: "char \<Rightarrow> bool" where
  "scheme_char c \<longleftrightarrow> is_digit c \<or> is_upper c \<or> is_lower c \<or> c \<in> set ''+-.''"

definition url_rest :: "string \<Rightarrow> string" where
  "url_rest s =
     (case partition_at (CHR '':'') s of
        None \<Rightarrow> s
      | Some (a, b) \<Rightarrow> if a \<noteq> [] \<and> (is_upper (hd a) \<or> is_lower (hd a)) \<and> list_all scheme_char a then b else s)"

definition bracketed_ok :: "string \<Rightarrow> bool" where
  "bracketed_ok h \<longleftrightarrow>
     (if h \<noteq> [] \<and> hd h \<in> {CHR ''v'', CHR ''V''} then
        (case partition_at (CHR ''.'') (tl h) of
           None \<Rightarrow> False
         | Some (a, b) \<Rightarrow> hd h = CHR ''v'' \<and> a \<noteq> [] \<and> list_all (\<lambda>c. hextet_digit c \<noteq> None) a \<and> b \<noteq> [])
      else ipv6 h \<noteq> None)"

definition url_hostname :: "string \<Rightarrow> unit + string" where
  "url_hostname s0 =
     (let s = filter (\<lambda>c. c \<notin> {CHR 0x09, CHR 0x0A, CHR 0x0D}) (lstrip_by (\<lambda>c. char_code c \<le> 32) s0);
          r = url_rest s
      in if \<not> startswith r ''//'' then Inr []
         else
           let netloc = takeWhile (\<lambda>c. c \<notin> set ''/?#'') (drop 2 r); hostinfo = host_part netloc;
               lower_host = (\<lambda>h. case partition_at (CHR ''%'') h of None \<Rightarrow> lower_str h | Some (a, z) \<Rightarrow> lower_str a @ CHR ''%'' # z)
           in if (CHR ''['' \<in> set netloc) \<noteq> (CHR '']'' \<in> set netloc) then Inl ()
              else case partition_at (CHR ''['') hostinfo of
                None \<Rightarrow> if CHR ''['' \<in> set netloc then Inl ()
                        else Inr (lower_host (takeWhile (\<lambda>c. c \<noteq> CHR '':'') hostinfo))
              | Some (before, rest) \<Rightarrow>
                  (case partition_at (CHR '']'') rest of
                     None \<Rightarrow> Inl ()
                   | Some (h, after) \<Rightarrow>
                       if before \<noteq> [] \<or> (after \<noteq> [] \<and> hd after \<noteq> CHR '':'') \<or> \<not> bracketed_ok h then Inl ()
                       else Inr (lower_host h)))"

definition uri_within :: "string \<Rightarrow> string \<Rightarrow> unit + bool" where
  "uri_within name constraint0 =
     and_then (url_hostname name) (\<lambda>h.
       let host = rstrip_dots (lower_str h); constraint = rstrip_dots (lower_str constraint0)
       in Inr (if host = [] then False
               else if startswith constraint ''.'' then endswith host constraint
               else host = constraint))"

definition name_within :: "string \<Rightarrow> string \<Rightarrow> string \<Rightarrow> unit + bool" where
  "name_within kind v constraint =
     (if kind = ''dns'' then Inr (dns_within v constraint)
      else if kind = ''ip'' then Inr (ip_within v constraint)
      else if kind = ''email'' then Inr (email_within v constraint)
      else uri_within v constraint)"

section \<open>Requested names\<close>

definition host_label :: "string \<Rightarrow> bool" where
  "host_label l \<longleftrightarrow> l \<noteq> [] \<and> length l \<le> 63 \<and> hd l \<noteq> CHR ''-'' \<and> List.last l \<noteq> CHR ''-''
     \<and> list_all (\<lambda>c. is_digit c \<or> is_upper c \<or> is_lower c \<or> c = CHR ''-'') l"

definition looks_like_hostname :: "string \<Rightarrow> bool" where
  "looks_like_hostname cn =
     (let s = strip_str cn; t = (if startswith s ''*.'' then drop 2 s else s);
          ls = split_at (CHR ''.'') t; ms = (if List.last ls = [] then butlast ls else ls)
      in s \<noteq> [] \<and> 2 \<le> length ms \<and> list_all host_label ms)"

definition constrained_kinds :: "string list" where
  "constrained_kinds = [''dns'', ''ip'', ''email'', ''uri'']"

fun san_names :: "string list \<Rightarrow> name_error + (string \<times> string) list" where
  "san_names [] = Inr []"
| "san_names (e # es) =
     and_then (san_parse_entry e) (\<lambda>p. and_then (san_names es) (\<lambda>ns.
       case p of
         None \<Rightarrow> Inr ns
       | Some (k, v) \<Rightarrow> if k \<in> set constrained_kinds then Inr ((k, v) # ns) else Inr ns))"

definition requested_names :: "string option \<Rightarrow> string list \<Rightarrow> name_error + (string \<times> string) list" where
  "requested_names cn sans =
     and_then (san_names sans) (\<lambda>ns.
       case cn of
         None \<Rightarrow> Inr ns
       | Some c \<Rightarrow> if c \<noteq> [] \<and> looks_like_hostname c
                   then Inr (ns @ [(''dns'', rstrip_dots (lower_str (strip_str c)))]) else Inr ns)"

section \<open>Checking names\<close>

record constraints =
  nc_permitted :: "string list"
  nc_excluded :: "string list"

text \<open>\<open>_split\<close>: the kind of an entry and its value (no colon: everything is the kind).\<close>

definition nc_split :: "string \<Rightarrow> string \<times> string" where
  "nc_split e = (case partition_at (CHR '':'') e of None \<Rightarrow> (lower_str e, []) | Some (k, v) \<Rightarrow> (lower_str k, v))"

definition of_kind :: "string \<Rightarrow> string list \<Rightarrow> string list" where
  "of_kind kind es = map snd (filter (\<lambda>c. fst c = kind) (map nc_split es))"

fun any_within :: "string \<Rightarrow> string \<Rightarrow> string list \<Rightarrow> unit + bool" where
  "any_within kind v [] = Inr False"
| "any_within kind v (c # cs) =
     and_then (name_within kind v c) (\<lambda>b. if b then Inr True else any_within kind v cs)"

fun check_names :: "nat \<Rightarrow> constraints option \<Rightarrow> (string \<times> string) list \<Rightarrow> name_error + unit" where
  "check_names i None names = Inr ()"
| "check_names i (Some nc) [] = Inr ()"
| "check_names i (Some nc) ((kind, v) # names) =
     (case any_within kind v (of_kind kind (nc_excluded nc)) of
        Inl _ \<Rightarrow> Inl Bad_url
      | Inr True \<Rightarrow> Inl (Name_excluded kind v i)
      | Inr False \<Rightarrow>
          (if of_kind kind (nc_permitted nc) = [] then check_names i (Some nc) names
           else case any_within kind v (of_kind kind (nc_permitted nc)) of
             Inl _ \<Rightarrow> Inl Bad_url
           | Inr False \<Rightarrow> Inl (Name_not_permitted kind v i)
           | Inr True \<Rightarrow> check_names i (Some nc) names))"

end
