(* ===== verification/Pki.thy ===== *)
theory Pki
  imports Names AuditChain
begin

text \<open>
  The data of the certificate authority (\<open>app/models/ca.py\<close>, \<open>ca_certificate.py\<close>,
  \<open>certificate.py\<close>, \<open>csr.py\<close>, \<open>certificate_profile.py\<close>) and the issuance policy
  (\<open>app/services/policy.py\<close>, \<open>profile_service.py\<close>, the key part of
  \<open>crypto_utils.py\<close>). A PEM or JSON column holds the value it decodes to, a
  serial-number column the number its hexadecimal text denotes. A certificate
  is what the builder was given and the key that signed it.
\<close>

section \<open>Keys\<close>

text \<open>A public key: its algorithm, size or curve, and a number standing for the key material.\<close>

datatype pub_key = Rsa nat nat | Ec string nat nat | Ed25519 nat | Ed448 nat | Other_key nat

datatype pki_error =
    Rsa_too_small | Rsa_too_large | Bad_ec_size | Bad_curve | Bad_key_type
  | Validity_not_positive | Validity_too_long | Subject_country | Subject_rejected string
  | Name_taken | No_signing_key | Awaiting_approval | Ca_revoked | Ca_is_expired | Path_length_zero
  | Not_issued_here | Names_refused name_error | Profile_key_type | Profile_key_size | Profile_validity
  | Profile_no_san | Profile_san_type | Profile_cn | Profile_disabled | Profile_unknown | Profile_not_for_ca
  | Csr_signature | Csr_processed | Signing_failed | Already_renewed | No_private_key | Revoked_needs_rekey
  | Bad_reason | Not_found | Already_revoked | Self_cross_sign | Would_loop | Not_pending | Alternate_unusable
  | No_basic_constraints | Not_a_ca | Key_mismatch | Serial_taken | Parent_not_found | Parent_revoked | Not_issued_by
  | Bundle_not_chain | Bundle_loop | Bundle_self_signed | Already_stored | Path_length_negative | Loopback_url

record pki_config =
  pc_min_rsa :: nat
  pc_max_rsa :: nat
  pc_max_cert_days :: int
  pc_max_intermediate_days :: int
  pc_max_ca_days :: int
  pc_crl_days :: int

definition enforce_key_strength :: "pki_config \<Rightarrow> string \<Rightarrow> nat \<Rightarrow> pki_error + unit" where
  "enforce_key_strength cf t n =
     (if t = ''RSA'' then
        require (pc_min_rsa cf \<le> n) Rsa_too_small (require (n \<le> pc_max_rsa cf) Rsa_too_large (Inr ()))
      else if t = ''EC'' then require (n \<in> {256, 384, 521}) Bad_ec_size (Inr ())
      else if t \<in> {''ED25519'', ''ED448''} then Inr ()
      else Inl Bad_key_type)"

fun enforce_public_key_strength :: "pki_config \<Rightarrow> pub_key \<Rightarrow> pki_error + unit" where
  "enforce_public_key_strength cf (Rsa n m) =
     require (pc_min_rsa cf \<le> n) Rsa_too_small (require (n \<le> pc_max_rsa cf) Rsa_too_large (Inr ()))"
| "enforce_public_key_strength cf (Ec curve n m) =
     require (curve \<in> {''secp256r1'', ''secp384r1'', ''secp521r1''}) Bad_curve (Inr ())"
| "enforce_public_key_strength cf (Ed25519 m) = Inr ()"
| "enforce_public_key_strength cf (Ed448 m) = Inr ()"
| "enforce_public_key_strength cf (Other_key m) = Inl Bad_key_type"

fun key_info :: "pub_key \<Rightarrow> pki_error + string \<times> nat" where
  "key_info (Rsa n m) = Inr (''RSA'', n)"
| "key_info (Ec curve n m) = Inr (''EC'', n)"
| "key_info (Ed25519 m) = Inr (''ED25519'', 256)"
| "key_info (Ed448 m) = Inr (''ED448'', 456)"
| "key_info (Other_key m) = Inl Bad_key_type"

text \<open>\<open>generate_key\<close>: the new key has the material \<open>m\<close>.\<close>

definition generate_key :: "pki_config \<Rightarrow> nat \<Rightarrow> string \<Rightarrow> nat \<Rightarrow> pki_error + pub_key" where
  "generate_key cf m t n =
     and_then (enforce_key_strength cf t n) (\<lambda>_.
       if t = ''RSA'' then Inr (Rsa n m)
       else if t = ''EC'' then
         Inr (Ec (if n = 256 then ''secp256r1'' else if n = 384 then ''secp384r1'' else ''secp521r1'') n m)
       else if t = ''ED25519'' then Inr (Ed25519 m)
       else Inr (Ed448 m))"

section \<open>Validity and subjects\<close>

definition bounded_not_after :: "pki_config \<Rightarrow> time \<Rightarrow> int option \<Rightarrow> time option \<Rightarrow> bool \<Rightarrow> bool \<Rightarrow> pki_error + time" where
  "bounded_not_after cf now validity_days ca_not_after is_ca is_intermediate =
     (case validity_days of
        None \<Rightarrow> Inl Validity_not_positive
      | Some d \<Rightarrow>
          let max_days = (if \<not> is_ca then pc_max_cert_days cf
                          else if is_intermediate then pc_max_intermediate_days cf else pc_max_ca_days cf);
              not_after = now + days d
          in require (1 \<le> d) Validity_not_positive (require (d \<le> max_days) Validity_too_long
               (Inr (case ca_not_after of None \<Rightarrow> not_after | Some e \<Rightarrow> if e < not_after then e else not_after))))"

type_synonym dn = "(string \<times> string) list"

text \<open>\<open>build_subject\<close>; \<open>attr_ok\<close> is what \<open>x509.NameAttribute\<close> accepts.\<close>

fun build_attrs :: "(string \<Rightarrow> string \<Rightarrow> bool) \<Rightarrow> dn \<Rightarrow> string list \<Rightarrow> pki_error + dn" where
  "build_attrs attr_ok attrs [] = Inr []"
| "build_attrs attr_ok attrs (k # ks) =
     (let v = strip_str (case map_of attrs k of None \<Rightarrow> [] | Some s \<Rightarrow> s)
      in if v = [] then build_attrs attr_ok attrs ks
         else require (\<not> (k = ''C'' \<and> length v \<noteq> 2)) Subject_country
           (require (attr_ok k v) (Subject_rejected k)
             (and_then (build_attrs attr_ok attrs ks) (\<lambda>r. Inr ((k, v) # r)))))"

definition build_subject :: "(string \<Rightarrow> string \<Rightarrow> bool) \<Rightarrow> dn \<Rightarrow> pki_error + dn" where
  "build_subject attr_ok attrs = build_attrs attr_ok attrs [''CN'', ''O'', ''OU'', ''C'', ''ST'', ''L'']"

section \<open>Certificates and rows\<close>

record policy =
  po_oid :: string
  po_cps :: "string option"

record tbs =
  x_serial :: nat
  x_subject :: dn
  x_issuer :: dn
  x_key :: pub_key
  x_not_before :: time
  x_not_after :: time
  x_constraints :: "(bool \<times> int option) option"
  x_key_usage :: "string list"
  x_ext_key_usage :: "string list"
  x_san :: "(string \<times> string) list"
  x_authority_key :: pub_key
  x_ocsp :: "string option"
  x_crl_dp :: "string option"
  x_names :: "constraints option"
  x_policies :: "policy list"
  x_signer :: pub_key

text \<open>A time in a certificate has no fraction of a second.\<close>

definition whole :: "time \<Rightarrow> time" where
  "whole t = t - t mod 1000000"

record crl =
  crl_issuer :: dn
  crl_no :: nat
  crl_last_update :: time
  crl_next_update :: time
  crl_entries :: "(nat \<times> time \<times> string) list"
  crl_signer :: pub_key

record ca_row =
  ca_id :: nat
  ca_name :: string
  ca_common_name :: string
  ca_serial :: nat
  ca_cert :: tbs
  ca_key_enc :: string
  ca_parent :: "nat option"
  ca_is_root :: bool
  ca_key_type :: string
  ca_key_size :: nat
  ca_not_before :: time
  ca_not_after :: time
  ca_path_length :: "int option"
  ca_crl_number :: nat
  ca_crl :: "crl option"
  ca_revoked :: bool
  ca_revoked_at :: "time option"
  ca_reason :: "string option"
  ca_backend :: string
  ca_key_label :: "string option"
  ca_created_by :: "nat option"
  ca_approval :: string
  ca_approved_by :: "nat option"
  ca_approved_at :: "time option"
  ca_allowed_profiles :: "nat list option"
  ca_notified_at :: "time option"
  ca_constraints :: "constraints option"
  ca_policies :: "policy list"
  ca_responder :: "tbs option"
  ca_responder_key :: string
  ca_acme :: bool
  ca_acme_profile :: "nat option"
  ca_acme_require_eab :: bool
  ca_acme_wildcards :: bool

record alternate =
  xa_id :: nat
  xa_ca :: nat
  xa_kind :: string
  xa_cert :: tbs
  xa_issuer :: "nat option"
  xa_serial :: nat
  xa_not_before :: time
  xa_not_after :: time
  xa_approval :: string
  xa_created_by :: "nat option"
  xa_approved_by :: "nat option"
  xa_approved_at :: "time option"

record cert_row =
  ct_id :: nat
  ct_serial :: nat
  ct_common_name :: string
  ct_subject :: dn
  ct_cert :: tbs
  ct_key_enc :: "string option"
  ct_ca :: nat
  ct_key_type :: string
  ct_key_size :: nat
  ct_not_before :: time
  ct_not_after :: time
  ct_san :: "string list option"
  ct_key_usage :: "(string \<times> bool) list option"
  ct_ext_key_usage :: "string list option"
  ct_revoked :: bool
  ct_revoked_at :: "time option"
  ct_reason :: "string option"
  ct_requested_by :: "nat option"
  ct_issued_by :: "nat option"
  ct_profile :: "nat option"
  ct_notified_at :: "time option"
  ct_renewed_from :: "nat option"
  ct_source :: "string option"
  ct_acme_account :: "nat option"

record csr_req =
  rq_subject :: dn
  rq_key :: pub_key
  rq_sig_ok :: bool
  rq_san :: "(string \<times> string) list"

record csr_row =
  cs_id :: nat
  cs_common_name :: string
  cs_csr :: csr_req
  cs_status :: string
  cs_ca :: "nat option"
  cs_certificate :: "nat option"
  cs_san :: "string list option"
  cs_created_by :: "nat option"
  cs_signed_by :: "nat option"
  cs_profile :: "nat option"

record profile =
  pf_id :: nat
  pf_key :: string
  pf_name :: string
  pf_description :: string
  pf_builtin :: bool
  pf_enabled :: bool
  pf_key_usage :: "(string \<times> bool) list option"
  pf_ext_key_usage :: "string list option"
  pf_include_aia :: bool
  pf_policies :: "policy list"
  pf_default_validity :: int
  pf_max_validity :: "int option"
  pf_key_types :: "string list"
  pf_min_rsa :: "nat option"
  pf_max_rsa :: "nat option"
  pf_ec_sizes :: "nat list"
  pf_san_types :: "string list"
  pf_require_san :: bool
  pf_cn_in_san :: bool
  pf_updated_by :: "nat option"

record pki =
  p_cas :: "ca_row list"
  p_alts :: "alternate list"
  p_certs :: "cert_row list"
  p_csrs :: "csr_row list"
  p_profiles :: "profile list"
  p_log :: audit_log

text \<open>
  What an operation takes from outside: the time, the random serial number, the
  material, stored form and label of a new key, the configuration, what pyca's
  name classes accept, and whether the backend of a CA can sign (its key decrypts
  or its token answers).
\<close>

record env =
  e_now :: time
  e_serial :: nat
  e_material :: nat
  e_key_ref :: string
  e_label :: string
  e_default_backend :: string
  e_cfg :: pki_config
  e_attr_ok :: "string \<Rightarrow> string \<Rightarrow> bool"
  e_gn_ok :: "string \<Rightarrow> string \<Rightarrow> bool"
  e_signs :: "ca_row \<Rightarrow> bool"

definition has_signing_key :: "ca_row \<Rightarrow> bool" where
  "has_signing_key ca \<longleftrightarrow> ca_backend ca = ''softhsm'' \<or> ca_key_enc ca \<noteq> []"

definition is_exportable :: "ca_row \<Rightarrow> bool" where
  "is_exportable ca \<longleftrightarrow> ca_backend ca \<noteq> ''softhsm'' \<and> ca_key_enc ca \<noteq> []"

definition ca_pending :: "ca_row \<Rightarrow> bool" where
  "ca_pending ca \<longleftrightarrow> ca_approval ca = ''pending''"

definition signing_capable :: "pki \<Rightarrow> ca_row list" where
  "signing_capable p = filter (\<lambda>ca. \<not> ca_revoked ca \<and> ca_approval ca = ''approved'' \<and> (ca_backend ca = ''softhsm'' \<or> ca_key_enc ca \<noteq> [])) (p_cas p)"

definition get_ca :: "pki \<Rightarrow> nat \<Rightarrow> ca_row option" where
  "get_ca p i = get_row ca_id i (p_cas p)"

definition put_ca :: "ca_row \<Rightarrow> pki \<Rightarrow> pki" where
  "put_ca ca p = p\<lparr>p_cas := put_row ca_id ca (p_cas p)\<rparr>"

definition parent_ca :: "pki \<Rightarrow> ca_row \<Rightarrow> ca_row option" where
  "parent_ca p ca = (case ca_parent ca of None \<Rightarrow> None | Some i \<Rightarrow> get_ca p i)"

definition ca_expired :: "time \<Rightarrow> ca_row \<Rightarrow> bool" where
  "ca_expired now ca \<longleftrightarrow> ca_not_after ca \<le> now"

section \<open>Profiles\<close>

definition pf_is_custom :: "profile \<Rightarrow> bool" where
  "pf_is_custom pf \<longleftrightarrow> pf_key pf = ''custom''"

definition lookup_profile :: "pki \<Rightarrow> string option \<Rightarrow> profile option" where
  "lookup_profile p v =
     (let text = strip_str (case v of None \<Rightarrow> [] | Some s \<Rightarrow> s);
          by_text = (case first_row (\<lambda>r. pf_key r = text) (p_profiles p) of
                       Some r \<Rightarrow> Some r | None \<Rightarrow> first_row (\<lambda>r. pf_name r = text) (p_profiles p))
      in if text = [] then None
         else if list_all is_digit text then
           (case get_row pf_id (read_nat text) (p_profiles p) of Some r \<Rightarrow> Some r | None \<Rightarrow> by_text)
         else by_text)"

definition allowed_for_ca :: "ca_row option \<Rightarrow> profile \<Rightarrow> bool" where
  "allowed_for_ca ca pf =
     (case ca of None \<Rightarrow> True
      | Some c \<Rightarrow> (case ca_allowed_profiles c of None \<Rightarrow> True | Some ids \<Rightarrow> pf_id pf \<in> set ids))"

text \<open>\<open>resolve\<close>, with the built-in \<open>custom\<close> seeded at start-up.\<close>

definition resolve_profile :: "bool \<Rightarrow> pki \<Rightarrow> string option \<Rightarrow> ca_row option \<Rightarrow> pki_error + profile" where
  "resolve_profile selection_required p v ca =
     (let text = strip_str (case v of None \<Rightarrow> [] | Some s \<Rightarrow> s);
          found = (if text = [] then (if selection_required then None else first_row (\<lambda>r. pf_key r = ''custom'') (p_profiles p))
                   else lookup_profile p v)
      in case found of
           None \<Rightarrow> Inl Profile_unknown
         | Some pf \<Rightarrow> require (pf_enabled pf) Profile_disabled (require (allowed_for_ca ca pf) Profile_not_for_ca (Inr pf)))"

record leaf_request =
  lr_key_type :: string
  lr_key_size :: nat
  lr_validity :: "int option"
  lr_san :: "string list"
  lr_common_name :: "string option"
  lr_key_usage :: "(string \<times> bool) list option"
  lr_ext_key_usage :: "string list option"

definition nonblank :: "string list \<Rightarrow> string list" where
  "nonblank ss = filter (\<lambda>s. strip_str s \<noteq> []) ss"

text \<open>The loop over the SANs and the set of DNS values; a bad prefix raises in either.\<close>

fun san_types_ok :: "string list \<Rightarrow> string list \<Rightarrow> pki_error + unit" where
  "san_types_ok allowed [] = Inr ()"
| "san_types_ok allowed (s # ss) =
     (case san_parse_entry s of
        Inl e \<Rightarrow> Inl (Names_refused e)
      | Inr None \<Rightarrow> Inl Profile_san_type
      | Inr (Some (k, v)) \<Rightarrow> require (k \<in> set allowed) Profile_san_type (san_types_ok allowed ss))"

fun dns_values :: "string list \<Rightarrow> pki_error + string list" where
  "dns_values [] = Inr []"
| "dns_values (s # ss) =
     (case san_parse_entry s of
        Inl e \<Rightarrow> Inl (Names_refused e)
      | Inr (Some (k, v)) \<Rightarrow> and_then (dns_values ss) (\<lambda>vs. Inr (if k = ''dns'' then lower_str v # vs else vs))
      | Inr None \<Rightarrow> dns_values ss)"

definition profile_key_ok :: "profile \<Rightarrow> string \<Rightarrow> nat \<Rightarrow> pki_error + unit" where
  "profile_key_ok pf t n =
     require (pf_key_types pf = [] \<or> t \<in> set (pf_key_types pf)) Profile_key_type
       (if t = ''RSA'' then
          require (case pf_min_rsa pf of None \<Rightarrow> True | Some m \<Rightarrow> m = 0 \<or> m \<le> n) Profile_key_size
            (require (case pf_max_rsa pf of None \<Rightarrow> True | Some m \<Rightarrow> m = 0 \<or> n \<le> m) Profile_key_size (Inr ()))
        else if t = ''EC'' then require (pf_ec_sizes pf = [] \<or> n \<in> set (pf_ec_sizes pf)) Profile_key_size (Inr ())
        else Inr ())"

definition profile_validity_ok :: "profile \<Rightarrow> int option \<Rightarrow> bool" where
  "profile_validity_ok pf v =
     (case (pf_max_validity pf, v) of
        (Some m, Some d) \<Rightarrow> m = 0 \<or> d = 0 \<or> d \<le> m
      | _ \<Rightarrow> True)"

definition profile_enforce :: "profile option \<Rightarrow> leaf_request
    \<Rightarrow> pki_error + (string \<times> bool) list option \<times> string list option \<times> bool" where
  "profile_enforce pfo rq =
     (case pfo of
        None \<Rightarrow> Inr (lr_key_usage rq, lr_ext_key_usage rq, True)
      | Some pf \<Rightarrow>
          if pf_is_custom pf then Inr (lr_key_usage rq, lr_ext_key_usage rq, True)
          else
            let sans = nonblank (lr_san rq)
            in and_then (profile_key_ok pf (lr_key_type rq) (lr_key_size rq)) (\<lambda>_.
               require (profile_validity_ok pf (lr_validity rq)) Profile_validity
               (require (\<not> pf_require_san pf \<or> sans \<noteq> []) Profile_no_san
               (and_then (if pf_san_types pf = [] then Inr () else san_types_ok (pf_san_types pf) sans) (\<lambda>_.
                and_then (if pf_cn_in_san pf \<and> lr_common_name rq \<noteq> None \<and> lr_common_name rq \<noteq> Some []
                          then and_then (dns_values sans) (\<lambda>vs.
                            require (lower_str (strip_str (the (lr_common_name rq))) \<in> set vs) Profile_cn (Inr ()))
                          else Inr ()) (\<lambda>_.
                Inr (case pf_key_usage pf of None \<Rightarrow> lr_key_usage rq | Some u \<Rightarrow> Some u,
                     case pf_ext_key_usage pf of None \<Rightarrow> lr_ext_key_usage rq | Some u \<Rightarrow> Some u,
                     pf_include_aia pf)))))))"

text \<open>\<open>certificate_policies.for_issuance\<close>.\<close>

definition policies_for :: "ca_row \<Rightarrow> profile option \<Rightarrow> policy list" where
  "policies_for ca pfo =
     (case pfo of None \<Rightarrow> ca_policies ca | Some pf \<Rightarrow> if pf_policies pf \<noteq> [] then pf_policies pf else ca_policies ca)"

section \<open>Name constraints of a chain\<close>

text \<open>
  The walk of \<open>enforce\<close> up the parents, with the set of visited ids: each step
  visits a row that was not visited, so the fuel of one step per row is enough.
\<close>

fun enforce_walk :: "nat \<Rightarrow> pki \<Rightarrow> (string \<times> string) list \<Rightarrow> nat list \<Rightarrow> ca_row option \<Rightarrow> name_error + unit" where
  "enforce_walk 0 p names seen c = Inr ()"
| "enforce_walk (Suc n) p names seen c =
     (case c of
        None \<Rightarrow> Inr ()
      | Some ca \<Rightarrow>
          if ca_id ca \<in> set seen then Inr ()
          else and_then (check_names (ca_id ca) (ca_constraints ca) names) (\<lambda>_.
                 enforce_walk n p names (ca_id ca # seen) (parent_ca p ca)))"

definition enforce_names :: "pki \<Rightarrow> ca_row \<Rightarrow> string option \<Rightarrow> string list \<Rightarrow> pki_error + unit" where
  "enforce_names p ca cn sans =
     (case and_then (requested_names cn sans) (\<lambda>names.
             if names = [] then Inr () else enforce_walk (Suc (length (p_cas p))) p names [] (Some ca)) of
        Inl e \<Rightarrow> Inl (Names_refused e)
      | Inr _ \<Rightarrow> Inr ())"

end
