(* ===== verification/Revocation.thy ===== *)
theory Revocation
  imports Pki
begin

text \<open>
  Revocation: \<open>app/services/crl_service.py\<close> and \<open>app/services/ocsp_service.py\<close>.
\<close>

section \<open>CRLs\<close>

definition REVOCATION_REASONS :: "string list" where
  "REVOCATION_REASONS = [''unspecified'', ''key_compromise'', ''ca_compromise'', ''affiliation_changed'', ''superseded'',
     ''cessation_of_operation'', ''certificate_hold'', ''privilege_withdrawn'', ''aa_compromise'']"

definition reason_flag :: "string option \<Rightarrow> string" where
  "reason_flag r = (case r of None \<Rightarrow> ''unspecified''
     | Some s \<Rightarrow> if s \<in> set REVOCATION_REASONS then s else ''unspecified'')"

definition entry_date :: "time \<Rightarrow> time option \<Rightarrow> time" where
  "entry_date now t = whole (case t of None \<Rightarrow> now | Some x \<Rightarrow> x)"

definition revoked_entries :: "time \<Rightarrow> pki \<Rightarrow> nat \<Rightarrow> (nat \<times> time \<times> string) list" where
  "revoked_entries now p i =
     map (\<lambda>c. (ct_serial c, entry_date now (ct_revoked_at c), reason_flag (ct_reason c)))
       (filter (\<lambda>c. ct_ca c = i \<and> ct_revoked c) (p_certs p))
     @ map (\<lambda>s. (ca_serial s, entry_date now (ca_revoked_at s), reason_flag (ca_reason s)))
       (filter (\<lambda>s. ca_parent s = Some i \<and> ca_revoked s) (p_cas p))"

text \<open>\<open>generate_crl\<close> on the current row of the CA; the error of the signature leaves the transaction rolled back.\<close>

definition generate_crl :: "env \<Rightarrow> int option \<Rightarrow> time option \<Rightarrow> nat \<Rightarrow> pki \<Rightarrow> pki_error + pki \<times> crl" where
  "generate_crl e validity_days next_update i p =
     (case get_ca p i of
        None \<Rightarrow> Inl Not_found
      | Some ca \<Rightarrow>
          require (has_signing_key ca) No_signing_key
          (require (\<not> ca_pending ca) Awaiting_approval
          (let d = (case validity_days of None \<Rightarrow> pc_crl_days (e_cfg e) | Some d \<Rightarrow> d);
               next = (case next_update of None \<Rightarrow> e_now e + days d | Some t \<Rightarrow> t);
               n = ca_crl_number ca + 1;
               crl = \<lparr>crl_issuer = x_subject (ca_cert ca), crl_no = n, crl_last_update = whole (e_now e),
                      crl_next_update = whole next, crl_entries = revoked_entries (e_now e) p i,
                      crl_signer = x_key (ca_cert ca)\<rparr>
           in require (e_signs e ca) Signing_failed
                (Inr (put_ca (ca\<lparr>ca_crl_number := n, ca_crl := Some crl\<rparr>) p, crl)))))"

definition refresh_crl :: "env \<Rightarrow> nat option \<Rightarrow> pki \<Rightarrow> pki_error + pki" where
  "refresh_crl e i p =
     (case i of None \<Rightarrow> Inr p
      | Some j \<Rightarrow>
          (case get_ca p j of
             None \<Rightarrow> Inr p
           | Some ca \<Rightarrow> if \<not> has_signing_key ca \<or> ca_pending ca then Inr p
                        else and_then (generate_crl e None None j p) (\<lambda>r. Inr (fst r))))"

text \<open>\<open>publish_initial_crl\<close>: a failure is rolled back and only logged.\<close>

definition publish_initial_crl :: "env \<Rightarrow> nat \<Rightarrow> pki \<Rightarrow> pki" where
  "publish_initial_crl e i p =
     (case get_ca p i of
        None \<Rightarrow> p
      | Some ca \<Rightarrow>
          if \<not> has_signing_key ca \<or> ca_pending ca then p
          else (case generate_crl e None None i p of Inl _ \<Rightarrow> p | Inr (p', _) \<Rightarrow> p'))"

section \<open>Revoking\<close>

text \<open>The result of a revocation: the state, and the error of the CRL refresh when it failed after the commit.\<close>

definition revoke_certificate :: "env \<Rightarrow> string \<Rightarrow> bool \<Rightarrow> nat \<Rightarrow> pki \<Rightarrow> pki_error + pki \<times> pki_error option" where
  "revoke_certificate e reason refresh i p =
     require (reason \<in> set REVOCATION_REASONS) Bad_reason
       (case get_row ct_id i (p_certs p) of
          None \<Rightarrow> Inl Not_found
        | Some c \<Rightarrow>
            require (\<not> ct_revoked c) Already_revoked
              (let p' = p\<lparr>p_certs := put_row ct_id
                     (c\<lparr>ct_revoked := True, ct_revoked_at := Some (e_now e), ct_reason := Some reason\<rparr>) (p_certs p)\<rparr>
               in if \<not> refresh then Inr (p', None)
                  else (case refresh_crl e (Some (ct_ca c)) p' of
                          Inl x \<Rightarrow> Inr (p', Some x) | Inr p'' \<Rightarrow> Inr (p'', None))))"

definition children :: "nat \<Rightarrow> pki \<Rightarrow> ca_row list" where
  "children i p = filter (\<lambda>c. ca_parent c = Some i) (p_cas p)"

definition mark_revoked :: "time \<Rightarrow> string \<Rightarrow> ca_row \<Rightarrow> pki \<Rightarrow> pki" where
  "mark_revoked now reason ca p =
     p\<lparr>p_cas := put_row ca_id (ca\<lparr>ca_revoked := True, ca_revoked_at := Some now, ca_reason := Some reason\<rparr>) (p_cas p),
       p_certs := map (\<lambda>c. if ct_ca c = ca_id ca \<and> \<not> ct_revoked c
         then c\<lparr>ct_revoked := True, ct_revoked_at := Some now, ct_reason := Some reason\<rparr> else c) (p_certs p)\<rparr>"

definition active_cas :: "pki \<Rightarrow> ca_row list" where
  "active_cas p = filter (\<lambda>c. \<not> ca_revoked c) (p_cas p)"

lemma get_ca_SomeD: "get_ca p i = Some ca \<Longrightarrow> ca \<in> set (p_cas p) \<and> ca_id ca = i"
  by (simp add: get_ca_def get_row_Some)

lemma fewer_active:
  assumes "get_ca p i = Some ca" "\<not> ca_revoked ca"
  shows "length (active_cas (mark_revoked now reason ca p)) < length (active_cas p)"
proof -
  have le: "length (filter (\<lambda>c. \<not> ca_revoked c) (put_row ca_id r t)) \<le> length (filter (\<lambda>c. \<not> ca_revoked c) t)"
    if "ca_revoked r" for r and t :: "ca_row list"
    using that by (induction t) (auto simp: put_row_def)
  have "length (filter (\<lambda>c. \<not> ca_revoked c) (put_row ca_id r t)) < length (filter (\<lambda>c. \<not> ca_revoked c) t)"
    if "ca_revoked r" "ca \<in> set t" "ca_id r = ca_id ca" for r and t :: "ca_row list"
    using that
  proof (induction t)
    case (Cons x t)
    then show ?case using le [of r t] assms(2) by (cases "x = ca") (auto simp: put_row_def)
  qed simp
  then show ?thesis using get_ca_SomeD [OF assms(1)] by (simp add: active_cas_def mark_revoked_def)
qed

text \<open>
  The recursion of \<open>revoke_ca\<close>, as a work list of CA ids in the order it visits
  them; it returns the ids it revoked.
\<close>

function revoke_tree :: "time \<Rightarrow> string \<Rightarrow> nat list \<Rightarrow> pki \<Rightarrow> pki \<times> nat list" where
  "revoke_tree now reason [] p = (p, [])"
| "revoke_tree now reason (i # is) p =
     (case get_ca p i of
        None \<Rightarrow> revoke_tree now reason is p
      | Some ca \<Rightarrow>
          if ca_revoked ca then revoke_tree now reason is p
          else (let (p', done) = revoke_tree now reason (map ca_id (children i p) @ is) (mark_revoked now reason ca p)
                in (p', i # done)))"
  by pat_completeness auto
termination
  by (relation "measures [\<lambda>(now, reason, is, p). length (active_cas p), \<lambda>(now, reason, is, p). length is]")
    (auto simp: fewer_active)

text \<open>\<open>_revoked_subtree\<close>; the fuel is the height of the hierarchy.\<close>

fun revoked_subtree :: "nat \<Rightarrow> pki \<Rightarrow> ca_row \<Rightarrow> ca_row list" where
  "revoked_subtree 0 p ca = [ca]"
| "revoked_subtree (Suc n) p ca =
     ca # concat (map (revoked_subtree n p) (filter ca_revoked (children (ca_id ca) p)))"

definition publish_final_crl :: "env \<Rightarrow> nat \<Rightarrow> pki \<Rightarrow> pki_error + pki" where
  "publish_final_crl e i p =
     (case get_ca p i of
        None \<Rightarrow> Inr p
      | Some ca \<Rightarrow>
          if \<not> has_signing_key ca \<or> ca_pending ca \<or> ca_expired (e_now e) ca then Inr p
          else and_then (generate_crl e None (Some (ca_not_after ca)) i p) (\<lambda>r. Inr (fst r)))"

text \<open>The publications after a revocation: each one is committed, the first error stops them.\<close>

fun publish_finals :: "env \<Rightarrow> nat list \<Rightarrow> pki \<Rightarrow> pki \<times> pki_error option" where
  "publish_finals e [] p = (p, None)"
| "publish_finals e (i # is) p =
     (case publish_final_crl e i p of
        Inl x \<Rightarrow> (p, Some x)
      | Inr p' \<Rightarrow> publish_finals e is p')"

definition publish_revocation_crls :: "env \<Rightarrow> ca_row \<Rightarrow> pki \<Rightarrow> pki \<times> pki_error option" where
  "publish_revocation_crls e ca p =
     (case refresh_crl e (ca_parent ca) p of
        Inl x \<Rightarrow> (p, Some x)
      | Inr p' \<Rightarrow> publish_finals e (map ca_id (revoked_subtree (length (p_cas p)) p ca)) p')"

definition revoke_ca :: "env \<Rightarrow> string \<Rightarrow> bool \<Rightarrow> nat \<Rightarrow> pki \<Rightarrow> pki_error + pki \<times> pki_error option" where
  "revoke_ca e reason refresh i p =
     require (reason \<in> set REVOCATION_REASONS) Bad_reason
       (case get_ca p i of
          None \<Rightarrow> Inl Not_found
        | Some ca \<Rightarrow>
            require (\<not> ca_revoked ca) Already_revoked
              (let (p', done) = revoke_tree (e_now e) reason [i] p
               in if \<not> refresh then Inr (p', None)
                  else (case get_ca p' i of None \<Rightarrow> Inr (p', None) | Some ca' \<Rightarrow> Inr (publish_revocation_crls e ca' p'))))"

definition get_crl :: "env \<Rightarrow> nat \<Rightarrow> pki \<Rightarrow> pki_error + pki \<times> crl" where
  "get_crl e i p =
     (case get_ca p i of
        None \<Rightarrow> Inl Not_found
      | Some ca \<Rightarrow> (case ca_crl ca of Some c \<Rightarrow> Inr (p, c) | None \<Rightarrow> generate_crl e None None i p))"

text \<open>\<open>job_crl_refresh\<close> of the scheduler, with its audit rows (the text of a failure is left out of its details).\<close>

definition crl_is_stale :: "ca_row \<Rightarrow> time \<Rightarrow> int \<Rightarrow> bool" where
  "crl_is_stale ca now before_days =
     (case ca_crl ca of None \<Rightarrow> True | Some c \<Rightarrow> crl_next_update c \<le> now + days before_days)"

definition log_ca :: "time \<Rightarrow> string \<Rightarrow> string \<Rightarrow> nat \<Rightarrow> json \<Rightarrow> pki \<Rightarrow> pki" where
  "log_ca now actor action i details p =
     p\<lparr>p_log := log_action \<lparr>rq_user = None, rq_addr = None, rq_now = now\<rparr> (Some actor) action (Some ''ca'') (Some i)
        (Some details) (p_log p)\<rparr>"

fun crl_refresh_loop :: "env \<Rightarrow> int \<Rightarrow> nat list \<Rightarrow> pki \<Rightarrow> pki \<times> nat list \<times> nat list" where
  "crl_refresh_loop e before_days [] p = (p, [], [])"
| "crl_refresh_loop e before_days (i # is) p =
     (case get_ca p i of
        None \<Rightarrow> crl_refresh_loop e before_days is p
      | Some ca \<Rightarrow>
          if \<not> crl_is_stale ca (e_now e) before_days then crl_refresh_loop e before_days is p
          else (case generate_crl e None None i p of
                  Inr (p1, c) \<Rightarrow>
                    (let (p', good, bad) = crl_refresh_loop e before_days is
                           (log_ca (e_now e) ''scheduler'' ''crl_refreshed'' i
                              (JObj [(''trigger'', JStr ''scheduler''), (''crl_number'', JInt (int (crl_no c)))]) p1)
                     in (p', i # good, bad))
                | Inl x \<Rightarrow>
                    (let (p', good, bad) = crl_refresh_loop e before_days is
                           (log_ca (e_now e) ''scheduler'' ''crl_refresh_failed'' i (JObj [(''trigger'', JStr ''scheduler'')]) p)
                     in (p', good, i # bad))))"

definition job_crl_refresh :: "env \<Rightarrow> int \<Rightarrow> pki \<Rightarrow> pki \<times> nat list \<times> nat list" where
  "job_crl_refresh e before_days p = crl_refresh_loop e before_days (map ca_id (signing_capable p)) p"

end
