(* ===== verification/Ocsp.thy ===== *)
theory Ocsp
  imports Revocation Caches
begin

text \<open>
  The OCSP responder of \<open>app/services/ocsp_service.py\<close>: the cache of signed
  responses, the delegated responder certificate and the answer to a request.
\<close>

section \<open>Responses and their cache\<close>

datatype cert_status = Good | Revoked time string

record ocsp_response =
  or_ca :: nat
  or_serial :: nat
  or_subject :: tbs
  or_status :: cert_status
  or_this_update :: time
  or_next_update :: time
  or_algorithm :: string
  or_signer :: pub_key
  or_responder :: "tbs option"

text \<open>The key (CA, serial, revoked, hash algorithm, serial of the delegated responder).\<close>

type_synonym ocsp_key = "nat \<times> nat \<times> bool \<times> string \<times> nat option"
type_synonym ocsp_cache = "(ocsp_key \<times> ocsp_response \<times> time) list"

definition oc_get :: "time \<Rightarrow> time \<Rightarrow> ocsp_key \<Rightarrow> ocsp_cache \<Rightarrow> ocsp_response option" where
  "oc_get ttl now k c =
     (if ttl \<le> 0 then None
      else case map_of c k of None \<Rightarrow> None | Some (der, expires) \<Rightarrow> if expires \<le> now then None else Some der)"

definition oc_touch :: "time \<Rightarrow> time \<Rightarrow> ocsp_key \<Rightarrow> ocsp_cache \<Rightarrow> ocsp_cache" where
  "oc_touch ttl now k c =
     (if ttl \<le> 0 then c
      else case map_of c k of None \<Rightarrow> c | Some (der, expires) \<Rightarrow> if expires \<le> now then AList.delete k c else c)"

definition oc_put :: "time \<Rightarrow> time \<Rightarrow> ocsp_key \<Rightarrow> ocsp_response \<Rightarrow> ocsp_cache \<Rightarrow> ocsp_cache" where
  "oc_put ttl now k der c = (if ttl \<le> 0 then c else AList.update k (der, now + ttl) c)"

definition oc_clear :: "ocsp_cache \<Rightarrow> ocsp_cache" where
  "oc_clear c = []"

section \<open>Delegated responders\<close>

record ocsp_config =
  oc_delegated :: bool
  oc_cache_ttl :: time
  oc_validity_days :: int
  oc_renew_before_days :: int

text \<open>
  \<open>issued\<close> is \<open>verify_directly_issued_by\<close>: the issuer name matches and the
  signature verifies with the issuer's key.
\<close>

record responder_state =
  rs_valid :: bool
  rs_days_left :: int
  rs_cert :: tbs

definition responder_status :: "(tbs \<Rightarrow> tbs \<Rightarrow> bool) \<Rightarrow> time \<Rightarrow> ca_row \<Rightarrow> responder_state option" where
  "responder_status issued now ca =
     (case ca_responder ca of
        None \<Rightarrow> None
      | Some r \<Rightarrow> Some \<lparr>rs_valid = issued r (ca_cert ca) \<and> x_not_before r \<le> now \<and> now < x_not_after r,
                        rs_days_left = (x_not_after r - now) div days 1, rs_cert = r\<rparr>)"

definition responder_needs_rotation :: "(tbs \<Rightarrow> tbs \<Rightarrow> bool) \<Rightarrow> ocsp_config \<Rightarrow> time \<Rightarrow> ca_row \<Rightarrow> bool" where
  "responder_needs_rotation issued oc now ca =
     (case responder_status issued now ca of
        None \<Rightarrow> True
      | Some s \<Rightarrow> if \<not> rs_valid s then True else rs_days_left s < oc_renew_before_days oc)"

definition responder_cert :: "env \<Rightarrow> ca_row \<Rightarrow> pub_key \<Rightarrow> time \<Rightarrow> tbs" where
  "responder_cert e ca key not_after =
     \<lparr>x_serial = e_serial e,
      x_subject = [(''CN'', take 49 (if ca_name ca = [] then ''CA'' else ca_name ca) @ '' OCSP Responder'')],
      x_issuer = x_subject (ca_cert ca), x_key = key, x_not_before = whole (e_now e), x_not_after = whole not_after,
      x_constraints = Some (False, None), x_key_usage = [''digital_signature''], x_ext_key_usage = [''ocspSigning''],
      x_san = [], x_authority_key = x_key (ca_cert ca), x_ocsp = None, x_crl_dp = None, x_names = None, x_policies = [],
      x_signer = x_key (ca_cert ca)\<rparr>"

record ocsp_state =
  os_pki :: pki
  os_cache :: ocsp_cache

definition ensure_responder :: "env \<Rightarrow> (tbs \<Rightarrow> tbs \<Rightarrow> bool) \<Rightarrow> ocsp_config \<Rightarrow> bool \<Rightarrow> nat \<Rightarrow> ocsp_state
    \<Rightarrow> pki_error + ocsp_state \<times> bool" where
  "ensure_responder e issued oc force i s =
     (case get_ca (os_pki s) i of
        None \<Rightarrow> Inl Not_found
      | Some ca \<Rightarrow>
          require (has_signing_key ca) No_signing_key
          (require (\<not> ca_pending ca) Awaiting_approval
          (require (\<not> ca_revoked ca) Ca_revoked
          (require (\<not> ca_expired (e_now e) ca) Ca_is_expired
          (if \<not> force \<and> \<not> responder_needs_rotation issued oc (e_now e) ca then Inr (s, False)
           else
             and_then (generate_key (e_cfg e) (e_material e) (ca_key_type ca) (ca_key_size ca)) (\<lambda>key.
             and_then (bounded_not_after (e_cfg e) (e_now e) (Some (oc_validity_days oc)) (Some (ca_not_after ca)) False False) (\<lambda>na.
             require (e_signs e ca) Signing_failed
             (Inr (\<lparr>os_pki = put_ca (ca\<lparr>ca_responder := Some (responder_cert e ca key na), ca_responder_key := e_key_ref e\<rparr>) (os_pki s),
                    os_cache = oc_clear (os_cache s)\<rparr>, True))))))))) "

text \<open>\<open>format(n, "x")\<close>.\<close>

fun hex_str :: "nat \<Rightarrow> string" where
  "hex_str n = (if n < 16 then [''0123456789abcdef'' ! n] else hex_str (n div 16) @ [''0123456789abcdef'' ! (n mod 16)])"

declare hex_str.simps [simp del]

definition responder_json :: "responder_state \<Rightarrow> (string \<times> json) list" where
  "responder_json r =
     [(''serial_number'', JStr (hex_str (x_serial (rs_cert r)))),
      (''not_before'', JStr (isoformat (x_not_before (rs_cert r)) @ ''+00:00'')),
      (''not_after'', JStr (isoformat (x_not_after (rs_cert r)) @ ''+00:00'')),
      (''days_left'', JInt (rs_days_left r)), (''valid'', JBool (rs_valid r)),
      (''key_type'', case key_info (x_key (rs_cert r)) of Inl _ \<Rightarrow> JNull | Inr (t, _) \<Rightarrow> JStr t)]"

text \<open>
  \<open>_delegated_responder\<close>; \<open>decrypts\<close> tells whether the stored responder key can
  be decrypted. Every failure is rolled back and gives the direct path.
\<close>

definition delegated_responder :: "env \<Rightarrow> (tbs \<Rightarrow> tbs \<Rightarrow> bool) \<Rightarrow> (string \<Rightarrow> bool) \<Rightarrow> ocsp_config \<Rightarrow> nat \<Rightarrow> ocsp_state
    \<Rightarrow> ocsp_state \<times> tbs option" where
  "delegated_responder e issued decrypts oc i s =
     (case get_ca (os_pki s) i of
        None \<Rightarrow> (s, None)
      | Some ca \<Rightarrow>
          if \<not> oc_delegated oc then (s, None)
          else if ca_expired (e_now e) ca then (s, None)
          else
            let ready = (if \<not> responder_needs_rotation issued oc (e_now e) ca then Some s
                  else (case ensure_responder e issued oc False i s of
                          Inr (s1, True) \<Rightarrow>
                            (case get_ca (os_pki s1) i of
                               None \<Rightarrow> None
                             | Some ca1 \<Rightarrow>
                                 Some (s1\<lparr>os_pki := log_ca (e_now e) ''system'' ''ocsp_responder_rotated'' i
                                   (JObj ((''trigger'', JStr ''lazy'') # (case responder_status issued (e_now e) ca1 of
                                      None \<Rightarrow> [] | Some r \<Rightarrow> responder_json r))) (os_pki s1)\<rparr>))
                        | _ \<Rightarrow> None))
            in case ready of
                 None \<Rightarrow> (s, None)
               | Some s2 \<Rightarrow>
                   (case get_ca (os_pki s2) i of
                      None \<Rightarrow> (s2, None)
                    | Some ca2 \<Rightarrow> if decrypts (ca_responder_key ca2) then (s2, ca_responder ca2) else (s2, None)))"

section \<open>Answering\<close>

record ocsp_request =
  oq_serial :: nat
  oq_algorithm :: "string option"

definition ALLOWED_HASHES :: "string list" where
  "ALLOWED_HASHES = [''sha1'', ''sha224'', ''sha256'', ''sha384'', ''sha512'']"

definition request_hash :: "ocsp_request \<Rightarrow> string" where
  "request_hash q = (case oq_algorithm q of None \<Rightarrow> ''sha256'' | Some a \<Rightarrow> if a \<in> set ALLOWED_HASHES then a else ''sha256'')"

datatype ocsp_reply = Unauthorized | Malformed | Failed | Signed ocsp_response

record ocsp_subject =
  sj_cert :: tbs
  sj_revoked :: bool
  sj_revoked_at :: "time option"
  sj_reason :: "string option"

definition find_subject :: "nat \<Rightarrow> nat \<Rightarrow> pki \<Rightarrow> ocsp_subject option" where
  "find_subject serial i p =
     (case first_row (\<lambda>c. ct_serial c = serial \<and> ct_ca c = i) (p_certs p) of
        Some c \<Rightarrow> Some \<lparr>sj_cert = ct_cert c, sj_revoked = ct_revoked c, sj_revoked_at = ct_revoked_at c, sj_reason = ct_reason c\<rparr>
      | None \<Rightarrow>
          (case first_row (\<lambda>c. ca_serial c = serial \<and> ca_parent c = Some i) (p_cas p) of
             Some c \<Rightarrow> Some \<lparr>sj_cert = ca_cert c, sj_revoked = ca_revoked c, sj_revoked_at = ca_revoked_at c, sj_reason = ca_reason c\<rparr>
           | None \<Rightarrow> None))"

definition status_of :: "time \<Rightarrow> ocsp_subject \<Rightarrow> cert_status" where
  "status_of now sj =
     (if sj_revoked sj then Revoked (case sj_revoked_at sj of None \<Rightarrow> now | Some t \<Rightarrow> t) (reason_flag (sj_reason sj)) else Good)"

text \<open>A request body that is not a DER OCSPRequest is None; \<open>clock\<close> is the monotonic clock of the cache.\<close>

definition build_ocsp_response :: "env \<Rightarrow> (tbs \<Rightarrow> tbs \<Rightarrow> bool) \<Rightarrow> (string \<Rightarrow> bool) \<Rightarrow> ocsp_config \<Rightarrow> time \<Rightarrow> ocsp_request option
    \<Rightarrow> nat \<Rightarrow> ocsp_state \<Rightarrow> ocsp_state \<times> ocsp_reply" where
  "build_ocsp_response e issued decrypts oc clock req i s =
     (case get_ca (os_pki s) i of
        None \<Rightarrow> (s, Unauthorized)
      | Some ca \<Rightarrow>
          if \<not> has_signing_key ca \<or> ca_pending ca then (s, Unauthorized)
          else case req of
            None \<Rightarrow> (s, Malformed)
          | Some q \<Rightarrow>
              (case find_subject (oq_serial q) i (os_pki s) of
                 None \<Rightarrow> (s, Unauthorized)
               | Some sj \<Rightarrow>
                   let (s1, del) = delegated_responder e issued decrypts oc i s;
                       k = (i, oq_serial q, sj_revoked sj, request_hash q, map_option x_serial del);
                       s2 = s1\<lparr>os_cache := oc_touch (oc_cache_ttl oc) clock k (os_cache s1)\<rparr>
                   in case oc_get (oc_cache_ttl oc) clock k (os_cache s1) of
                        Some der \<Rightarrow> (s2, Signed der)
                      | None \<Rightarrow>
                          if del = None \<and> \<not> e_signs e ca then (s2, Failed)
                          else
                            let r = \<lparr>or_ca = i, or_serial = oq_serial q, or_subject = sj_cert sj,
                                     or_status = status_of (e_now e) sj, or_this_update = e_now e,
                                     or_next_update = e_now e + hours 24, or_algorithm = request_hash q,
                                     or_signer = (case del of None \<Rightarrow> x_key (ca_cert ca) | Some r \<Rightarrow> x_key r), or_responder = del\<rparr>
                            in (s2\<lparr>os_cache := oc_put (oc_cache_ttl oc) clock k r (os_cache s2)\<rparr>, Signed r)))"

end
