(* ===== verification/Revocation_Claims.thy ===== *)
theory Revocation_Claims
  imports Revocation
begin

text \<open>
  Correctness of revocation: what a CRL lists, and what revoking a CA takes with it.
\<close>

section \<open>Tables of the PKI state\<close>

definition wf_pki :: "pki \<Rightarrow> bool" where
  "wf_pki p \<longleftrightarrow> wf_table ca_id (p_cas p) \<and> wf_table ct_id (p_certs p)"

lemma get_ca_in: "wf_pki p \<Longrightarrow> ca \<in> set (p_cas p) \<Longrightarrow> get_ca p (ca_id ca) = Some ca"
  by (simp add: wf_pki_def get_ca_def get_row_in)

lemma get_put_ca:
  "get_ca (put_ca ca p) j = (if j = ca_id ca then map_option (\<lambda>_. ca) (get_ca p j) else get_ca p j)"
  by (auto simp: get_ca_def put_ca_def get_put_same get_put_other split: option.splits)

lemma put_ca_simps [simp]: "p_certs (put_ca ca p) = p_certs p" "p_alts (put_ca ca p) = p_alts p" "p_csrs (put_ca ca p) = p_csrs p"
  "p_log (put_ca ca p) = p_log p" "p_profiles (put_ca ca p) = p_profiles p"
  by (simp_all add: put_ca_def)

section \<open>CRLs\<close>

lemma generate_crl_ok:
  assumes "generate_crl e d nu i p = Inr (p', c)"
  shows "\<exists>ca. get_ca p i = Some ca \<and> has_signing_key ca \<and> \<not> ca_pending ca
    \<and> p' = put_ca (ca\<lparr>ca_crl_number := ca_crl_number ca + 1, ca_crl := Some c\<rparr>) p
    \<and> crl_no c = ca_crl_number ca + 1 \<and> crl_entries c = revoked_entries (e_now e) p i
    \<and> crl_issuer c = x_subject (ca_cert ca) \<and> crl_signer c = x_key (ca_cert ca)
    \<and> crl_last_update c = whole (e_now e)
    \<and> crl_next_update c = whole (case nu of Some t \<Rightarrow> t
         | None \<Rightarrow> e_now e + days (case d of None \<Rightarrow> pc_crl_days (e_cfg e) | Some n \<Rightarrow> n))"
  using assms by (auto simp: generate_crl_def Let_def split: option.splits)

definition crl_serials :: "crl \<Rightarrow> nat set" where
  "crl_serials c = fst ` set (crl_entries c)"

text \<open>C24. A CRL that the service signs lists exactly the serial numbers of the revoked certificates and the revoked sub-CAs
  of its CA, is signed by that CA's key under its name, is stored on the CA, and has a number one above the last
  one; a CA without a key or awaiting approval signs none, and nothing but the CA's CRL columns changes.\<close>

theorem crl_lists_exactly_the_revoked:
  assumes "generate_crl e d nu i p = Inr (p', c)"
  shows "crl_serials c = ct_serial ` {x \<in> set (p_certs p). ct_ca x = i \<and> ct_revoked x}
      \<union> ca_serial ` {y \<in> set (p_cas p). ca_parent y = Some i \<and> ca_revoked y}
    \<and> (\<exists>ca. get_ca p i = Some ca \<and> has_signing_key ca \<and> \<not> ca_pending ca
         \<and> crl_issuer c = x_subject (ca_cert ca) \<and> crl_signer c = x_key (ca_cert ca) \<and> crl_no c = ca_crl_number ca + 1
         \<and> get_ca p' i = Some (ca\<lparr>ca_crl_number := crl_no c, ca_crl := Some c\<rparr>))
    \<and> (\<forall>j. j \<noteq> i \<longrightarrow> get_ca p' j = get_ca p j) \<and> p_certs p' = p_certs p"
proof -
  obtain ca where ca: "get_ca p i = Some ca" "has_signing_key ca" "\<not> ca_pending ca"
    and p': "p' = put_ca (ca\<lparr>ca_crl_number := ca_crl_number ca + 1, ca_crl := Some c\<rparr>) p"
    and c: "crl_no c = ca_crl_number ca + 1" "crl_entries c = revoked_entries (e_now e) p i"
      "crl_issuer c = x_subject (ca_cert ca)" "crl_signer c = x_key (ca_cert ca)"
    using generate_crl_ok [OF assms] by blast
  have "ca_id ca = i" using get_ca_SomeD [OF ca(1)] by simp
  moreover have "crl_serials c = ct_serial ` {x \<in> set (p_certs p). ct_ca x = i \<and> ct_revoked x}
      \<union> ca_serial ` {y \<in> set (p_cas p). ca_parent y = Some i \<and> ca_revoked y}"
    by (auto simp: crl_serials_def c(2) revoked_entries_def image_Un image_image)
  ultimately show ?thesis using ca c(1,3,4) by (auto simp: p' get_put_ca)
qed

section \<open>Revoking a CA\<close>

inductive below :: "pki \<Rightarrow> nat \<Rightarrow> nat \<Rightarrow> bool" for p where
  below_self: "below p i i"
| below_child: "below p i j \<Longrightarrow> get_ca p k = Some kc \<Longrightarrow> ca_parent kc = Some j \<Longrightarrow> below p i k"

definition closed_upto :: "nat list \<Rightarrow> pki \<Rightarrow> bool" where
  "closed_upto w p \<longleftrightarrow> (\<forall>j ca. get_ca p j = Some ca \<and> ca_revoked ca \<longrightarrow>
     (\<forall>c \<in> set (p_certs p). ct_ca c = j \<longrightarrow> ct_revoked c)
     \<and> (\<forall>k kc. get_ca p k = Some kc \<and> ca_parent kc = Some j \<longrightarrow> ca_revoked kc \<or> k \<in> set w))"

text \<open>\<open>tree_closed\<close>: a revoked CA has only revoked certificates and revoked sub-CAs.\<close>

definition tree_closed :: "pki \<Rightarrow> bool" where
  "tree_closed p \<longleftrightarrow> closed_upto [] p"

lemma below_step: "below p k j \<Longrightarrow> get_ca p k = Some kc \<Longrightarrow> ca_parent kc = Some i \<Longrightarrow> below p i j"
  by (induction rule: below.induct) (auto intro: below.intros)

lemma mark_revoked_get:
  "get_ca p (ca_id ca) = Some ca \<Longrightarrow> get_ca (mark_revoked now r ca p) j =
    (if j = ca_id ca then Some (ca\<lparr>ca_revoked := True, ca_revoked_at := Some now, ca_reason := Some r\<rparr>) else get_ca p j)"
  by (auto simp: get_ca_def mark_revoked_def get_put_same get_put_other)

lemma mark_revoked_parent:
  assumes "get_ca p (ca_id ca) = Some ca"
  shows "map_option ca_parent (get_ca (mark_revoked now r ca p) j) = map_option ca_parent (get_ca p j)"
  using assms by (auto simp: mark_revoked_get)

lemma below_cong:
  assumes "\<And>j. map_option ca_parent (get_ca p' j) = map_option ca_parent (get_ca p j)" "below p i j"
  shows "below p' i j"
  using assms(2)
proof (induction rule: below.induct)
  case (below_child i j k kc)
  then have "map_option ca_parent (get_ca p' k) = Some (Some j)" using assms(1) [of k] by simp
  with below_child.IH show ?case by (auto intro: below.intros)
qed (rule below.intros)

lemma below_mark:
  assumes "get_ca p (ca_id ca) = Some ca"
  shows "below (mark_revoked now r ca p) = below p"
proof (intro ext iffI)
  fix i j
  show "below p i j" if "below (mark_revoked now r ca p) i j"
    by (rule below_cong [OF _ that]) (simp only: mark_revoked_parent [OF assms])
  show "below (mark_revoked now r ca p) i j" if "below p i j"
    by (rule below_cong [OF _ that]) (simp only: mark_revoked_parent [OF assms])
qed

lemma filter_marked:
  assumes "\<And>c. f (g c) = f c"
  shows "filter (\<lambda>c. f c = j) (map (\<lambda>c. if f c = i \<and> P c then g c else c) cs) =
    (if j = i then map (\<lambda>c. if P c then g c else c) (filter (\<lambda>c. f c = j) cs) else filter (\<lambda>c. f c = j) cs)"
proof (cases "j = i")
  case True
  show ?thesis unfolding True using assms by (induction cs) simp_all
next
  case False
  with assms show ?thesis by (induction cs) auto
qed

lemma mark_revoked_certs:
  "filter (\<lambda>c. ct_ca c = j) (p_certs (mark_revoked now r ca p)) =
    (if j = ca_id ca then map (\<lambda>c. if \<not> ct_revoked c
       then c\<lparr>ct_revoked := True, ct_revoked_at := Some now, ct_reason := Some r\<rparr> else c) (filter (\<lambda>c. ct_ca c = j) (p_certs p))
     else filter (\<lambda>c. ct_ca c = j) (p_certs p))"
proof -
  have "p_certs (mark_revoked now r ca p) = map (\<lambda>c. if ct_ca c = ca_id ca \<and> \<not> ct_revoked c
         then c\<lparr>ct_revoked := True, ct_revoked_at := Some now, ct_reason := Some r\<rparr> else c) (p_certs p)"
    by (simp add: mark_revoked_def)
  then show ?thesis by (simp only:) (rule filter_marked, simp)
qed

lemma mark_revoked_own: "x \<in> set (p_certs (mark_revoked now r ca p)) \<Longrightarrow> ct_ca x = ca_id ca \<Longrightarrow> ct_revoked x"
  by (auto simp: mark_revoked_def split: if_splits)

lemma mark_revoked_foreign:
  "x \<in> set (p_certs (mark_revoked now r ca p)) \<Longrightarrow> ct_ca x \<noteq> ca_id ca \<Longrightarrow> x \<in> set (p_certs p)"
  by (auto simp: mark_revoked_def split: if_splits)

lemma certs_of: "c \<in> set (p_certs p) \<and> ct_ca c = j \<longleftrightarrow> c \<in> set (filter (\<lambda>c. ct_ca c = j) (p_certs p))"
  by auto

lemma children_ids:
  "wf_pki p \<Longrightarrow> get_ca p k = Some kc \<Longrightarrow> ca_parent kc = Some i \<Longrightarrow> k \<in> set (map ca_id (children i p))"
  by (auto simp: children_def dest: get_ca_SomeD)

lemma mark_wf: "wf_pki (mark_revoked now r ca p) = wf_pki p"
proof -
  have "map ct_id (map (\<lambda>c. if P c then c\<lparr>ct_revoked := True, ct_revoked_at := Some now, ct_reason := Some r\<rparr> else c) cs)
      = map ct_id cs" for P cs
    by (induction cs) auto
  from this [of "\<lambda>c. ct_ca c = ca_id ca \<and> \<not> ct_revoked c" "p_certs p"] show ?thesis
    unfolding wf_pki_def wf_table_def mark_revoked_def by (simp add: put_row_keys del: map_map)
qed

text \<open>What the work list does to the state it starts from.\<close>

definition revoked_from :: "nat list \<Rightarrow> pki \<Rightarrow> pki \<Rightarrow> bool" where
  "revoked_from is p p' \<longleftrightarrow>
     (\<forall>i \<in> set is. \<forall>ca. get_ca p' i = Some ca \<longrightarrow> ca_revoked ca)
     \<and> (\<forall>j. map_option ca_parent (get_ca p' j) = map_option ca_parent (get_ca p j))
     \<and> (\<forall>j ca. get_ca p j = Some ca \<and> ca_revoked ca \<longrightarrow> get_ca p' j = Some ca)
     \<and> (\<forall>c \<in> set (p_certs p). ct_revoked c \<longrightarrow> c \<in> set (p_certs p'))
     \<and> (\<forall>j. (\<forall>i \<in> set is. \<not> below p i j) \<longrightarrow> get_ca p' j = get_ca p j
          \<and> filter (\<lambda>c. ct_ca c = j) (p_certs p') = filter (\<lambda>c. ct_ca c = j) (p_certs p))"

lemma revoked_fromI:
  assumes "\<And>i ca. i \<in> set is \<Longrightarrow> get_ca p' i = Some ca \<Longrightarrow> ca_revoked ca"
    and "\<And>j. map_option ca_parent (get_ca p' j) = map_option ca_parent (get_ca p j)"
    and "\<And>j ca. get_ca p j = Some ca \<Longrightarrow> ca_revoked ca \<Longrightarrow> get_ca p' j = Some ca"
    and "\<And>c. c \<in> set (p_certs p) \<Longrightarrow> ct_revoked c \<Longrightarrow> c \<in> set (p_certs p')"
    and "\<And>j. \<forall>i \<in> set is. \<not> below p i j \<Longrightarrow> get_ca p' j = get_ca p j
          \<and> filter (\<lambda>c. ct_ca c = j) (p_certs p') = filter (\<lambda>c. ct_ca c = j) (p_certs p)"
  shows "revoked_from is p p'"
  unfolding revoked_from_def using assms by blast

lemma revoked_fromD:
  assumes "revoked_from is p p'"
  shows "\<And>i ca. i \<in> set is \<Longrightarrow> get_ca p' i = Some ca \<Longrightarrow> ca_revoked ca"
    and "\<And>j. map_option ca_parent (get_ca p' j) = map_option ca_parent (get_ca p j)"
    and "\<And>j ca. get_ca p j = Some ca \<Longrightarrow> ca_revoked ca \<Longrightarrow> get_ca p' j = Some ca"
    and "\<And>c. c \<in> set (p_certs p) \<Longrightarrow> ct_revoked c \<Longrightarrow> c \<in> set (p_certs p')"
    and "\<And>j. \<forall>i \<in> set is. \<not> below p i j \<Longrightarrow> get_ca p' j = get_ca p j"
    and "\<And>j. \<forall>i \<in> set is. \<not> below p i j \<Longrightarrow>
           filter (\<lambda>c. ct_ca c = j) (p_certs p') = filter (\<lambda>c. ct_ca c = j) (p_certs p)"
  using assms unfolding revoked_from_def by blast+

lemma revoked_from_skip:
  assumes "revoked_from is p p'" "\<And>ca. get_ca p i = Some ca \<Longrightarrow> ca_revoked ca"
  shows "revoked_from (i # is) p p'"
proof (rule revoked_fromI)
  note r = revoked_fromD [OF assms(1)]
  show "ca_revoked ca" if j: "j \<in> set (i # is)" "get_ca p' j = Some ca" for j ca
  proof (cases "j \<in> set is")
    case False
    then have ji: "j = i" using j by simp
    then obtain c where c: "get_ca p i = Some c" using r(2) [of i] j(2) by (cases "get_ca p i") auto
    from r(3) [OF c assms(2) [OF c]] assms(2) [OF c] j(2) ji show ?thesis by simp
  qed (use r(1) j(2) in blast)
  show "map_option ca_parent (get_ca p' j) = map_option ca_parent (get_ca p j)" for j by (rule r(2))
  show "get_ca p' j = Some ca" if "get_ca p j = Some ca" "ca_revoked ca" for j ca using r(3) that .
  show "c \<in> set (p_certs p')" if "c \<in> set (p_certs p)" "ct_revoked c" for c using r(4) that .
  show "get_ca p' j = get_ca p j \<and> filter (\<lambda>c. ct_ca c = j) (p_certs p') = filter (\<lambda>c. ct_ca c = j) (p_certs p)"
    if "\<forall>k \<in> set (i # is). \<not> below p k j" for j
    using r(5,6) [of j] that by simp
qed

lemma revoked_from_mark:
  assumes ca: "get_ca p i = Some ca" "\<not> ca_revoked ca"
    and from_p1: "revoked_from (map ca_id (children i p) @ is) (mark_revoked now r ca p) p'"
    and wf: "wf_pki p"
  shows "revoked_from (i # is) p p'"
proof (rule revoked_fromI)
  have id: "ca_id ca = i" using get_ca_SomeD [OF ca(1)] by simp
  with ca have get: "get_ca p (ca_id ca) = Some ca" by simp
  let ?p1 = "mark_revoked now r ca p"
  have m_self: "get_ca ?p1 i = Some (ca\<lparr>ca_revoked := True, ca_revoked_at := Some now, ca_reason := Some r\<rparr>)"
    using mark_revoked_get [OF get, of now r i] id by simp
  have m_other: "get_ca ?p1 j = get_ca p j" if "j \<noteq> i" for j
    using mark_revoked_get [OF get, of now r j] id that by simp
  note q = revoked_fromD [OF from_p1]
  have self: "get_ca p' i = Some (ca\<lparr>ca_revoked := True, ca_revoked_at := Some now, ca_reason := Some r\<rparr>)"
    by (rule q(3) [OF m_self]) simp
  show "ca_revoked c" if "k \<in> set (i # is)" "get_ca p' k = Some c" for k c
    using that self q(1) [of k c] by (cases "k = i") auto
  show "map_option ca_parent (get_ca p' j) = map_option ca_parent (get_ca p j)" for j
    unfolding q(2) by (rule mark_revoked_parent [OF get])
  show "get_ca p' j = Some c" if "get_ca p j = Some c" "ca_revoked c" for j c
  proof -
    have "j \<noteq> i" using that ca by auto
    then have "get_ca ?p1 j = Some c" using m_other that by simp
    then show ?thesis using that(2) by (rule q(3))
  qed
  show "c \<in> set (p_certs p')" if "c \<in> set (p_certs p)" "ct_revoked c" for c
  proof (rule q(4))
    show "c \<in> set (p_certs ?p1)" using that by (force simp: mark_revoked_def)
  qed (rule that(2))
  show "get_ca p' j = get_ca p j \<and> filter (\<lambda>c. ct_ca c = j) (p_certs p') = filter (\<lambda>c. ct_ca c = j) (p_certs p)"
    if nb: "\<forall>k \<in> set (i # is). \<not> below p k j" for j
  proof -
    have "\<not> below p k j" if k: "k \<in> set (map ca_id (children i p))" for k
    proof
      assume b: "below p k j"
      obtain kc where "kc \<in> set (p_cas p)" "ca_parent kc = Some i" "ca_id kc = k"
        using k by (auto simp: children_def)
      with get_ca_in [OF wf] have "get_ca p k = Some kc" "ca_parent kc = Some i" by auto
      with below_step [OF b] nb show False by simp
    qed
    then have nb': "\<forall>k \<in> set (map ca_id (children i p) @ is). \<not> below ?p1 k j"
      using nb unfolding below_mark [OF get] by auto
    have "j \<noteq> i" using nb below_self by auto
    with q(5) [OF nb'] q(6) [OF nb'] m_other [of j] id show ?thesis by (simp add: mark_revoked_certs)
  qed
qed

lemma closed_uptoI:
  assumes "\<And>j ca c. get_ca p j = Some ca \<Longrightarrow> ca_revoked ca \<Longrightarrow> c \<in> set (p_certs p) \<Longrightarrow> ct_ca c = j \<Longrightarrow> ct_revoked c"
    and "\<And>j ca k kc. get_ca p j = Some ca \<Longrightarrow> ca_revoked ca \<Longrightarrow> get_ca p k = Some kc \<Longrightarrow> ca_parent kc = Some j
           \<Longrightarrow> ca_revoked kc \<or> k \<in> set w"
  shows "closed_upto w p"
  unfolding closed_upto_def using assms by blast

lemma closed_uptoD:
  assumes "closed_upto w p" "get_ca p j = Some ca" "ca_revoked ca"
  shows "\<And>c. c \<in> set (p_certs p) \<Longrightarrow> ct_ca c = j \<Longrightarrow> ct_revoked c"
    and "\<And>k kc. get_ca p k = Some kc \<Longrightarrow> ca_parent kc = Some j \<Longrightarrow> ca_revoked kc \<or> k \<in> set w"
  using assms unfolding closed_upto_def by blast+

lemma closed_upto_mark:
  assumes "get_ca p i = Some ca" "closed_upto (i # is) p" "wf_pki p"
  shows "closed_upto (map ca_id (children i p) @ is) (mark_revoked now r ca p)"
proof (rule closed_uptoI)
  let ?p1 = "mark_revoked now r ca p"
  have id: "ca_id ca = i" using get_ca_SomeD [OF assms(1)] by simp
  with assms have get: "get_ca p (ca_id ca) = Some ca" by simp
  have m_other: "get_ca ?p1 j = get_ca p j" if "j \<noteq> i" for j
    using mark_revoked_get [OF get, of now r j] id that by simp
  have m_self: "get_ca ?p1 i = Some (ca\<lparr>ca_revoked := True, ca_revoked_at := Some now, ca_reason := Some r\<rparr>)"
    using mark_revoked_get [OF get, of now r i] id by simp
  show "ct_revoked x" if j: "get_ca ?p1 j = Some c" "ca_revoked c" and x: "x \<in> set (p_certs ?p1)" "ct_ca x = j" for j c x
  proof (cases "j = i")
    case True
    show ?thesis by (rule mark_revoked_own [OF x(1)]) (simp add: x(2) True id)
  next
    case False
    have "x \<in> set (p_certs p)" by (rule mark_revoked_foreign [OF x(1)]) (simp add: x(2) False id)
    with closed_uptoD(1) [OF assms(2) _ j(2)] x(2) j(1) m_other [OF False] show ?thesis by simp
  qed
  show "ca_revoked kc \<or> k \<in> set (map ca_id (children i p) @ is)"
    if j: "get_ca ?p1 j = Some c" "ca_revoked c" and k: "get_ca ?p1 k = Some kc" "ca_parent kc = Some j" for j c k kc
  proof (cases "k = i")
    case True
    with k m_self show ?thesis by auto
  next
    case False
    then have gk: "get_ca p k = Some kc" using k m_other by simp
    show ?thesis
    proof (cases "j = i")
      case True
      with children_ids [OF assms(3) gk] k(2) show ?thesis by simp
    next
      case jn: False
      have gj: "get_ca p j = Some c" using j m_other [OF jn] by simp
      from closed_uptoD(2) [OF assms(2) gj j(2) gk k(2)] False show ?thesis by auto
    qed
  qed
qed

lemma closed_upto_skip:
  assumes "closed_upto (i # is) p" "\<And>ca. get_ca p i = Some ca \<Longrightarrow> ca_revoked ca"
  shows "closed_upto is p"
proof (rule closed_uptoI)
  show "ct_revoked c" if "get_ca p j = Some ca" "ca_revoked ca" "c \<in> set (p_certs p)" "ct_ca c = j" for j ca c
    using closed_uptoD(1) [OF assms(1) that(1,2)] that(3,4) .
  show "ca_revoked kc \<or> k \<in> set is"
    if "get_ca p j = Some ca" "ca_revoked ca" "get_ca p k = Some kc" "ca_parent kc = Some j" for j ca k kc
    using closed_uptoD(2) [OF assms(1) that] assms(2) that(3) by (cases "k = i") auto
qed

lemma revoke_tree_spec:
  assumes "wf_pki p" "closed_upto is p" "revoke_tree now r is p = (p', done)"
  shows "wf_pki p' \<and> tree_closed p' \<and> revoked_from is p p'"
  using assms
proof (induction now r "is" p arbitrary: p' "done" rule: revoke_tree.induct)
  case (1 now r p)
  then show ?case by (simp add: tree_closed_def revoked_from_def)
next
  case (2 now r i "is" p)
  show ?case
  proof (cases "get_ca p i")
    case None
    have "wf_pki p' \<and> tree_closed p' \<and> revoked_from is p p'"
      using 2(1) [OF None 2(4) closed_upto_skip [OF 2(5)], of p' "done"] None 2(6) by simp
    with None show ?thesis using revoked_from_skip [of "is" p p' i] by simp
  next
    case (Some ca)
    show ?thesis
    proof (cases "ca_revoked ca")
      case True
      have "wf_pki p' \<and> tree_closed p' \<and> revoked_from is p p'"
        using 2(2) [OF Some True 2(4) closed_upto_skip [OF 2(5)], of p' "done"] Some True 2(6) by simp
      with True Some show ?thesis using revoked_from_skip [of "is" p p' i] by simp
    next
      case False
      obtain q d where q: "revoke_tree now r (map ca_id (children i p) @ is) (mark_revoked now r ca p) = (q, d)"
        by fastforce
      then have "q = p'" using 2(6) Some False by simp
      then have "wf_pki p' \<and> tree_closed p' \<and> revoked_from (map ca_id (children i p) @ is) (mark_revoked now r ca p) p'"
        using 2(3) [OF Some False _ closed_upto_mark [OF Some 2(5,4)] q] 2(4) by (simp add: mark_wf)
      then show ?thesis using revoked_from_mark [OF Some False _ 2(4)] by blast
    qed
  qed
qed

lemma below_revoked:
  assumes "below p i j" "tree_closed p'" "\<And>j. map_option ca_parent (get_ca p' j) = map_option ca_parent (get_ca p j)"
    and "get_ca p' i = Some ca" "ca_revoked ca"
  shows "\<exists>cj. get_ca p' j = Some cj \<and> ca_revoked cj"
  using assms(1,4,5)
proof (induction arbitrary: ca rule: below.induct)
  case (below_self i)
  then show ?case by blast
next
  case (below_child i j k kc)
  obtain cj where cj: "get_ca p' j = Some cj" "ca_revoked cj" using below_child.IH below_child.prems by blast
  obtain kc' where k: "get_ca p' k = Some kc'" "ca_parent kc' = Some j"
    using assms(3) [of k] below_child.hyps(2,3) by (cases "get_ca p' k") auto
  have "ca_revoked kc'"
    using closed_uptoD(2) [OF assms(2) [unfolded tree_closed_def] cj k] by simp
  with k show ?case by blast
qed

text \<open>C25. Revoking a CA revokes every CA below it and every certificate those issued, whatever was revoked before
  keeps its date and reason, and no CA outside the subtree and no certificate it issued changes; afterwards
  revoked CAs again have only revoked sub-CAs and certificates.\<close>

theorem revoke_ca_revokes_subtree:
  assumes "wf_pki p" "tree_closed p" "revoke_ca e reason False i p = Inr (p', x)"
  shows "tree_closed p'
    \<and> (\<forall>j. below p i j \<longrightarrow> (\<exists>ca. get_ca p' j = Some ca \<and> ca_revoked ca) \<and> (\<forall>c \<in> set (p_certs p'). ct_ca c = j \<longrightarrow> ct_revoked c))
    \<and> (\<forall>c \<in> set (p_certs p). ct_revoked c \<longrightarrow> c \<in> set (p_certs p'))
    \<and> (\<forall>j. \<not> below p i j \<longrightarrow> get_ca p' j = get_ca p j
         \<and> filter (\<lambda>c. ct_ca c = j) (p_certs p') = filter (\<lambda>c. ct_ca c = j) (p_certs p))"
proof -
  obtain ca d where ca: "get_ca p i = Some ca" and t: "revoke_tree (e_now e) reason [i] p = (p', d)"
    using assms(3) by (auto simp: revoke_ca_def split: option.splits prod.splits)
  have "closed_upto [i] p"
    using assms(2) unfolding tree_closed_def closed_upto_def by auto
  then have s: "wf_pki p'" "tree_closed p'" "revoked_from [i] p p'"
    using revoke_tree_spec [OF assms(1) _ t] by auto
  note r = revoked_fromD [OF s(3)]
  obtain ci where ci: "get_ca p' i = Some ci" using r(2) [of i] ca by (cases "get_ca p' i") auto
  have "ca_revoked ci" using r(1) [OF _ ci] by simp
  note rev = below_revoked [OF _ s(2) r(2) ci this]
  have "(\<exists>cj. get_ca p' j = Some cj \<and> ca_revoked cj) \<and> (\<forall>c \<in> set (p_certs p'). ct_ca c = j \<longrightarrow> ct_revoked c)"
    if b: "below p i j" for j
    using rev [OF b] closed_uptoD(1) [OF s(2) [unfolded tree_closed_def]] by blast
  moreover have "get_ca p' j = get_ca p j \<and> filter (\<lambda>c. ct_ca c = j) (p_certs p') = filter (\<lambda>c. ct_ca c = j) (p_certs p)"
    if "\<not> below p i j" for j
    using r(5,6) [of j] that by simp
  ultimately show ?thesis using s(2) r(4) by blast
qed


section \<open>A small instance\<close>

definition demo_tbs :: "nat \<Rightarrow> string \<Rightarrow> string \<Rightarrow> nat \<Rightarrow> nat \<Rightarrow> tbs" where
  "demo_tbs serial subject issuer key signer =
     \<lparr>x_serial = serial, x_subject = [(''CN'', subject)], x_issuer = [(''CN'', issuer)], x_key = Rsa 3072 key,
      x_not_before = 0, x_not_after = days 900, x_constraints = Some (True, None), x_key_usage = [], x_ext_key_usage = [],
      x_san = [], x_authority_key = Rsa 3072 signer, x_ocsp = None, x_crl_dp = None, x_names = None, x_policies = [],
      x_signer = Rsa 3072 signer\<rparr>"

definition demo_ca :: "nat \<Rightarrow> string \<Rightarrow> nat option \<Rightarrow> ca_row" where
  "demo_ca i name parent =
     \<lparr>ca_id = i, ca_name = name, ca_common_name = name, ca_serial = 10 + i,
      ca_cert = demo_tbs (10 + i) name ''root'' i (case parent of None \<Rightarrow> i | Some j \<Rightarrow> j),
      ca_key_enc = ''k'', ca_parent = parent, ca_is_root = (parent = None), ca_key_type = ''RSA'', ca_key_size = 3072,
      ca_not_before = 0, ca_not_after = days 900, ca_path_length = None, ca_crl_number = 0, ca_crl = None,
      ca_revoked = False, ca_revoked_at = None, ca_reason = None, ca_backend = ''software'', ca_key_label = None,
      ca_created_by = Some 1, ca_approval = ''approved'', ca_approved_by = Some 1, ca_approved_at = Some 0,
      ca_allowed_profiles = None, ca_notified_at = None, ca_constraints = None, ca_policies = [],
      ca_responder = None, ca_responder_key = [], ca_acme = True, ca_acme_profile = None,
      ca_acme_require_eab = False, ca_acme_wildcards = False\<rparr>"

definition demo_cert :: "nat \<Rightarrow> nat \<Rightarrow> bool \<Rightarrow> cert_row" where
  "demo_cert i ca revoked =
     \<lparr>ct_id = i, ct_serial = 100 + i, ct_common_name = ''a.example'', ct_subject = [(''CN'', ''a.example'')],
      ct_cert = demo_tbs (100 + i) ''a.example'' ''sub'' (100 + i) ca, ct_key_enc = None, ct_ca = ca, ct_key_type = ''RSA'',
      ct_key_size = 3072, ct_not_before = 0, ct_not_after = days 90, ct_san = None, ct_key_usage = None,
      ct_ext_key_usage = None, ct_revoked = revoked, ct_revoked_at = (if revoked then Some 5000000 else None),
      ct_reason = (if revoked then Some ''key_compromise'' else None), ct_requested_by = None, ct_issued_by = Some 1,
      ct_profile = None, ct_notified_at = None, ct_renewed_from = None, ct_source = None, ct_acme_account = None\<rparr>"

definition demo_pki :: pki where
  "demo_pki = \<lparr>p_cas = [demo_ca 1 ''root'' None, demo_ca 2 ''sub'' (Some 1)], p_alts = [],
     p_certs = [demo_cert 1 2 False, demo_cert 2 2 True, demo_cert 3 1 False], p_csrs = [], p_profiles = [],
     p_log = \<lparr>al_rows = [], al_outbox = [], al_archive = []\<rparr>\<rparr>"

definition demo_cfg :: pki_config where
  "demo_cfg = \<lparr>pc_min_rsa = 2048, pc_max_rsa = 8192, pc_max_cert_days = 1825, pc_max_intermediate_days = 3650,
     pc_max_ca_days = 7300, pc_crl_days = 7\<rparr>"

definition demo_env :: env where
  "demo_env = \<lparr>e_now = days 1, e_serial = 77, e_material = 99, e_key_ref = ''enc'', e_label = ''ca-1'',
     e_default_backend = ''software'', e_cfg = demo_cfg, e_attr_ok = (\<lambda>k v. length v \<le> 64), e_gn_ok = (\<lambda>k v. True),
     e_signs = (\<lambda>ca. ca_key_enc ca = ''k'')\<rparr>"

lemmas demo_pki_defs = demo_pki_def demo_ca_def demo_cert_def demo_env_def demo_cfg_def

lemma demo_get_ca: "get_ca demo_pki i = (if i = 1 then Some (demo_ca 1 ''root'' None)
    else if i = 2 then Some (demo_ca 2 ''sub'' (Some 1)) else None)"
  by (simp add: get_ca_def get_row_def demo_pki_def demo_ca_def)

lemma demo_rows [simp]:
  "ct_serial (demo_cert i j r) = 100 + i" "ct_ca (demo_cert i j r) = j" "ct_revoked (demo_cert i j r) = r"
  "ct_id (demo_cert i j r) = i" "ct_common_name (demo_cert i j r) = ''a.example''" "ct_cert (demo_cert i j r) = demo_tbs (100 + i) ''a.example'' ''sub'' (100 + i) j"
  "ca_serial (demo_ca i n q) = 10 + i" "ca_parent (demo_ca i n q) = q" "\<not> ca_revoked (demo_ca i n q)" "ca_id (demo_ca i n q) = i"
  by (simp_all add: demo_cert_def demo_ca_def)

lemma demo_ca_facts: "has_signing_key (demo_ca i n q)" "\<not> ca_pending (demo_ca i n q)" "ca_not_after (demo_ca i n q) = days 900"
  "ca_constraints (demo_ca i n q) = None" "ca_policies (demo_ca i n q) = []" "e_signs demo_env (demo_ca i n q)" "ca_path_length (demo_ca i n q) = None"
  "ca_is_root (demo_ca i n q) = (q = None)" "ca_common_name (demo_ca i n q) = n" "ca_cert (demo_ca i n q) = demo_tbs (10 + i) n ''root'' i (case q of None \<Rightarrow> i | Some j \<Rightarrow> j)"
  by (simp_all add: demo_ca_def has_signing_key_def ca_pending_def demo_env_def)

lemma demo_env_facts: "e_cfg demo_env = demo_cfg" "e_now demo_env = days 1" "e_gn_ok demo_env k v" "pc_max_cert_days demo_cfg = 1825"
  "pc_min_rsa demo_cfg = 2048" "pc_max_rsa demo_cfg = 8192" "pc_max_intermediate_days demo_cfg = 3650"
  by (simp_all add: demo_env_def demo_cfg_def)

lemma demo_revoked: "{x \<in> set (p_certs demo_pki). ct_ca x = 2 \<and> ct_revoked x} = {demo_cert 2 2 True}"
  "{y \<in> set (p_cas demo_pki). ca_parent y = Some 2 \<and> ca_revoked y} = {}"
  by (auto simp: demo_pki_def)

lemma demo_pki_wf: "wf_pki demo_pki"
  by (simp add: wf_pki_def wf_table_def demo_pki_defs)

lemma demo_pki_closed: "tree_closed demo_pki"
  unfolding tree_closed_def by (rule closed_uptoI) (auto simp: demo_get_ca demo_ca_def split: if_splits)

theorem crl_lists_exactly_the_revoked_witness:
  "\<exists>p' c. generate_crl demo_env None None 2 demo_pki = Inr (p', c) \<and> crl_serials c = {102}"
proof -
  have "\<exists>p' c. generate_crl demo_env None None 2 demo_pki = Inr (p', c)"
    by (simp add: generate_crl_def demo_get_ca has_signing_key_def ca_pending_def Let_def demo_env_def demo_ca_def)
  then obtain p' c where g: "generate_crl demo_env None None 2 demo_pki = Inr (p', c)" by blast
  have "crl_serials c = {102}"
    using crl_lists_exactly_the_revoked [OF g, THEN conjunct1] unfolding demo_revoked by (simp add: demo_rows)
  with g show ?thesis by blast
qed

theorem revoke_ca_revokes_subtree_witness:
  "\<exists>p' x. revoke_ca demo_env ''ca_compromise'' False 1 demo_pki = Inr (p', x)
    \<and> (\<exists>ca. get_ca p' 2 = Some ca \<and> ca_revoked ca)"
proof -
  have "\<exists>p' x. revoke_ca demo_env ''ca_compromise'' False 1 demo_pki = Inr (p', x)"
    by (simp add: revoke_ca_def demo_get_ca REVOCATION_REASONS_def split: prod.split)
  then obtain p' x where r: "revoke_ca demo_env ''ca_compromise'' False 1 demo_pki = Inr (p', x)" by blast
  have "below demo_pki 1 2"
    using below_child [OF below_self, of demo_pki 2 "demo_ca 2 ''sub'' (Some 1)" 1] by (simp add: demo_get_ca)
  with revoke_ca_revokes_subtree [OF demo_pki_wf demo_pki_closed r] r show ?thesis by blast
qed

end
