(* ===== verification/Ocsp_Claims.thy ===== *)
theory Ocsp_Claims
  imports Ocsp Revocation_Claims
begin

text \<open>
  Correctness of the OCSP responder: the cache of responses obeys the contract of
  \<open>Caches\<close>, and no answer, cached or fresh, calls a revoked certificate good.
\<close>

section \<open>The response cache\<close>

interpretation responses: ttl_cache "oc_get ttl" "oc_touch ttl" "oc_put ttl" "\<lambda>k. oc_clear" "[]" ttl "\<lambda>c. distinct (map fst c)"
  for ttl
proof unfold_locales
  fix t k and t0 k' v and c :: ocsp_cache
  show "distinct (map fst ([] :: ocsp_cache))" by simp
  show "distinct (map fst (oc_put ttl t0 k v c))" if "distinct (map fst c)"
    using that by (simp add: oc_put_def distinct_update)
  show "distinct (map fst (oc_touch ttl t0 k c))" if "distinct (map fst c)"
    using that by (auto simp: oc_touch_def distinct_delete split: option.splits)
  show "distinct (map fst (oc_clear c))" by (simp add: oc_clear_def)
  show "oc_get ttl t k [] = None" by (simp add: oc_get_def)
  show "w = v \<and> t < t0 + ttl" if "oc_get ttl t k (oc_put ttl t0 k v c) = Some w" for w
    using that by (auto simp: oc_get_def oc_put_def split: if_splits)
  show "oc_get ttl t k' c = Some w" if "k' \<noteq> k" "oc_get ttl t k' (oc_put ttl t0 k v c) = Some w" for w
    using that by (auto simp: oc_get_def oc_put_def split: if_splits)
  show "oc_get ttl t k c = Some w" if "distinct (map fst c)" "oc_get ttl t k (oc_touch ttl t0 k' c) = Some w" for w
    using that(2) by (auto simp: oc_get_def oc_touch_def delete_conv split: if_splits option.splits)
  show "k' \<noteq> k \<and> oc_get ttl t k c = Some w" if "oc_get ttl t k (oc_clear c) = Some w" for w
    using that by (simp add: oc_get_def oc_clear_def split: if_splits)
qed

text \<open>C27. A cached response is the last one that was stored for its key (CA, serial number, revocation flag, hash and
  signer), less than the cache's lifetime ago, with no clearing of the cache since.\<close>

theorem ocsp_cache_fresh:
  assumes "oc_get ttl t k (fold (responses.apply_event ttl) es []) = Some r"
  shows "\<exists>a t0 b. es = a @ Put t0 k r # b \<and> responses.undisturbed k b \<and> t < t0 + ttl"
  by (rule responses.hit_was_put [OF assms])

definition demo_response :: "ocsp_response" where
  "demo_response = \<lparr>or_ca = 1, or_serial = 5,
     or_subject = \<lparr>x_serial = 5, x_subject = [], x_issuer = [], x_key = Ed25519 2, x_not_before = 0, x_not_after = 9, x_constraints = None,
       x_key_usage = [], x_ext_key_usage = [], x_san = [], x_authority_key = Ed25519 1, x_ocsp = None, x_crl_dp = None, x_names = None,
       x_policies = [], x_signer = Ed25519 1\<rparr>,
     or_status = Good, or_this_update = 0, or_next_update = 9, or_algorithm = ''sha1'', or_signer = Ed25519 1, or_responder = None\<rparr>"

theorem ocsp_cache_fresh_witness:
  "\<exists>a t0 b. [Put 3 (1, 5, False, ''sha1'', None) demo_response] = a @ Put t0 (1, 5, False, ''sha1'', None) demo_response # b
    \<and> responses.undisturbed (1, 5, False, ''sha1'', None) b \<and> 40 < t0 + 60"
  by (rule ocsp_cache_fresh) (simp add: oc_get_def oc_put_def)

text \<open>Every stored response says of its key what the key says: the CA, the serial number and whether it is revoked.\<close>

definition matches_key :: "ocsp_key \<Rightarrow> ocsp_response \<Rightarrow> bool" where
  "matches_key k r \<longleftrightarrow> or_ca r = fst k \<and> or_serial r = fst (snd k) \<and> (or_status r = Good \<longleftrightarrow> \<not> fst (snd (snd k)))
     \<and> or_algorithm r = fst (snd (snd (snd k)))"

definition cache_sound :: "ocsp_cache \<Rightarrow> bool" where
  "cache_sound c \<longleftrightarrow> (\<forall>k r t. map_of c k = Some (r, t) \<longrightarrow> matches_key k r)"

lemma cache_sound_put: "cache_sound c \<Longrightarrow> matches_key k r \<Longrightarrow> cache_sound (oc_put ttl t k r c)"
  by (auto simp: cache_sound_def oc_put_def update_conv split: if_splits)

lemma cache_sound_touch: "cache_sound c \<Longrightarrow> cache_sound (oc_touch ttl t k c)"
  by (auto simp: cache_sound_def oc_touch_def delete_conv restrict_map_def split: if_splits option.splits)

lemma cache_sound_clear: "cache_sound (oc_clear c)"
  by (simp add: cache_sound_def oc_clear_def)

lemma cache_sound_get: "cache_sound c \<Longrightarrow> oc_get ttl t k c = Some r \<Longrightarrow> matches_key k r"
  by (auto simp: cache_sound_def oc_get_def simp del: split_paired_All split: if_splits option.splits)

section \<open>Responders\<close>

lemma ensure_responder_ok:
  assumes "ensure_responder e issued oc force i s = Inr (s', b)"
  shows "(b \<longrightarrow> os_cache s' = []) \<and> (\<not> b \<longrightarrow> s' = s) \<and> p_certs (os_pki s') = p_certs (os_pki s)
    \<and> (\<exists>ca. get_ca (os_pki s) i = Some ca \<and> \<not> ca_revoked ca \<and> \<not> ca_expired (e_now e) ca \<and> \<not> ca_pending ca
         \<and> (b \<longrightarrow> (\<exists>r k. os_pki s' = put_ca (ca\<lparr>ca_responder := Some r, ca_responder_key := k\<rparr>) (os_pki s)
              \<and> x_ext_key_usage r = [''ocspSigning''] \<and> x_not_after r \<le> ca_not_after ca
              \<and> x_constraints r = Some (False, None) \<and> x_signer r = x_key (ca_cert ca))))"
proof -
  obtain ca where ca: "get_ca (os_pki s) i = Some ca" "has_signing_key ca" "\<not> ca_pending ca" "\<not> ca_revoked ca"
    "\<not> ca_expired (e_now e) ca"
    using assms by (auto simp: ensure_responder_def split: option.splits)
  show ?thesis
  proof (cases "\<not> force \<and> \<not> responder_needs_rotation issued oc (e_now e) ca")
    case True
    with assms ca show ?thesis by (auto simp: ensure_responder_def)
  next
    case False
    then obtain key na where
      na: "bounded_not_after (e_cfg e) (e_now e) (Some (oc_validity_days oc)) (Some (ca_not_after ca)) False False = Inr na"
      and s': "s' = \<lparr>os_pki = put_ca (ca\<lparr>ca_responder := Some (responder_cert e ca key na), ca_responder_key := e_key_ref e\<rparr>)
          (os_pki s), os_cache = oc_clear (os_cache s)\<rparr>" "b"
      using assms ca by (auto simp: ensure_responder_def and_then_Inr)
    have "na \<le> ca_not_after ca" using na by (auto simp: bounded_not_after_def Let_def split: if_splits)
    moreover have "whole na \<le> na" by (simp add: whole_def)
    ultimately have "x_not_after (responder_cert e ca key na) \<le> ca_not_after ca"
      by (simp add: responder_cert_def)
    then have "\<exists>r k. os_pki s' = put_ca (ca\<lparr>ca_responder := Some r, ca_responder_key := k\<rparr>) (os_pki s)
              \<and> x_ext_key_usage r = [''ocspSigning''] \<and> x_not_after r \<le> ca_not_after ca
              \<and> x_constraints r = Some (False, None) \<and> x_signer r = x_key (ca_cert ca)"
      by (intro exI [of _ "responder_cert e ca key na"] exI [of _ "e_key_ref e"]) (simp add: s' responder_cert_def)
    with ca s' show ?thesis by (auto simp: oc_clear_def)
  qed
qed

lemma delegated_responder_state:
  assumes "delegated_responder e issued decrypts oc i s = (s', del)" "cache_sound (os_cache s)"
  shows "cache_sound (os_cache s') \<and> p_certs (os_pki s') = p_certs (os_pki s)"
proof -
  have ens: "cache_sound (os_cache s1) \<and> p_certs (os_pki s1) = p_certs (os_pki s)"
    if "ensure_responder e issued oc False i s = Inr (s1, True)" for s1
    using ensure_responder_ok [OF that] by (simp add: cache_sound_def)
  have log: "p_certs (log_ca a b c d f p) = p_certs p" for a b c d f p by (simp add: log_ca_def)
  show ?thesis
    using assms(1,2) unfolding delegated_responder_def
    by (auto simp: Let_def log dest!: ens split: option.splits if_splits sum.splits bool.splits prod.splits)
qed


section \<open>Answers\<close>

text \<open>C26. Every signed answer, from the cache or fresh, speaks about the serial number asked for and its status is the one
  the tables give now: a certificate or sub-CA that is revoked is never called good, a good one never revoked,
  and a serial number this CA did not issue gets no signed answer.\<close>

theorem ocsp_tells_the_truth:
  assumes "cache_sound (os_cache s)"
    and "build_ocsp_response e issued decrypts oc clock req i s = (s', Signed r)"
  shows "cache_sound (os_cache s') \<and> p_certs (os_pki s') = p_certs (os_pki s)
    \<and> (\<exists>q sj. req = Some q \<and> find_subject (oq_serial q) i (os_pki s) = Some sj \<and> or_serial r = oq_serial q \<and> or_ca r = i
         \<and> or_algorithm r = request_hash q \<and> (or_status r = Good \<longleftrightarrow> \<not> sj_revoked sj))"
proof -
  obtain ca where ca: "get_ca (os_pki s) i = Some ca" "has_signing_key ca" "\<not> ca_pending ca"
    using assms(2) by (auto simp: build_ocsp_response_def split: option.splits if_splits)
  obtain q where q: "req = Some q"
    using assms(2) ca by (auto simp: build_ocsp_response_def split: option.splits)
  obtain sj where sj: "find_subject (oq_serial q) i (os_pki s) = Some sj"
    using assms(2) ca q by (auto simp: build_ocsp_response_def split: option.splits)
  obtain s1 del where d: "delegated_responder e issued decrypts oc i s = (s1, del)" by fastforce
  note st = delegated_responder_state [OF d assms(1)]
  define k where "k = (i, oq_serial q, sj_revoked sj, request_hash q, map_option x_serial del)"
  have sound: "cache_sound (oc_touch (oc_cache_ttl oc) clock k (os_cache s1))"
    using st cache_sound_touch by blast
  show ?thesis
  proof (cases "oc_get (oc_cache_ttl oc) clock k (os_cache s1)")
    case (Some der)
    have "s' = s1\<lparr>os_cache := oc_touch (oc_cache_ttl oc) clock k (os_cache s1)\<rparr>" "r = der"
      using assms(2) ca q sj d Some by (auto simp: build_ocsp_response_def k_def Let_def)
    with cache_sound_get [OF _ Some] st sound q sj show ?thesis by (auto simp: matches_key_def k_def)
  next
    case None
    define r0 where "r0 = \<lparr>or_ca = i, or_serial = oq_serial q, or_subject = sj_cert sj,
       or_status = status_of (e_now e) sj, or_this_update = e_now e,
       or_next_update = e_now e + hours 24, or_algorithm = request_hash q,
       or_signer = (case del of None \<Rightarrow> x_key (ca_cert ca) | Some r \<Rightarrow> x_key r), or_responder = del\<rparr>"
    have out: "r = r0" "s' = s1\<lparr>os_cache := oc_put (oc_cache_ttl oc) clock k r0 (oc_touch (oc_cache_ttl oc) clock k (os_cache s1))\<rparr>"
      using assms(2) ca q sj d None by (auto simp: build_ocsp_response_def k_def r0_def Let_def split: if_splits)
    have "matches_key k r0" by (simp add: matches_key_def k_def r0_def status_of_def)
    with cache_sound_put [OF sound] out st q sj show ?thesis by (auto simp: matches_key_def k_def)
  qed
qed

definition demo_oc :: ocsp_config where
  "demo_oc = \<lparr>oc_delegated = False, oc_cache_ttl = 60, oc_validity_days = 30, oc_renew_before_days = 7\<rparr>"

theorem ocsp_tells_the_truth_witness:
  "\<exists>s' r. build_ocsp_response demo_env (\<lambda>a b. True) (\<lambda>k. True) demo_oc 5 (Some \<lparr>oq_serial = 102, oq_algorithm = Some ''sha1''\<rparr>) 2
     \<lparr>os_pki = demo_pki, os_cache = []\<rparr> = (s', Signed r) \<and> or_status r \<noteq> Good"
proof -
  let ?b = "build_ocsp_response demo_env (\<lambda>a b. True) (\<lambda>k. True) demo_oc 5 (Some \<lparr>oq_serial = 102, oq_algorithm = Some ''sha1''\<rparr>) 2
     \<lparr>os_pki = demo_pki, os_cache = []\<rparr>"
  have f: "find_subject 102 2 demo_pki = Some \<lparr>sj_cert = demo_tbs 102 ''a.example'' ''sub'' 102 2, sj_revoked = True,
      sj_revoked_at = Some 5000000, sj_reason = Some ''key_compromise''\<rparr>"
    by (simp add: find_subject_def demo_pki_def first_row_def) (simp add: demo_cert_def)
  have c: "has_signing_key (demo_ca 2 ''sub'' (Some 1))" "\<not> ca_pending (demo_ca 2 ''sub'' (Some 1))"
    "e_signs demo_env (demo_ca 2 ''sub'' (Some 1))"
    by (simp_all add: has_signing_key_def ca_pending_def demo_ca_def demo_env_def)
  have "\<exists>s' r. ?b = (s', Signed r)"
    by (simp add: build_ocsp_response_def demo_get_ca f c [simplified] delegated_responder_def demo_oc_def oc_get_def oc_touch_def Let_def)
  then obtain s' r where b: "?b = (s', Signed r)" by blast
  have "cache_sound (os_cache \<lparr>os_pki = demo_pki, os_cache = []\<rparr>)" by (simp add: cache_sound_def)
  from ocsp_tells_the_truth [OF this b] f b show ?thesis by auto
qed

text \<open>C28. The responder certificate that signs in a CA's place is short-lived and powerless: it is issued only by an
  approved, unrevoked, unexpired CA with a key, is signed by that CA, allows nothing but OCSP signing, is no CA
  certificate, does not outlive the CA, and installing it drops every cached response of the old signer.\<close>

theorem responder_is_confined:
  assumes "ensure_responder e issued oc force i s = Inr (s', True)"
  shows "os_cache s' = [] \<and> p_certs (os_pki s') = p_certs (os_pki s)
    \<and> (\<exists>ca r k. get_ca (os_pki s) i = Some ca \<and> \<not> ca_revoked ca \<and> \<not> ca_expired (e_now e) ca \<and> \<not> ca_pending ca
         \<and> os_pki s' = put_ca (ca\<lparr>ca_responder := Some r, ca_responder_key := k\<rparr>) (os_pki s)
         \<and> x_ext_key_usage r = [''ocspSigning''] \<and> x_constraints r = Some (False, None)
         \<and> x_not_after r \<le> ca_not_after ca \<and> x_signer r = x_key (ca_cert ca))"
  using ensure_responder_ok [OF assms] by blast

theorem responder_is_confined_witness:
  "\<exists>s'. ensure_responder demo_env (\<lambda>a b. True) demo_oc False 2 \<lparr>os_pki = demo_pki, os_cache = []\<rparr> = Inr (s', True) \<and> os_cache s' = []"
proof -
  let ?c = "demo_ca 2 ''sub'' (Some 1)"
  have c: "has_signing_key ?c" "\<not> ca_pending ?c" "\<not> ca_expired (e_now demo_env) ?c" "e_signs demo_env ?c"
    "ca_key_type ?c = ''RSA''" "ca_key_size ?c = 3072" "ca_responder ?c = None" "ca_not_after ?c = days 900"
    by (simp_all add: has_signing_key_def ca_pending_def ca_expired_def demo_ca_def demo_env_def days_eq)
  have g: "generate_key (e_cfg demo_env) m ''RSA'' 3072 = Inr (Rsa 3072 m)" for m
    by (simp add: generate_key_def enforce_key_strength_def demo_env_def demo_cfg_def)
  have b: "\<exists>t. bounded_not_after (e_cfg demo_env) (e_now demo_env) (Some (oc_validity_days demo_oc)) (Some (days 900)) False False = Inr t"
    by (simp add: bounded_not_after_def demo_env_def demo_cfg_def demo_oc_def Let_def)
  have "\<exists>s'. ensure_responder demo_env (\<lambda>a b. True) demo_oc False 2 \<lparr>os_pki = demo_pki, os_cache = []\<rparr> = Inr (s', True)"
    using c b by (auto simp: ensure_responder_def demo_get_ca responder_needs_rotation_def responder_status_def g)
  then show ?thesis using responder_is_confined by blast
qed

end
