(* ===== verification/Authority.thy ===== *)
theory Authority
  imports Revocation
begin

text \<open>
  The life of a CA: \<open>app/services/ca_service.py\<close>. Files are modelled by what they
  parse to; \<open>issued\<close> is pyca's \<open>verify_directly_issued_by\<close>.
\<close>

section \<open>Certificates of CAs\<close>

definition ca_key_usage :: "string list" where
  "ca_key_usage = [''digital_signature'', ''key_cert_sign'', ''crl_sign'']"

definition name_free :: "pki \<Rightarrow> string \<Rightarrow> bool" where
  "name_free p name \<longleftrightarrow> first_row (\<lambda>c. ca_name c = name \<and> \<not> ca_revoked c) (p_cas p) = None"

definition ca_tbs :: "env \<Rightarrow> dn \<Rightarrow> dn \<Rightarrow> pub_key \<Rightarrow> time \<Rightarrow> int option \<Rightarrow> pub_key \<Rightarrow> constraints option \<Rightarrow> policy list \<Rightarrow> tbs" where
  "ca_tbs e subject issuer key not_after path_length issuer_key nc policies =
     \<lparr>x_serial = e_serial e, x_subject = subject, x_issuer = issuer, x_key = key, x_not_before = whole (e_now e),
      x_not_after = whole not_after, x_constraints = Some (True, path_length), x_key_usage = ca_key_usage,
      x_ext_key_usage = [], x_san = [], x_authority_key = issuer_key, x_ocsp = None, x_crl_dp = None, x_names = nc,
      x_policies = policies, x_signer = issuer_key\<rparr>"

record new_ca =
  na_name :: string
  na_attrs :: dn
  na_key_type :: string
  na_key_size :: nat
  na_validity :: "int option"
  na_path_length :: "int option"
  na_backend :: "string option"
  na_created_by :: "nat option"
  na_approval :: string
  na_constraints :: "constraints option"
  na_policies :: "policy list"

definition backend_name :: "env \<Rightarrow> new_ca \<Rightarrow> string" where
  "backend_name e q = (case na_backend q of None \<Rightarrow> e_default_backend e | Some b \<Rightarrow> if b = [] then e_default_backend e else b)"

definition ca_row_of :: "env \<Rightarrow> new_ca \<Rightarrow> nat \<Rightarrow> nat option \<Rightarrow> tbs \<Rightarrow> string \<times> nat \<Rightarrow> time \<Rightarrow> int option \<Rightarrow> ca_row" where
  "ca_row_of e q i parent cert kt not_after path_length =
     \<lparr>ca_id = i, ca_name = na_name q, ca_common_name = (case map_of (na_attrs q) ''CN'' of None \<Rightarrow> na_name q | Some s \<Rightarrow> s),
      ca_serial = e_serial e, ca_cert = cert, ca_key_enc = (if backend_name e q = ''software'' then e_key_ref e else []),
      ca_parent = parent, ca_is_root = (parent = None), ca_key_type = fst kt, ca_key_size = snd kt, ca_not_before = e_now e,
      ca_not_after = not_after, ca_path_length = path_length, ca_crl_number = 0, ca_crl = None, ca_revoked = False,
      ca_revoked_at = None, ca_reason = None, ca_backend = backend_name e q,
      ca_key_label = (if backend_name e q \<noteq> ''software'' then Some (e_label e) else None), ca_created_by = na_created_by q,
      ca_approval = na_approval q, ca_approved_by = (if na_approval q = ''approved'' then na_created_by q else None),
      ca_approved_at = (if na_approval q = ''approved'' then Some (e_now e) else None), ca_allowed_profiles = None,
      ca_notified_at = None, ca_constraints = na_constraints q, ca_policies = na_policies q, ca_responder = None,
      ca_responder_key = [], ca_acme = False, ca_acme_profile = None, ca_acme_require_eab = True, ca_acme_wildcards = False\<rparr>"

definition add_ca :: "ca_row \<Rightarrow> pki \<Rightarrow> pki" where
  "add_ca ca p = p\<lparr>p_cas := p_cas p @ [ca]\<rparr>"

text \<open>What \<open>x509.BasicConstraints\<close> accepts.\<close>

definition path_ok :: "int option \<Rightarrow> bool" where
  "path_ok pl \<longleftrightarrow> (case pl of None \<Rightarrow> True | Some n \<Rightarrow> 0 \<le> n)"

definition create_root_ca :: "env \<Rightarrow> new_ca \<Rightarrow> pki \<Rightarrow> pki_error + pki \<times> nat" where
  "create_root_ca e q p =
     require (name_free p (na_name q)) Name_taken
     (and_then (generate_key (e_cfg e) (e_material e) (na_key_type q) (na_key_size q)) (\<lambda>key.
      and_then (key_info key) (\<lambda>kt.
      and_then (build_subject (e_attr_ok e) (na_attrs q)) (\<lambda>subject.
      and_then (bounded_not_after (e_cfg e) (e_now e) (na_validity q) None True False) (\<lambda>na.
      require (path_ok (na_path_length q)) Path_length_negative (
        let i = fresh_id ca_id (p_cas p);
            cert = ca_tbs e subject subject key na (na_path_length q) key (na_constraints q) (na_policies q);
            ca = ca_row_of e q i None cert kt na (na_path_length q)
        in require (e_signs e ca) Signing_failed
             (Inr (publish_initial_crl e i (add_ca ca p), i))))))))"

text \<open>PKI-6: the path length a sub-CA gets under its parent's budget.\<close>

definition clamp_path_length :: "int option \<Rightarrow> int option \<Rightarrow> pki_error + int option" where
  "clamp_path_length parent requested =
     (case parent of
        None \<Rightarrow> Inr requested
      | Some m \<Rightarrow>
          require (0 < m) Path_length_zero
            (Inr (case requested of None \<Rightarrow> Some (m - 1) | Some r \<Rightarrow> if m - 1 < r then Some (m - 1) else Some r)))"

definition create_intermediate_ca :: "env \<Rightarrow> nat \<Rightarrow> new_ca \<Rightarrow> pki \<Rightarrow> pki_error + pki \<times> nat" where
  "create_intermediate_ca e pid q p =
     require (name_free p (na_name q)) Name_taken
     (case get_ca p pid of
        None \<Rightarrow> Inl Parent_not_found
      | Some parent \<Rightarrow>
          require (has_signing_key parent) No_signing_key
          (require (\<not> ca_pending parent) Awaiting_approval
          (require (\<not> ca_revoked parent) Ca_revoked
          (require (\<not> ca_expired (e_now e) parent) Ca_is_expired
          (and_then (enforce_key_strength (e_cfg e) (na_key_type q) (na_key_size q)) (\<lambda>_.
           and_then (enforce_names p parent (map_of (na_attrs q) ''CN'') []) (\<lambda>_.
           and_then (generate_key (e_cfg e) (e_material e) (na_key_type q) (na_key_size q)) (\<lambda>key.
           and_then (key_info key) (\<lambda>kt.
           and_then (build_subject (e_attr_ok e) (na_attrs q)) (\<lambda>subject.
           and_then (clamp_path_length (ca_path_length parent) (na_path_length q)) (\<lambda>pl.
           and_then (bounded_not_after (e_cfg e) (e_now e) (na_validity q) (Some (ca_not_after parent)) True True) (\<lambda>na.
           require (path_ok pl) Path_length_negative (
             let i = fresh_id ca_id (p_cas p);
                 cert = ca_tbs e subject (x_subject (ca_cert parent)) key na pl (x_key (ca_cert parent))
                          (na_constraints q) (na_policies q);
                 ca = ca_row_of e q i (Some pid) cert kt na pl
             in require (e_signs e parent) Signing_failed
                  (Inr (publish_initial_crl e i (add_ca ca p), i)))))))))))))))"

section \<open>Chains\<close>

definition alternate_usable :: "pki \<Rightarrow> alternate \<Rightarrow> bool" where
  "alternate_usable p a \<longleftrightarrow> xa_approval a = ''approved'' \<and>
     \<not> (xa_kind a = ''cross'' \<and> (case xa_issuer a of None \<Rightarrow> False
          | Some i \<Rightarrow> (case get_ca p i of None \<Rightarrow> False | Some c \<Rightarrow> ca_revoked c)))"

fun chain_walk :: "nat \<Rightarrow> pki \<Rightarrow> alternate option \<Rightarrow> nat list \<Rightarrow> ca_row option \<Rightarrow> tbs list" where
  "chain_walk 0 p via seen c = []"
| "chain_walk (Suc n) p via seen c =
     (case c of
        None \<Rightarrow> []
      | Some ca \<Rightarrow>
          if ca_id ca \<in> set seen then []
          else (case via of
              Some a \<Rightarrow>
                if xa_ca a = ca_id ca then
                  xa_cert a # (if xa_kind a = ''cross''
                     then chain_walk n p via (ca_id ca # seen) (case xa_issuer a of None \<Rightarrow> None | Some i \<Rightarrow> get_ca p i)
                     else chain_walk n p via (ca_id ca # seen) (parent_ca p ca))
                else ca_cert ca # chain_walk n p via (ca_id ca # seen) (parent_ca p ca)
            | None \<Rightarrow> ca_cert ca # chain_walk n p via (ca_id ca # seen) (parent_ca p ca)))"

definition chain_certs :: "pki \<Rightarrow> ca_row \<Rightarrow> alternate option \<Rightarrow> pki_error + tbs list" where
  "chain_certs p ca via =
     require (case via of None \<Rightarrow> True | Some a \<Rightarrow> alternate_usable p a) Alternate_unusable
       (Inr (chain_walk (Suc (length (p_cas p))) p via [] (Some ca)))"

section \<open>Re-issue and cross-certification\<close>

definition add_alternate :: "alternate \<Rightarrow> pki \<Rightarrow> pki" where
  "add_alternate a p = p\<lparr>p_alts := p_alts p @ [a]\<rparr>"

definition alternate_of :: "env \<Rightarrow> nat \<Rightarrow> nat \<Rightarrow> string \<Rightarrow> tbs \<Rightarrow> nat option \<Rightarrow> nat option \<Rightarrow> string \<Rightarrow> alternate" where
  "alternate_of e aid i kind cert issuer created_by approval =
     \<lparr>xa_id = aid, xa_ca = i, xa_kind = kind, xa_cert = cert, xa_issuer = issuer, xa_serial = x_serial cert,
      xa_not_before = x_not_before cert, xa_not_after = x_not_after cert, xa_approval = approval, xa_created_by = created_by,
      xa_approved_by = (if approval = ''approved'' then created_by else None),
      xa_approved_at = (if approval = ''approved'' then Some (e_now e) else None)\<rparr>"

text \<open>\<open>_promote_reissue\<close>: the old certificate becomes a \<open>previous\<close> alternate and the re-issue row goes away.\<close>

definition promote_reissue :: "nat \<Rightarrow> alternate \<Rightarrow> pki \<Rightarrow> pki \<times> alternate option" where
  "promote_reissue i row p =
     (case get_ca p i of
        None \<Rightarrow> (p, None)
      | Some ca \<Rightarrow>
          let prev = \<lparr>xa_id = fresh_id xa_id (p_alts p), xa_ca = i, xa_kind = ''previous'', xa_cert = ca_cert ca,
                xa_issuer = ca_parent ca, xa_serial = ca_serial ca, xa_not_before = x_not_before (ca_cert ca),
                xa_not_after = x_not_after (ca_cert ca), xa_approval = ''approved'', xa_created_by = xa_created_by row,
                xa_approved_by = xa_approved_by row, xa_approved_at = xa_approved_at row\<rparr>;
              ca' = ca\<lparr>ca_cert := xa_cert row, ca_serial := xa_serial row, ca_not_before := x_not_before (xa_cert row),
                ca_not_after := x_not_after (xa_cert row), ca_notified_at := None\<rparr>;
              p1 = put_ca ca' p
          in (p1\<lparr>p_alts := filter (\<lambda>a. xa_id a \<noteq> xa_id row) (p_alts p) @ [prev]\<rparr>, Some prev))"

definition whole_days :: "time \<Rightarrow> int" where
  "whole_days t = t div days 1"

definition clamp_days :: "env \<Rightarrow> int \<Rightarrow> ca_row \<Rightarrow> int" where
  "clamp_days e d issuer = min d (max 1 (whole_days (ca_not_after issuer - e_now e)))"

definition reissue_days :: "env \<Rightarrow> int option \<Rightarrow> ca_row \<Rightarrow> ca_row \<Rightarrow> int" where
  "reissue_days e validity ca issuer =
     (let d = (case validity of Some d \<Rightarrow> d | None \<Rightarrow> max 1 (whole_days (ca_not_after ca - ca_not_before ca)))
      in if ca_id issuer = ca_id ca then d else clamp_days e d issuer)"

definition cross_days :: "env \<Rightarrow> int option \<Rightarrow> ca_row \<Rightarrow> ca_row \<Rightarrow> int" where
  "cross_days e validity ca issuer =
     clamp_days e (case validity of Some d \<Rightarrow> d | None \<Rightarrow> max 1 (whole_days (ca_not_after ca - e_now e))) issuer"

text \<open>\<open>_ca_cert_builder\<close> for the existing key and subject of the CA.\<close>

definition reissued_cert :: "env \<Rightarrow> ca_row \<Rightarrow> ca_row \<Rightarrow> time \<Rightarrow> int option \<Rightarrow> tbs" where
  "reissued_cert e ca issuer na path_length =
     ca_tbs e (x_subject (ca_cert ca)) (x_subject (ca_cert issuer)) (x_key (ca_cert ca)) na path_length (x_key (ca_cert issuer))
       (ca_constraints ca) (ca_policies ca)"

definition reissue_ca :: "env \<Rightarrow> int option \<Rightarrow> nat option \<Rightarrow> string \<Rightarrow> nat \<Rightarrow> pki \<Rightarrow> pki_error + pki \<times> alternate" where
  "reissue_ca e validity created_by approval i p =
     (case get_ca p i of
        None \<Rightarrow> Inl Not_found
      | Some ca \<Rightarrow>
          require (has_signing_key ca \<or> \<not> ca_is_root ca) No_signing_key
          (require (\<not> ca_revoked ca) Ca_revoked
          (require (\<not> ca_pending ca) Awaiting_approval
          (case (if ca_is_root ca then Some ca else parent_ca p ca) of
             None \<Rightarrow> Inl Not_issued_here
           | Some issuer \<Rightarrow>
               require (ca_id issuer = i \<or> (has_signing_key issuer \<and> \<not> ca_pending issuer)) No_signing_key
               (require (ca_id issuer = i \<or> \<not> ca_revoked issuer) Parent_revoked
               (require (ca_id issuer = i \<or> \<not> ca_expired (e_now e) issuer) Ca_is_expired
               (and_then (bounded_not_after (e_cfg e) (e_now e) (Some (reissue_days e validity ca issuer)) None True (\<not> ca_is_root ca)) (\<lambda>na.
                  let row = alternate_of e (fresh_id xa_id (p_alts p)) i ''reissue'' (reissued_cert e ca issuer na (ca_path_length ca))
                         (if ca_id issuer = i then None else Some (ca_id issuer)) created_by approval;
                      p1 = add_alternate row p
                  in require (e_signs e issuer) Signing_failed
                       (if approval = ''approved''
                        then (case promote_reissue i row p1 of (p2, Some prev) \<Rightarrow> Inr (p2, prev) | (p2, None) \<Rightarrow> Inl Not_found)
                        else Inr (p1, row))))))))))"

text \<open>Is the CA above the issuer? The walk has no set of visited CAs; the fuel is the height of the hierarchy.\<close>

fun is_above :: "nat \<Rightarrow> pki \<Rightarrow> nat \<Rightarrow> ca_row option \<Rightarrow> bool" where
  "is_above 0 p i c = False"
| "is_above (Suc n) p i c =
     (case c of None \<Rightarrow> False | Some x \<Rightarrow> if ca_id x = i then True else is_above n p i (parent_ca p x))"

definition cross_sign_ca :: "env \<Rightarrow> nat \<Rightarrow> int option \<Rightarrow> nat option \<Rightarrow> string \<Rightarrow> nat \<Rightarrow> pki \<Rightarrow> pki_error + pki \<times> alternate" where
  "cross_sign_ca e jid validity created_by approval i p =
     (case (get_ca p i, get_ca p jid) of
        (Some ca, Some issuer) \<Rightarrow>
          require (ca_id issuer \<noteq> ca_id ca) Self_cross_sign
          (require (\<not> ca_revoked ca) Ca_revoked
          (require (has_signing_key issuer \<and> \<not> ca_pending issuer \<and> \<not> ca_revoked issuer) No_signing_key
          (require (\<not> ca_expired (e_now e) issuer) Ca_is_expired
          (require (\<not> is_above (Suc (length (p_cas p))) p i (Some issuer)) Would_loop
          (and_then (enforce_names p issuer (Some (ca_common_name ca)) []) (\<lambda>_.
           (and_then (clamp_path_length (ca_path_length issuer) (ca_path_length ca)) (\<lambda>pl.
            and_then (bounded_not_after (e_cfg e) (e_now e) (Some (cross_days e validity ca issuer)) None True (\<not> ca_is_root ca)) (\<lambda>na.
              let row = alternate_of e (fresh_id xa_id (p_alts p)) i ''cross'' (reissued_cert e ca issuer na pl) (Some jid)
                    created_by approval
              in require (e_signs e issuer) Signing_failed (Inr (add_alternate row p, row)))))))))))
      | _ \<Rightarrow> Inl Not_found)"

definition approve_alternate :: "env \<Rightarrow> nat \<Rightarrow> nat \<Rightarrow> pki \<Rightarrow> pki_error + pki \<times> alternate" where
  "approve_alternate e by_user aid p =
     (case get_row xa_id aid (p_alts p) of
        None \<Rightarrow> Inl Not_found
      | Some a \<Rightarrow>
          require (xa_approval a = ''pending'') Not_pending
            (let a' = a\<lparr>xa_approval := ''approved'', xa_approved_by := Some by_user, xa_approved_at := Some (e_now e)\<rparr>;
                 p1 = p\<lparr>p_alts := put_row xa_id a' (p_alts p)\<rparr>
             in if xa_kind a = ''reissue''
                then (case promote_reissue (xa_ca a) a' p1 of (p2, Some prev) \<Rightarrow> Inr (p2, prev) | (p2, None) \<Rightarrow> Inl Not_found)
                else Inr (p1, a')))"

definition delete_alternate :: "nat \<Rightarrow> pki \<Rightarrow> pki" where
  "delete_alternate aid p = p\<lparr>p_alts := filter (\<lambda>a. xa_id a \<noteq> aid) (p_alts p)\<rparr>"

end
