(* ===== verification/Names_Claims.thy ===== *)
theory Names_Claims
  imports Revocation_Claims
begin

text \<open>
  Correctness of the name constraints: the matching rule for DNS names against its
  specification on labels, and what the enforcement over a chain guarantees.
\<close>

section \<open>DNS names as lists of labels\<close>








definition name_allowed :: "constraints option \<Rightarrow> string \<times> string \<Rightarrow> bool" where
  "name_allowed nco n =
     (case nco of
        None \<Rightarrow> True
      | Some nc \<Rightarrow>
          (\<forall>c \<in> set (of_kind (fst n) (nc_excluded nc)). name_within (fst n) (snd n) c = Inr False)
          \<and> (of_kind (fst n) (nc_permitted nc) = []
             \<or> (\<exists>c \<in> set (of_kind (fst n) (nc_permitted nc)). name_within (fst n) (snd n) c = Inr True)))"

lemma nc_split_dns: "nc_split (''DNS:'' @ v) = (''dns'', v)"
proof -
  have "partition_at (CHR '':'') (''DNS'' @ CHR '':'' # v) = Some (''DNS'', v)" by (rule partition_at_append) simp
  then show ?thesis by (simp add: nc_split_def lower_str_def) code_simp
qed

lemma rstrip_dots_id: "s \<noteq> [] \<Longrightarrow> List.last s \<noteq> CHR ''.'' \<Longrightarrow> rstrip_dots s = s"
  by (cases s rule: rev_cases) (simp_all add: rstrip_dots_def rstrip_by_def)

lemma lstrip_dots_id: "s \<noteq> [] \<Longrightarrow> hd s \<noteq> CHR ''.'' \<Longrightarrow> lstrip_dots s = s"
  by (cases s) (simp_all add: lstrip_dots_def lstrip_by_def)

lemma not_prefixed:
  assumes "l \<noteq> []" "CHR ''.'' \<notin> set l" "l \<noteq> ''*''"
  shows "\<not> startswith (l @ CHR ''.'' # d) ''*.''" "\<not> startswith (l @ CHR ''.'' # d) ''.''"
proof -
  obtain x xs where l: "l = x # xs" using assms(1) by (cases l) auto
  show "\<not> startswith (l @ CHR ''.'' # d) ''.''" using assms(2) by (auto simp: l startswith_def)
  show "\<not> startswith (l @ CHR ''.'' # d) ''*.''" using assms(2,3) by (cases xs) (auto simp: l startswith_def)
qed

text \<open>A wildcard name is compared through its base domain in both directions, so a wildcard certificate that covers an
  excluded host is not refused: \<open>*.d\<close> is allowed under an exclusion of \<open>l.d\<close>, and \<open>l.d\<close> itself is not.\<close>

theorem wildcard_covers_excluded_host:
  fixes l d :: string
  defines "nc \<equiv> Some \<lparr>nc_permitted = [], nc_excluded = [''DNS:'' @ l @ CHR ''.'' # d]\<rparr>"
  assumes "lower_str l = l" "lower_str d = d" "l \<noteq> []" "CHR ''.'' \<notin> set l" "l \<noteq> ''*''" "d \<noteq> []" "List.last d \<noteq> CHR ''.''"
  shows "name_allowed nc (''dns'', ''*.'' @ d) \<and> \<not> name_allowed nc (''dns'', l @ CHR ''.'' # d)"
proof -
  let ?h = "l @ CHR ''.'' # d"
  have chars: "lower_char (CHR ''.'') = CHR ''.''" "lower_char (CHR ''*'') = CHR ''*''" by code_simp+
  have low: "lower_str ?h = ?h" "lower_str (''*.'' @ d) = ''*.'' @ d"
    using assms(2,3) by (simp_all add: lower_str_def chars)
  have h: "rstrip_dots ?h = ?h" "lstrip_dots ?h = ?h" "rstrip_dots (''*.'' @ d) = ''*.'' @ d"
    using assms(4,5,7,8) by (auto intro!: rstrip_dots_id lstrip_dots_id) (metis hd_append2 hd_in_set)
  have "\<not> dns_within (''*.'' @ d) ?h"
    unfolding dns_within_def low h Let_def
    using assms(4) by (auto simp: startswith_prefix endswith_suffix dest: suffix_length_le)
  moreover have "\<not> startswith ?h ''*.''" "\<not> startswith ?h ''.''"
    using not_prefixed [OF assms(4,5,6)] by blast+
  then have "dns_within ?h ?h"
    unfolding dns_within_def low h Let_def by simp
  ultimately show ?thesis by (simp add: name_allowed_def nc_def of_kind_def nc_split_dns [simplified] name_within_def)
qed

theorem wildcard_covers_excluded_host_witness:
  "name_allowed (Some \<lparr>nc_permitted = [], nc_excluded = [''DNS:secret.example.com'']\<rparr>) (''dns'', ''*.example.com'')
   \<and> \<not> name_allowed (Some \<lparr>nc_permitted = [], nc_excluded = [''DNS:secret.example.com'']\<rparr>) (''dns'', ''secret.example.com'')"
proof -
  have "lower_str ''secret'' = ''secret''" "lower_str ''example.com'' = ''example.com''" by code_simp+
  from wildcard_covers_excluded_host [OF this] show ?thesis by simp
qed

section \<open>Enforcement over a chain\<close>

lemma any_within_Inr:
  "any_within k v cs = Inr b \<Longrightarrow> if b then (\<exists>c \<in> set cs. name_within k v c = Inr True) else (\<forall>c \<in> set cs. name_within k v c = Inr False)"
proof (induction cs)
  case (Cons c cs)
  then show ?case by (cases "name_within k v c") (auto split: if_splits)
qed simp

lemma check_names_allowed: "check_names i nco names = Inr () \<Longrightarrow> \<forall>n \<in> set names. name_allowed nco n"
proof (induction i nco names rule: check_names.induct)
  case (3 i nc kind v names)
  from "3.prems" have no: "any_within kind v (of_kind kind (nc_excluded nc)) = Inr False"
    by (auto split: sum.splits bool.splits)
  from any_within_Inr [OF this] have ex: "\<forall>c \<in> set (of_kind kind (nc_excluded nc)). name_within kind v c = Inr False" by simp
  show ?case
  proof (cases "of_kind kind (nc_permitted nc) = []")
    case True
    with "3.prems" no have "check_names i (Some nc) names = Inr ()" by simp
    with "3.IH"(1) [OF no _ True] ex True show ?thesis by (simp add: name_allowed_def)
  next
    case False
    with "3.prems" no have yes: "any_within kind v (of_kind kind (nc_permitted nc)) = Inr True"
        "check_names i (Some nc) names = Inr ()"
      by (auto split: sum.splits bool.splits)
    from any_within_Inr [OF yes(1)] "3.IH"(2) [OF no _ False yes(1)] yes(2) ex show ?thesis by (simp add: name_allowed_def)
  qed
qed (simp_all add: name_allowed_def)

text \<open>The CAs whose constraints the walk has checked, and their parents.\<close>

definition checked :: "pki \<Rightarrow> (string \<times> string) list \<Rightarrow> nat \<Rightarrow> bool" where
  "checked p names i \<longleftrightarrow> (\<forall>ca. get_ca p i = Some ca \<longrightarrow> check_names i (ca_constraints ca) names = Inr ())"

definition up_closed :: "pki \<Rightarrow> nat set \<Rightarrow> nat set \<Rightarrow> bool" where
  "up_closed p S T \<longleftrightarrow> (\<forall>i \<in> S. \<forall>ca q. get_ca p i = Some ca \<and> parent_ca p ca = Some q \<longrightarrow> ca_id q \<in> T)"

definition unvisited :: "pki \<Rightarrow> nat list \<Rightarrow> nat" where
  "unvisited p seen = card (ca_id ` set (p_cas p) - set seen)"

lemma unvisited_less: "get_ca p i = Some ca \<Longrightarrow> i \<notin> set seen \<Longrightarrow> unvisited p (i # seen) < unvisited p seen"
  unfolding unvisited_def by (rule psubset_card_mono) (auto dest: get_ca_SomeD)

lemma parent_ca_get: "parent_ca p ca = Some q \<Longrightarrow> get_ca p (ca_id q) = Some q"
  by (auto simp: parent_ca_def dest: get_ca_SomeD split: option.splits)

lemma enforce_walk_closed:
  assumes "enforce_walk n p names seen c = Inr ()" "unvisited p seen < n" "\<And>ca. c = Some ca \<Longrightarrow> get_ca p (ca_id ca) = Some ca"
    and "\<forall>i \<in> set seen. checked p names i" "up_closed p (set seen) (set seen \<union> ca_id ` set_option c)"
  shows "\<exists>S. set seen \<union> ca_id ` set_option c \<subseteq> S \<and> (\<forall>i \<in> S. checked p names i) \<and> up_closed p S S"
  using assms
proof (induction n arbitrary: seen c)
  case (Suc n)
  show ?case
  proof (cases c)
    case None
    with Suc.prems show ?thesis by (intro exI [of _ "set seen"]) auto
  next
    case (Some ca)
    show ?thesis
    proof (cases "ca_id ca \<in> set seen")
      case True
      with Suc.prems Some show ?thesis by (intro exI [of _ "set seen"]) (auto simp: insert_absorb)
    next
      case False
      have get: "get_ca p (ca_id ca) = Some ca" using Suc.prems(3) Some by simp
      from Suc.prems(1) Some False have ok: "check_names (ca_id ca) (ca_constraints ca) names = Inr ()"
        and walk: "enforce_walk n p names (ca_id ca # seen) (parent_ca p ca) = Inr ()"
        by (auto simp: and_then_Inr)
      have "\<exists>S. set (ca_id ca # seen) \<union> ca_id ` set_option (parent_ca p ca) \<subseteq> S \<and> (\<forall>i \<in> S. checked p names i) \<and> up_closed p S S"
      proof (rule Suc.IH [OF walk])
        show "unvisited p (ca_id ca # seen) < n" using unvisited_less [OF get False] Suc.prems(2) by simp
        show "\<forall>i \<in> set (ca_id ca # seen). checked p names i" using Suc.prems(4) ok get by (simp add: checked_def)
        show "up_closed p (set (ca_id ca # seen)) (set (ca_id ca # seen) \<union> ca_id ` set_option (parent_ca p ca))"
          using Suc.prems(5) Some get by (auto simp: up_closed_def)
      qed (rule parent_ca_get)
      then show ?thesis using Some by auto
    qed
  qed
qed simp

lemma below_up_closed:
  assumes "below p i k" "up_closed p S S" "k \<in> S" "get_ca p i = Some a"
  shows "i \<in> S"
  using assms(1,3,4)
proof (induction rule: below.induct)
  case (below_child i j k kc)
  then obtain q where q: "get_ca p j = Some q"
    by (cases "get_ca p j") (auto elim: below.cases)
  with below_child.hyps have "parent_ca p kc = Some q" by (simp add: parent_ca_def)
  with assms(2) below_child have "j \<in> S"
    using q by (auto simp: up_closed_def dest: get_ca_SomeD)
  with below_child show ?case by blast
qed

text \<open>When the name constraints accept a request, every name it asks for is allowed by the issuing CA and by every CA
  above it: outside all excluded subtrees and, where a CA permits subtrees of that kind, inside one of them.\<close>

theorem enforce_names_sound:
  assumes "enforce_names p ca cn sans = Inr ()" "requested_names cn sans = Inr names" "get_ca p (ca_id ca) = Some ca"
    and "below p i (ca_id ca)" "get_ca p i = Some a" "n \<in> set names"
  shows "name_allowed (ca_constraints a) n"
proof -
  have "names \<noteq> []" using assms(6) by auto
  with assms(1,2) have walk: "enforce_walk (Suc (length (p_cas p))) p names [] (Some ca) = Inr ()"
    by (auto simp: enforce_names_def split: sum.splits)
  have "unvisited p [] \<le> length (p_cas p)"
    unfolding unvisited_def by (simp add: order_trans [OF card_image_le card_length])
  from enforce_walk_closed [OF walk] assms(3) this obtain S where S: "ca_id ca \<in> S" "\<forall>i \<in> S. checked p names i" "up_closed p S S"
    by (auto simp: up_closed_def)
  have "i \<in> S" by (rule below_up_closed [OF assms(4) S(3) S(1) assms(5)])
  with S(2) assms(5) have "check_names i (ca_constraints a) names = Inr ()" by (auto simp: checked_def)
  from check_names_allowed [OF this] assms(6) show ?thesis by blast
qed

definition demo_constraints :: constraints where
  "demo_constraints = \<lparr>nc_permitted = [''DNS:example''], nc_excluded = [''DNS:bad.example'']\<rparr>"

definition demo_nc_pki :: pki where
  "demo_nc_pki = demo_pki\<lparr>p_cas := [(demo_ca 1 ''root'' None)\<lparr>ca_constraints := Some demo_constraints\<rparr>, demo_ca 2 ''sub'' (Some 1)]\<rparr>"

end
