(* ===== verification/Authority_Claims.thy ===== *)
theory Authority_Claims
  imports Authority Names_Claims
begin

text \<open>
  Correctness of the life of a CA: what a new intermediate inherits, chains,
  re-issue and cross-certification.
\<close>

section \<open>Publication touches only the CRL columns\<close>

definition crl_free :: "ca_row \<Rightarrow> ca_row" where
  "crl_free ca = ca\<lparr>ca_crl_number := 0, ca_crl := None\<rparr>"

lemma publish_initial_crl_get:
  "map_option crl_free (get_ca (publish_initial_crl e i p) j) = map_option crl_free (get_ca p j)"
proof (cases "get_ca p i")
  case None
  then show ?thesis by (simp add: publish_initial_crl_def)
next
  case (Some ca)
  then have id: "ca_id ca = i" by (simp add: get_ca_SomeD)
  show ?thesis
  proof (cases "generate_crl e None None i p")
    case (Inl x)
    with Some show ?thesis by (simp add: publish_initial_crl_def)
  next
    case (Inr r)
    obtain p' c where r: "r = (p', c)" by fastforce
    from generate_crl_ok [OF Inr [unfolded r]] Some have
      "p' = put_ca (ca\<lparr>ca_crl_number := ca_crl_number ca + 1, ca_crl := Some c\<rparr>) p" by auto
    with Some Inr r id show ?thesis by (auto simp: publish_initial_crl_def get_put_ca crl_free_def)
  qed
qed

lemma publish_initial_crl_rows [simp]: "p_certs (publish_initial_crl e i p) = p_certs p" "p_alts (publish_initial_crl e i p) = p_alts p"
  "p_csrs (publish_initial_crl e i p) = p_csrs p"
  by (auto simp: publish_initial_crl_def generate_crl_def Let_def split: option.splits sum.splits)

lemma crl_free_eq:
  assumes "crl_free x = crl_free y"
  shows "ca_id x = ca_id y" "ca_parent x = ca_parent y" "ca_cert x = ca_cert y" "ca_not_after x = ca_not_after y"
    "ca_path_length x = ca_path_length y" "ca_is_root x = ca_is_root y" "ca_approval x = ca_approval y" "ca_revoked x = ca_revoked y"
  using assms by (cases x, cases y, simp add: crl_free_def)+

lemma get_ca_add: "get_ca (add_ca ca p) j = (case get_ca p j of None \<Rightarrow> if ca_id ca = j then Some ca else None | Some c \<Rightarrow> Some c)"
proof -
  have "find P (xs @ [x]) = (case find P xs of None \<Rightarrow> if P x then Some x else None | Some y \<Rightarrow> Some y)" for P :: "ca_row \<Rightarrow> bool" and xs x
    by (induction xs) auto
  then show ?thesis by (simp add: get_ca_def get_row_def add_ca_def)
qed

lemma get_ca_fresh: "ca_id ca = fresh_id ca_id (p_cas p) \<Longrightarrow> get_ca (add_ca ca p) (fresh_id ca_id (p_cas p)) = Some ca"
  using fresh_id_notin [of ca_id "p_cas p"] by (simp add: get_ca_add get_row_None [symmetric] get_ca_def [symmetric])

lemma ca_row_of_simps [simp]:
  "ca_id (ca_row_of e q i par cert kt na pl) = i" "ca_parent (ca_row_of e q i par cert kt na pl) = par"
  "ca_cert (ca_row_of e q i par cert kt na pl) = cert" "ca_not_after (ca_row_of e q i par cert kt na pl) = na"
  "ca_path_length (ca_row_of e q i par cert kt na pl) = pl" "ca_is_root (ca_row_of e q i par cert kt na pl) = (par = None)"
  "\<not> ca_revoked (ca_row_of e q i par cert kt na pl)" "ca_name (ca_row_of e q i par cert kt na pl) = na_name q"
  "ca_approval (ca_row_of e q i par cert kt na pl) = na_approval q"
  by (simp_all add: ca_row_of_def)

section \<open>Bounds\<close>

lemma whole_le: "whole t \<le> t"
  by (simp add: whole_def)

lemma whole_gt: "t - seconds 1 < whole t"
  unfolding whole_def seconds_def using pos_mod_bound [of 1000000 t] by linarith

lemma whole_mono: "s \<le> t \<Longrightarrow> whole s \<le> whole t"
proof -
  have "whole u = 1000000 * (u div 1000000)" for u by (simp add: whole_def minus_mod_eq_mult_div)
  then show "s \<le> t \<Longrightarrow> whole s \<le> whole t" by (simp add: zdiv_mono1)
qed

lemma bounded_not_after_bounds:
  assumes "bounded_not_after cf now v cap is_ca mid = Inr t"
  shows "\<exists>d. v = Some d \<and> 1 \<le> d \<and> t \<le> now + days d
    \<and> d \<le> (if \<not> is_ca then pc_max_cert_days cf else if mid then pc_max_intermediate_days cf else pc_max_ca_days cf)
    \<and> (\<forall>c. cap = Some c \<longrightarrow> t \<le> c) \<and> (cap = None \<longrightarrow> t = now + days d)
    \<and> (\<forall>c. cap = Some c \<and> now < c \<longrightarrow> now < t) \<and> (cap = None \<longrightarrow> now < t)"
  using assms days_pos by (fastforce simp: bounded_not_after_def Let_def split: option.splits if_splits)

lemma clamp_path_length_less:
  "clamp_path_length (Some m) r = Inr pl \<Longrightarrow> 0 < m \<and> (\<exists>k. pl = Some k \<and> k < m)"
  by (auto simp: clamp_path_length_def split: option.splits if_splits)

text \<open>C36. A new intermediate stays within its parent: it is a CA certificate signed with the parent's key under its name,
  never outlives the parent nor exceeds the configured maximum, its path length is strictly below the parent's when
  the parent has one, its name was free, and the parent is neither revoked, expired, keyless nor awaiting approval.\<close>

theorem intermediate_within_parent:
  assumes "create_intermediate_ca e pid q p = Inr (p', i)"
  shows "\<exists>parent ca. get_ca p pid = Some parent \<and> get_ca p' i = Some ca \<and> get_ca p i = None
    \<and> has_signing_key parent \<and> \<not> ca_pending parent \<and> \<not> ca_revoked parent \<and> e_now e < ca_not_after parent
    \<and> ca_parent ca = Some pid \<and> name_free p (na_name q)
    \<and> x_constraints (ca_cert ca) = Some (True, ca_path_length ca) \<and> x_signer (ca_cert ca) = x_key (ca_cert parent)
    \<and> x_issuer (ca_cert ca) = x_subject (ca_cert parent)
    \<and> x_not_after (ca_cert ca) \<le> ca_not_after ca \<and> ca_not_after ca \<le> ca_not_after parent
    \<and> e_now e < ca_not_after ca \<and> ca_not_after ca \<le> e_now e + days (pc_max_intermediate_days (e_cfg e))
    \<and> (\<forall>m. ca_path_length parent = Some m \<longrightarrow> (\<exists>k. ca_path_length ca = Some k \<and> 0 \<le> k \<and> k < m))"
proof -
  from assms obtain parent where parent: "get_ca p pid = Some parent"
    by (auto simp: create_intermediate_ca_def split: option.splits)
  with assms obtain key kt subject pl na where
    checks: "has_signing_key parent" "\<not> ca_pending parent" "\<not> ca_revoked parent" "\<not> ca_expired (e_now e) parent" "name_free p (na_name q)"
    and pl: "clamp_path_length (ca_path_length parent) (na_path_length q) = Inr pl" "path_ok pl"
    and na: "bounded_not_after (e_cfg e) (e_now e) (na_validity q) (Some (ca_not_after parent)) True True = Inr na"
    and i: "i = fresh_id ca_id (p_cas p)"
    and p': "p' = publish_initial_crl e i (add_ca (ca_row_of e q i (Some pid)
        (ca_tbs e subject (x_subject (ca_cert parent)) key na pl (x_key (ca_cert parent)) (na_constraints q) (na_policies q)) kt na pl) p)"
    by (auto simp: create_intermediate_ca_def and_then_Inr Let_def)
  define row where "row = ca_row_of e q i (Some pid)
        (ca_tbs e subject (x_subject (ca_cert parent)) key na pl (x_key (ca_cert parent)) (na_constraints q) (na_policies q)) kt na pl"
  have "get_ca (add_ca row p) i = Some row" unfolding i by (rule get_ca_fresh) (simp add: row_def i)
  then obtain ca where ca: "get_ca p' i = Some ca" "crl_free ca = crl_free row"
    using publish_initial_crl_get [of e i "add_ca row p" i] by (auto simp: p' row_def [symmetric])
  have new: "get_ca p i = None" using fresh_id_notin [of ca_id "p_cas p"] by (simp add: get_ca_def get_row_None i)
  obtain d where d: "na_validity q = Some d" "na \<le> e_now e + days d" "d \<le> pc_max_intermediate_days (e_cfg e)"
      "na \<le> ca_not_after parent" "e_now e < na"
    using bounded_not_after_bounds [OF na] checks(4) by (auto simp: ca_expired_def not_le)
  have "na \<le> e_now e + days (pc_max_intermediate_days (e_cfg e))" using d(2) days_mono [OF d(3)] by simp
  moreover have "\<exists>k. pl = Some k \<and> 0 \<le> k \<and> k < m" if "ca_path_length parent = Some m" for m
    using clamp_path_length_less [of m "na_path_length q" pl] pl that by (auto simp: path_ok_def)
  ultimately show ?thesis
    using parent checks ca(1) new d(4,5) crl_free_eq [OF ca(2)]
    by (intro exI [of _ parent] exI [of _ ca]) (simp add: row_def ca_tbs_def ca_expired_def whole_le not_le)
qed

definition gives :: "('a \<Rightarrow> bool) \<Rightarrow> 'e + 'a \<Rightarrow> bool" where
  "gives P r \<longleftrightarrow> (case r of Inl _ \<Rightarrow> False | Inr x \<Rightarrow> P x)"

lemma givesD: "gives P r \<Longrightarrow> \<exists>x. r = Inr x \<and> P x"
  by (auto simp: gives_def split: sum.splits)

definition demo_new_ca :: new_ca where
  "demo_new_ca = \<lparr>na_name = ''issuing'', na_attrs = [(''CN'', ''Issuing CA'')], na_key_type = ''EC'', na_key_size = 256,
     na_validity = Some 3650, na_path_length = None, na_backend = None, na_created_by = Some 1, na_approval = ''approved'',
     na_constraints = None, na_policies = []\<rparr>"

definition demo_path_pki :: pki where
  "demo_path_pki = demo_pki\<lparr>p_cas := [(demo_ca 1 ''root'' None)\<lparr>ca_path_length := Some 1\<rparr>]\<rparr>"

lemma demo_path_get: "get_ca demo_path_pki 1 = Some ((demo_ca 1 ''root'' None)\<lparr>ca_path_length := Some 1\<rparr>)"
  by (simp add: get_ca_def get_row_def demo_path_pki_def demo_ca_def)

lemma demo_ca_name: "requested_names (Some ''Issuing CA'') [] = Inr []"
  by code_simp

lemma demo_key: "enforce_key_strength demo_cfg ''EC'' 256 = Inr ()" "generate_key demo_cfg m ''EC'' 256 = Inr (Ec ''secp256r1'' 256 m)"
  by (simp_all add: enforce_key_strength_def generate_key_def)

lemma demo_subject: "build_subject (e_attr_ok demo_env) [(''CN'', ''Issuing CA'')] = Inr [(''CN'', ''Issuing CA'')]"
  by code_simp

lemma demo_creates: "gives (\<lambda>r. snd r = 2) (create_intermediate_ca demo_env 1 demo_new_ca demo_path_pki)"
proof -
  have "enforce_names demo_path_pki ca (Some ''Issuing CA'') [] = Inr ()" for ca
    by (simp add: enforce_names_def demo_ca_name)
  moreover have "name_free demo_path_pki ''issuing''" by (simp add: name_free_def first_row_def demo_path_pki_def demo_ca_def)
  moreover have "fresh_id ca_id (p_cas demo_path_pki) = 2" by (simp add: fresh_id_def demo_path_pki_def demo_ca_def)
  moreover have "has_signing_key ((demo_ca 1 ''root'' None)\<lparr>ca_path_length := Some 1\<rparr>)"
    "\<not> ca_pending ((demo_ca 1 ''root'' None)\<lparr>ca_path_length := Some 1\<rparr>)" "e_signs demo_env ((demo_ca 1 ''root'' None)\<lparr>ca_path_length := Some 1\<rparr>)"
    by (simp_all add: demo_ca_def has_signing_key_def ca_pending_def demo_env_def)
  ultimately show ?thesis
    by (simp add: create_intermediate_ca_def demo_path_get demo_new_ca_def ca_expired_def demo_env_facts demo_ca_facts demo_key demo_subject
      clamp_path_length_def path_ok_def bounded_not_after_def days_eq gives_def Let_def del: One_nat_def)
qed

theorem intermediate_within_parent_witness:
  "\<exists>p' ca. create_intermediate_ca demo_env 1 demo_new_ca demo_path_pki = Inr (p', 2) \<and> get_ca p' 2 = Some ca
    \<and> ca_path_length ca = Some 0 \<and> ca_not_after ca \<le> days 900"
proof -
  obtain p' where r: "create_intermediate_ca demo_env 1 demo_new_ca demo_path_pki = Inr (p', 2)"
    using givesD [OF demo_creates] by auto
  have "ca_not_after (demo_ca 1 ''root'' None) = days 900" by (simp add: demo_ca_def)
  then show ?thesis using intermediate_within_parent [OF r] r demo_path_get by force
qed

section \<open>Chains\<close>

lemma chain_walk_fuel:
  assumes "unvisited p seen < m" "unvisited p seen < n" "\<And>ca. c = Some ca \<Longrightarrow> get_ca p (ca_id ca) = Some ca"
  shows "chain_walk m p via seen c = chain_walk n p via seen c"
  using assms
proof (induction m arbitrary: n seen c)
  case (Suc m)
  obtain k where n: "n = Suc k" using Suc.prems(2) by (cases n) auto
  show ?case
  proof (cases c)
    case (Some ca)
    have get: "get_ca p (ca_id ca) = Some ca" using Suc.prems(3) Some by simp
    have next_eq: "chain_walk m p via (ca_id ca # seen) d = chain_walk k p via (ca_id ca # seen) d"
      if "ca_id ca \<notin> set seen" "\<And>x. d = Some x \<Longrightarrow> get_ca p (ca_id x) = Some x" for d
      using unvisited_less [OF get that(1)] Suc.prems(1,2) n that(2) by (intro Suc.IH) auto
    have parent: "ca_id ca \<notin> set seen \<Longrightarrow>
        chain_walk m p via (ca_id ca # seen) (parent_ca p ca) = chain_walk k p via (ca_id ca # seen) (parent_ca p ca)"
      by (rule next_eq) (auto dest: parent_ca_get)
    have issuer: "ca_id ca \<notin> set seen \<Longrightarrow>
        chain_walk m p via (ca_id ca # seen) (get_ca p i) = chain_walk k p via (ca_id ca # seen) (get_ca p i)" for i
      by (rule next_eq) (auto dest: get_ca_SomeD)
    have none: "ca_id ca \<notin> set seen \<Longrightarrow>
        chain_walk m p via (ca_id ca # seen) None = chain_walk k p via (ca_id ca # seen) None"
      by (rule next_eq) auto
    show ?thesis using Some parent issuer none by (auto simp: n split: option.splits)
  qed (simp add: n)
qed simp

lemma unvisited_Nil: "unvisited p [] \<le> length (p_cas p)"
  unfolding unvisited_def by (simp add: order_trans [OF card_image_le card_length])

text \<open>C37. Exporting a chain ends on every database, also one whose parent references form a cycle: from some number of steps
  on, at most one for each CA, allowing more steps does not change the chain.\<close>

theorem chain_walk_terminates:
  assumes "get_ca p (ca_id ca) = Some ca" "length (p_cas p) < n"
  shows "chain_certs p ca via = require (case via of None \<Rightarrow> True | Some a \<Rightarrow> alternate_usable p a) Alternate_unusable
    (Inr (chain_walk n p via [] (Some ca)))"
proof -
  have "chain_walk (Suc (length (p_cas p))) p via [] (Some ca) = chain_walk n p via [] (Some ca)"
    by (rule chain_walk_fuel) (use assms unvisited_Nil [of p] in auto)
  then show ?thesis by (simp add: chain_certs_def)
qed

section \<open>The hierarchy\<close>

text \<open>A parent is stored before its children, so its id is smaller.\<close>

definition parents_older :: "pki \<Rightarrow> bool" where
  "parents_older p \<longleftrightarrow> (\<forall>ca \<in> set (p_cas p). \<forall>i. ca_parent ca = Some i \<longrightarrow> i < ca_id ca \<and> get_ca p i \<noteq> None)"

inductive chain_to_top :: "pki \<Rightarrow> ca_row list \<Rightarrow> bool" for p where
  top: "ca_parent ca = None \<Longrightarrow> chain_to_top p [ca]"
| link: "chain_to_top p (q # cs) \<Longrightarrow> parent_ca p ca = Some q \<Longrightarrow> chain_to_top p (ca # q # cs)"

lemma chain_walk_to_top:
  assumes "parents_older p" "get_ca p (ca_id ca) = Some ca" "unvisited p seen < n" "\<forall>i \<in> set seen. ca_id ca < i"
  shows "\<exists>cs. chain_to_top p (ca # cs) \<and> chain_walk n p None seen (Some ca) = map ca_cert (ca # cs)"
  using assms(2-)
proof (induction n arbitrary: ca seen)
  case (Suc n)
  have unseen: "ca_id ca \<notin> set seen" using Suc.prems(3) by auto
  show ?case
  proof (cases "ca_parent ca")
    case None
    then show ?thesis using unseen chain_to_top.top
      by (intro exI [of _ "[]"]) (cases n; simp add: parent_ca_def)
  next
    case (Some i)
    have "ca \<in> set (p_cas p)" using Suc.prems(1) by (simp add: get_ca_SomeD)
    with assms(1) Some obtain q where older: "i < ca_id ca" and q: "get_ca p i = Some q" by (auto simp: parents_older_def)
    have id: "ca_id q = i" using q by (simp add: get_ca_SomeD)
    have "\<exists>cs. chain_to_top p (q # cs) \<and> chain_walk n p None (ca_id ca # seen) (Some q) = map ca_cert (q # cs)"
      by (rule Suc.IH) (use Suc.prems unvisited_less [OF Suc.prems(1) unseen] older id q in auto)
    then obtain cs where cs: "chain_to_top p (q # cs)" "chain_walk n p None (ca_id ca # seen) (Some q) = map ca_cert (q # cs)" by blast
    have "parent_ca p ca = Some q" using Some q by (simp add: parent_ca_def)
    with cs unseen show ?thesis by (intro exI [of _ "q # cs"]) (auto intro: chain_to_top.link)
  qed
qed simp

text \<open>In a hierarchy built by the operations the exported chain of a CA is complete: its certificate first, then that of
  each parent in turn, up to a CA without a parent.\<close>

theorem chain_reaches_the_top:
  assumes "parents_older p" "get_ca p (ca_id ca) = Some ca"
  shows "\<exists>cs. chain_to_top p (ca # cs) \<and> chain_certs p ca None = Inr (map ca_cert (ca # cs))"
  using chain_walk_to_top [OF assms, of "[]" "Suc (length (p_cas p))"] unvisited_Nil [of p] by (auto simp: chain_certs_def)

lemma demo_parents_older: "parents_older demo_pki"
  unfolding parents_older_def using demo_get_ca by (auto simp: demo_pki_def)

theorem chain_walk_terminates_witness:
  "chain_certs demo_pki (demo_ca 2 ''sub'' (Some 1)) None = Inr (chain_walk 9 demo_pki None [] (Some (demo_ca 2 ''sub'' (Some 1))))"
  by (subst chain_walk_terminates [of demo_pki _ 9]) (simp_all add: demo_get_ca, simp add: demo_pki_def)

theorem chain_reaches_the_top_witness:
  "\<exists>cs. chain_to_top demo_pki (demo_ca 2 ''sub'' (Some 1) # cs)
    \<and> chain_certs demo_pki (demo_ca 2 ''sub'' (Some 1)) None = Inr (map ca_cert (demo_ca 2 ''sub'' (Some 1) # cs))"
  by (rule chain_reaches_the_top [OF demo_parents_older]) (simp add: demo_get_ca)

section \<open>Re-issue\<close>

definition issuer_of :: "pki \<Rightarrow> ca_row \<Rightarrow> ca_row option" where
  "issuer_of p ca = (if ca_is_root ca then Some ca else parent_ca p ca)"

lemma reissued_cert_simps [simp]:
  "x_key (reissued_cert e ca issuer na pl) = x_key (ca_cert ca)" "x_subject (reissued_cert e ca issuer na pl) = x_subject (ca_cert ca)"
  "x_constraints (reissued_cert e ca issuer na pl) = Some (True, pl)" "x_names (reissued_cert e ca issuer na pl) = ca_constraints ca"
  "x_policies (reissued_cert e ca issuer na pl) = ca_policies ca" "x_not_after (reissued_cert e ca issuer na pl) = whole na"
  "x_signer (reissued_cert e ca issuer na pl) = x_key (ca_cert issuer)" "x_serial (reissued_cert e ca issuer na pl) = e_serial e"
  "x_issuer (reissued_cert e ca issuer na pl) = x_subject (ca_cert issuer)"
  by (simp_all add: reissued_cert_def ca_tbs_def)

lemma get_ca_add_alternate [simp]: "get_ca (add_alternate a p) i = get_ca p i" "p_cas (add_alternate a p) = p_cas p"
  "p_certs (add_alternate a p) = p_certs p"
  by (simp_all add: get_ca_def add_alternate_def)

lemma promote_reissue_get:
  assumes "get_ca p i = Some ca" "promote_reissue i row p = (p', r)"
  shows "get_ca p' j = (if j = i then Some (ca\<lparr>ca_cert := xa_cert row, ca_serial := xa_serial row,
      ca_not_before := x_not_before (xa_cert row), ca_not_after := x_not_after (xa_cert row), ca_notified_at := None\<rparr>) else get_ca p j)"
    "\<exists>prev. r = Some prev \<and> prev \<in> set (p_alts p') \<and> xa_kind prev = ''previous'' \<and> xa_cert prev = ca_cert ca
      \<and> xa_serial prev = ca_serial ca \<and> xa_ca prev = i \<and> xa_approval prev = ''approved''"
    "p_certs p' = p_certs p"
proof -
  have id: "ca_id ca = i" using assms(1) by (simp add: get_ca_SomeD)
  have same: "get_ca (p\<lparr>p_cas := cs, p_alts := as\<rparr>) k = get_row ca_id k cs" for cs as k by (simp add: get_ca_def)
  show "get_ca p' j = (if j = i then Some (ca\<lparr>ca_cert := xa_cert row, ca_serial := xa_serial row,
      ca_not_before := x_not_before (xa_cert row), ca_not_after := x_not_after (xa_cert row), ca_notified_at := None\<rparr>) else get_ca p j)"
    using assms id by (auto simp: promote_reissue_def Let_def put_ca_def get_ca_def get_put_same get_put_other)
  show "\<exists>prev. r = Some prev \<and> prev \<in> set (p_alts p') \<and> xa_kind prev = ''previous'' \<and> xa_cert prev = ca_cert ca
      \<and> xa_serial prev = ca_serial ca \<and> xa_ca prev = i \<and> xa_approval prev = ''approved''"
    using assms by (auto simp: promote_reissue_def Let_def)
  show "p_certs p' = p_certs p" using assms by (auto simp: promote_reissue_def Let_def)
qed

lemma reissue_ok:
  assumes "reissue_ca e v creator ap i p = Inr (p', a)"
  obtains ca issuer na row where "get_ca p i = Some ca" "issuer_of p ca = Some issuer" "\<not> ca_revoked ca" "\<not> ca_pending ca"
    "ca_id issuer \<noteq> i \<Longrightarrow> has_signing_key issuer \<and> \<not> ca_pending issuer \<and> \<not> ca_revoked issuer \<and> \<not> ca_expired (e_now e) issuer"
    "bounded_not_after (e_cfg e) (e_now e) (Some (reissue_days e v ca issuer)) None True (\<not> ca_is_root ca) = Inr na"
    "xa_cert row = reissued_cert e ca issuer na (ca_path_length ca)" "xa_serial row = e_serial e" "xa_kind row = ''reissue''" "xa_approval row = ap"
    "if ap = ''approved'' then promote_reissue i row (add_alternate row p) = (p', Some a) else p' = add_alternate row p \<and> a = row"
proof -
  from assms obtain ca where ca: "get_ca p i = Some ca" by (auto simp: reissue_ca_def split: option.splits)
  with assms obtain issuer where iss: "issuer_of p ca = Some issuer"
    by (auto simp: reissue_ca_def issuer_of_def split: option.splits if_splits)
  from assms obtain na where na: "bounded_not_after (e_cfg e) (e_now e) (Some (reissue_days e v ca issuer)) None True (\<not> ca_is_root ca) = Inr na"
    by (auto simp: reissue_ca_def ca iss [unfolded issuer_of_def] and_then_Inr)
  define row where "row = alternate_of e (fresh_id xa_id (p_alts p)) i ''reissue'' (reissued_cert e ca issuer na (ca_path_length ca))
     (if ca_id issuer = i then None else Some (ca_id issuer)) creator ap"
  have checks: "\<not> ca_revoked ca" "\<not> ca_pending ca"
    "ca_id issuer \<noteq> i \<Longrightarrow> has_signing_key issuer \<and> \<not> ca_pending issuer \<and> \<not> ca_revoked issuer \<and> \<not> ca_expired (e_now e) issuer"
    using assms by (auto simp: reissue_ca_def ca iss [unfolded issuer_of_def])
  have row: "xa_cert row = reissued_cert e ca issuer na (ca_path_length ca)" "xa_serial row = e_serial e" "xa_kind row = ''reissue''" "xa_approval row = ap"
    by (simp_all add: row_def alternate_of_def)
  have "(if ap = ''approved''
         then (case promote_reissue i row (add_alternate row p) of (p2, Some prev) \<Rightarrow> Inr (p2, prev) | (p2, None) \<Rightarrow> Inl Not_found)
         else Inr (add_alternate row p, row)) = Inr (p', a)"
    unfolding row_def using assms by (simp add: reissue_ca_def ca iss [unfolded issuer_of_def] na Let_def split del: if_split)
  then have res: "if ap = ''approved'' then promote_reissue i row (add_alternate row p) = (p', Some a) else p' = add_alternate row p \<and> a = row"
    by (auto split: if_splits prod.splits option.splits)
  show thesis by (rule that [OF ca iss checks na row res])
qed

text \<open>Re-issuing a CA keeps its identity: the new certificate has the key, subject, path length, constraints and policies of
  the CA and is signed by its issuer; an approved re-issue becomes the CA's certificate and the old one is kept as its
  \<open>previous\<close> alternate, one that awaits approval leaves the CA as it is; no other CA changes, and a revoked or
  pending CA is never re-issued.\<close>

theorem reissue_keeps_identity:
  assumes "reissue_ca e v creator ap i p = Inr (p', a)"
  shows "\<exists>ca ca' issuer cert. get_ca p i = Some ca \<and> get_ca p' i = Some ca' \<and> issuer_of p ca = Some issuer
    \<and> \<not> ca_revoked ca \<and> \<not> ca_pending ca \<and> x_signer cert = x_key (ca_cert issuer)
    \<and> x_key cert = x_key (ca_cert ca) \<and> x_subject cert = x_subject (ca_cert ca) \<and> x_constraints cert = Some (True, ca_path_length ca)
    \<and> x_names cert = ca_constraints ca \<and> x_policies cert = ca_policies ca
    \<and> (if ap = ''approved''
       then ca_cert ca' = cert \<and> ca_serial ca' = x_serial cert \<and> a \<in> set (p_alts p') \<and> xa_kind a = ''previous'' \<and> xa_cert a = ca_cert ca
       else ca' = ca \<and> a \<in> set (p_alts p') \<and> xa_cert a = cert \<and> xa_approval a = ap)
    \<and> (\<forall>j. j \<noteq> i \<longrightarrow> get_ca p' j = get_ca p j)"
proof -
  obtain ca issuer na row where ca: "get_ca p i = Some ca" and iss: "issuer_of p ca = Some issuer"
    and ok: "\<not> ca_revoked ca" "\<not> ca_pending ca"
    and row: "xa_cert row = reissued_cert e ca issuer na (ca_path_length ca)" "xa_serial row = e_serial e" "xa_approval row = ap"
    and res: "if ap = ''approved'' then promote_reissue i row (add_alternate row p) = (p', Some a) else p' = add_alternate row p \<and> a = row"
    using assms by (rule reissue_ok)
  show ?thesis
  proof (cases "ap = ''approved''")
    case True
    with res have pr: "promote_reissue i row (add_alternate row p) = (p', Some a)" by simp
    have ca1: "get_ca (add_alternate row p) i = Some ca" using ca by simp
    note g = promote_reissue_get [OF ca1 pr]
    from ca iss ok g(1) g(2) row True show ?thesis
      by (intro exI [of _ ca] exI [of _ "the (get_ca p' i)"] exI [of _ issuer] exI [of _ "reissued_cert e ca issuer na (ca_path_length ca)"]) auto
  next
    case False
    with res ca iss ok row show ?thesis
      by (intro exI [of _ ca] exI [of _ ca] exI [of _ issuer] exI [of _ "reissued_cert e ca issuer na (ca_path_length ca)"])
        (auto simp: add_alternate_def get_ca_def)
  qed
qed

lemmas demo_reissue_defs = parent_ca_def demo_get_ca has_signing_key_def ca_pending_def ca_expired_def reissue_days_def clamp_days_def whole_days_def
  bounded_not_after_def alternate_of_def reissued_cert_def ca_tbs_def add_alternate_def promote_reissue_def Let_def

lemma demo_reissues: "gives (\<lambda>r. xa_serial (snd r) = 12) (reissue_ca demo_env None (Some 1) ''approved'' 2 demo_pki)"
  by (simp add: reissue_ca_def demo_reissue_defs demo_pki_defs gives_def days_eq get_ca_def get_row_def)

theorem reissue_keeps_identity_witness:
  "\<exists>p' a ca'. reissue_ca demo_env None (Some 1) ''approved'' 2 demo_pki = Inr (p', a) \<and> get_ca p' 2 = Some ca'
    \<and> x_key (ca_cert ca') = Rsa 3072 2 \<and> xa_cert a = ca_cert (demo_ca 2 ''sub'' (Some 1))"
proof -
  obtain p' a where r: "reissue_ca demo_env None (Some 1) ''approved'' 2 demo_pki = Inr (p', a)"
    using givesD [OF demo_reissues] by fastforce
  have "x_key (ca_cert (demo_ca 2 ''sub'' (Some 1))) = Rsa 3072 2" by (simp add: demo_ca_def demo_tbs_def)
  with reissue_keeps_identity [OF r] r show ?thesis by (auto simp: demo_get_ca)
qed

text \<open>The validity of a re-issued sub-CA is clamped to the whole days its issuer has left, but to no less than one day, so
  in the issuer's last day the new certificate outlives the issuer.\<close>

theorem reissue_outlives_issuer:
  assumes "reissue_ca e v creator ''approved'' i p = Inr (p', a)" "get_ca p i = Some ca" "parent_ca p ca = Some issuer"
    and "\<not> ca_is_root ca" "ca_id issuer \<noteq> i" "ca_not_after issuer + seconds 1 \<le> e_now e + days 1"
  shows "\<exists>ca'. get_ca p' i = Some ca' \<and> ca_not_after issuer < x_not_after (ca_cert ca')
    \<and> x_signer (ca_cert ca') = x_key (ca_cert issuer) \<and> e_now e < ca_not_after issuer"
proof -
  from assms(1) obtain ca1 iss na row where r: "get_ca p i = Some ca1" "issuer_of p ca1 = Some iss"
    "ca_id iss \<noteq> i \<Longrightarrow> has_signing_key iss \<and> \<not> ca_pending iss \<and> \<not> ca_revoked iss \<and> \<not> ca_expired (e_now e) iss"
    "bounded_not_after (e_cfg e) (e_now e) (Some (reissue_days e v ca1 iss)) None True (\<not> ca_is_root ca1) = Inr na"
    "xa_cert row = reissued_cert e ca1 iss na (ca_path_length ca1)" "xa_serial row = e_serial e"
    "promote_reissue i row (add_alternate row p) = (p', Some a)"
    by (rule reissue_ok) auto
  from r(1,2) assms(2-4) have eq: "ca1 = ca" "iss = issuer" by (auto simp: issuer_of_def)
  obtain d where "1 \<le> d" "na = e_now e + days d" using bounded_not_after_bounds [OF r(4)] by auto
  then have "e_now e + days 1 \<le> na" using days_mono [of 1 d] by simp
  with assms(6) have "ca_not_after issuer + seconds 1 \<le> na" by simp
  with whole_gt [of na] have "ca_not_after issuer < whole na" by simp
  moreover have "get_ca (add_alternate row p) i = Some ca" using assms(2) by simp
  note promote_reissue_get(1) [OF this r(7), of i]
  ultimately show ?thesis using r(3,5) eq assms(5) by (auto simp: ca_expired_def)
qed

definition demo_last_day :: env where
  "demo_last_day = demo_env\<lparr>e_now := days 899 + hours 12\<rparr>"

lemma demo_reissues_late: "gives (\<lambda>r. True) (reissue_ca demo_last_day None (Some 1) ''approved'' 2 demo_pki)"
  by (simp add: reissue_ca_def demo_reissue_defs demo_pki_defs demo_last_day_def gives_def days_eq get_ca_def get_row_def hours_def minutes_def seconds_def)

theorem reissue_outlives_issuer_witness:
  "\<exists>p' a ca'. reissue_ca demo_last_day None (Some 1) ''approved'' 2 demo_pki = Inr (p', a) \<and> get_ca p' 2 = Some ca'
    \<and> ca_not_after (demo_ca 1 ''root'' None) < x_not_after (ca_cert ca')"
proof -
  obtain p' a where r: "reissue_ca demo_last_day None (Some 1) ''approved'' 2 demo_pki = Inr (p', a)"
    using givesD [OF demo_reissues_late] by fastforce
  have "parent_ca demo_pki (demo_ca 2 ''sub'' (Some 1)) = Some (demo_ca 1 ''root'' None)" by (simp add: parent_ca_def demo_get_ca)
  from reissue_outlives_issuer [OF r _ this] r show ?thesis
    by (auto simp: demo_get_ca demo_last_day_def demo_ca_def days_eq hours_def minutes_def seconds_def)
qed

section \<open>Superseded certificates and revocation\<close>

lemma mark_revoked_serials:
  assumes "ca \<in> set (p_cas p)"
  shows "ca_serial ` set (p_cas (mark_revoked now r ca p)) \<subseteq> ca_serial ` set (p_cas p)"
    "ct_serial ` set (p_certs (mark_revoked now r ca p)) \<subseteq> ct_serial ` set (p_certs p)"
    "p_alts (mark_revoked now r ca p) = p_alts p"
  using assms by (auto simp: mark_revoked_def dest!: put_row_mem)

lemma revoke_tree_serials:
  "revoke_tree now r is p = (p', d) \<Longrightarrow> ca_serial ` set (p_cas p') \<subseteq> ca_serial ` set (p_cas p)
    \<and> ct_serial ` set (p_certs p') \<subseteq> ct_serial ` set (p_certs p) \<and> p_alts p' = p_alts p"
proof (induction now r "is" p arbitrary: p' d rule: revoke_tree.induct)
  case (2 now r i "is" p)
  show ?case
  proof (cases "get_ca p i")
    case None
    with 2 show ?thesis by simp
  next
    case (Some ca)
    show ?thesis
    proof (cases "ca_revoked ca")
      case True
      with 2 Some show ?thesis by simp
    next
      case False
      obtain q c where q: "revoke_tree now r (map ca_id (children i p) @ is) (mark_revoked now r ca p) = (q, c)" by fastforce
      have "q = p'" using 2(4) q Some False by simp
      have "ca \<in> set (p_cas p)" using get_ca_SomeD [OF Some] by blast
      note m = mark_revoked_serials [OF this, of now r] and ih = 2(3) [OF Some False q]
      show ?thesis using subset_trans [OF _ m(1)] subset_trans [OF _ m(2)] m(3) ih \<open>q = p'\<close> by simp
    qed
  qed
qed simp

text \<open>Revocation forgets the superseded certificates of a CA: after a re-issue the old certificate, which has the same key
  and is still stored as the \<open>previous\<close> alternate, is on no CRL that any CA signs once the CA is revoked.\<close>

theorem superseded_certificate_not_on_crl:
  assumes "reissue_ca e1 v creator ''approved'' i p = Inr (p1, prev)" "revoke_ca e2 reason False i p1 = Inr (p2, x)"
    and "generate_crl e3 d nu j p2 = Inr (p3, c)"
    and "xa_serial prev \<notin> ca_serial ` set (p_cas p1)" "xa_serial prev \<notin> ct_serial ` set (p_certs p1)"
  shows "xa_serial prev \<notin> crl_serials c \<and> prev \<in> set (p_alts p2) \<and> xa_kind prev = ''previous'' \<and> xa_ca prev = i"
proof -
  from assms(1) obtain ca row where r: "get_ca p i = Some ca" "promote_reissue i row (add_alternate row p) = (p1, Some prev)"
    by (rule reissue_ok) auto
  then have prev: "prev \<in> set (p_alts p1)" "xa_kind prev = ''previous''" "xa_ca prev = i"
    using promote_reissue_get(2) [of "add_alternate row p" i ca row p1] by auto
  obtain ids where "revoke_tree (e_now e2) reason [i] p1 = (p2, ids)"
    using assms(2) by (auto simp: revoke_ca_def split: option.splits prod.splits)
  from revoke_tree_serials [OF this] have s: "ca_serial ` set (p_cas p2) \<subseteq> ca_serial ` set (p_cas p1)"
    "ct_serial ` set (p_certs p2) \<subseteq> ct_serial ` set (p_certs p1)" "p_alts p2 = p_alts p1" by blast+
  have "crl_entries c = revoked_entries (e_now e3) p2 j" using generate_crl_ok [OF assms(3)] by blast
  then have "crl_serials c \<subseteq> ca_serial ` set (p_cas p2) \<union> ct_serial ` set (p_certs p2)"
    by (auto simp: crl_serials_def revoked_entries_def)
  with s(1,2) have "crl_serials c \<subseteq> ca_serial ` set (p_cas p1) \<union> ct_serial ` set (p_certs p1)"
    by (meson Un_mono subset_trans)
  then have "xa_serial prev \<notin> crl_serials c" using assms(4,5) by (meson Un_iff subsetD)
  with prev show ?thesis by (simp add: s(3))
qed

definition ca_with :: "(ca_row \<Rightarrow> bool) \<Rightarrow> nat \<Rightarrow> pki \<Rightarrow> bool" where
  "ca_with P i p \<longleftrightarrow> (case get_ca p i of None \<Rightarrow> False | Some ca \<Rightarrow> P ca)"

lemma ca_withD: "ca_with P i p \<Longrightarrow> \<exists>ca. get_ca p i = Some ca \<and> P ca"
  by (auto simp: ca_with_def split: option.splits)

lemma demo_superseded: "gives (\<lambda>(p1, prev). xa_serial prev = 12 \<and> 12 \<notin> set (map ca_serial (p_cas p1)) \<and> 12 \<notin> set (map ct_serial (p_certs p1))
    \<and> length (children 2 p1) = 0 \<and> ca_with (\<lambda>c. \<not> ca_revoked c) 2 p1
    \<and> ca_with (\<lambda>c. has_signing_key c \<and> \<not> ca_pending c \<and> e_signs demo_env c) 1 p1)
    (reissue_ca demo_env None (Some 1) ''approved'' 2 demo_pki)"
  by (simp add: reissue_ca_def demo_reissue_defs demo_pki_defs gives_def days_eq get_ca_def get_row_def children_def ca_with_def put_ca_def put_row_def)

theorem superseded_certificate_not_on_crl_witness:
  "\<exists>p1 prev p2 x p3 c. reissue_ca demo_env None (Some 1) ''approved'' 2 demo_pki = Inr (p1, prev)
    \<and> revoke_ca demo_env ''key_compromise'' False 2 p1 = Inr (p2, x) \<and> generate_crl demo_env None None 1 p2 = Inr (p3, c)
    \<and> xa_serial prev = 12 \<and> 12 \<notin> crl_serials c \<and> prev \<in> set (p_alts p2)"
proof -
  obtain p1 prev where r: "reissue_ca demo_env None (Some 1) ''approved'' 2 demo_pki = Inr (p1, prev)"
    and s: "xa_serial prev = 12" "xa_serial prev \<notin> ca_serial ` set (p_cas p1)" "xa_serial prev \<notin> ct_serial ` set (p_certs p1)"
    and ch: "children 2 p1 = []" and "ca_with (\<lambda>c. \<not> ca_revoked c) 2 p1"
    and "ca_with (\<lambda>c. has_signing_key c \<and> \<not> ca_pending c \<and> e_signs demo_env c) 1 p1"
    using givesD [OF demo_superseded] by auto
  then obtain ca root where ca: "get_ca p1 2 = Some ca" "\<not> ca_revoked ca" and root: "get_ca p1 1 = Some root"
    "has_signing_key root" "\<not> ca_pending root" "e_signs demo_env root"
    using ca_withD by blast
  have id: "ca_id ca = 2" using ca(1) by (simp add: get_ca_SomeD)
  define p2 where "p2 = mark_revoked (e_now demo_env) ''key_compromise'' ca p1"
  have v: "revoke_ca demo_env ''key_compromise'' False 2 p1 = Inr (p2, None)"
    using ca ch by (simp add: revoke_ca_def REVOCATION_REASONS_def p2_def)
  have "get_ca p2 1 = Some root" using mark_revoked_get [of p1 ca] ca(1) id root(1) by (simp add: p2_def)
  then obtain p3 c where g: "generate_crl demo_env None None 1 p2 = Inr (p3, c)"
    using root by (simp add: generate_crl_def Let_def)
  from superseded_certificate_not_on_crl [OF r v g s(2,3)] r v g s(1) show ?thesis
    by (intro exI [of _ p1] exI [of _ prev] exI [of _ p2] exI [of _ None] exI [of _ p3] exI [of _ c]) simp
qed
section \<open>Cross-certification\<close>









end
