(* ===== verification/Issuance.thy ===== *)
theory Issuance
  imports Authority "HOL-Library.AList"
begin

text \<open>
  End-entity certificates: \<open>app/services/cert_service.py\<close> and
  \<open>app/services/csr_service.py\<close>. The attributes of a subject are written with the
  short keys of the forms (\<open>CN\<close> for \<open>commonName\<close>), a CSR by what it parses to.
\<close>

section \<open>The certificate builder\<close>

definition EKU_MAP :: "string list" where
  "EKU_MAP = [''serverAuth'', ''clientAuth'', ''codeSigning'', ''emailProtection'', ''timeStamping'', ''ocspSigning'']"

definition default_key_usage :: "(string \<times> bool) list" where
  "default_key_usage = [(''digital_signature'', True), (''key_encipherment'', True), (''content_commitment'', False),
     (''data_encipherment'', False), (''key_agreement'', False)]"

text \<open>The bits the Key Usage extension asserts: a missing key of the dict has the default.\<close>

definition key_usage_bits :: "(string \<times> bool) list option \<Rightarrow> string list" where
  "key_usage_bits ku =
     (let d = (case ku of None \<Rightarrow> [] | Some m \<Rightarrow> m)
      in map fst (filter (\<lambda>(k, default). case map_of d k of None \<Rightarrow> default | Some b \<Rightarrow> b) default_key_usage))"

definition ext_key_usage_oids :: "string list option \<Rightarrow> string list" where
  "ext_key_usage_oids eku =
     (case eku of
        Some (u # us) \<Rightarrow> filter (\<lambda>x. x \<in> set EKU_MAP) (u # us)
      | _ \<Rightarrow> [''serverAuth'', ''clientAuth''])"

definition nonempty_url :: "string option \<Rightarrow> string option" where
  "nonempty_url u = (case u of None \<Rightarrow> None | Some s \<Rightarrow> if s = [] then None else Some s)"

definition url_ok :: "env \<Rightarrow> string option \<Rightarrow> pki_error + string option" where
  "url_ok e u = (case u of None \<Rightarrow> Inr None | Some s \<Rightarrow> require (e_gn_ok e ''uri'' s) (Names_refused Bad_url) (Inr u))"

record leaf_options =
  lo_key_usage :: "(string \<times> bool) list option"
  lo_ext_key_usage :: "string list option"
  lo_san :: "string list"
  lo_ocsp :: "string option"
  lo_crl_dp :: "string option"
  lo_include_aia :: bool
  lo_policies :: "policy list"

definition leaf_builder :: "env \<Rightarrow> ca_row \<Rightarrow> dn \<Rightarrow> pub_key \<Rightarrow> int option \<Rightarrow> leaf_options \<Rightarrow> pki_error + tbs" where
  "leaf_builder e ca subject key validity opt =
     require (\<not> ca_expired (e_now e) ca) Ca_is_expired
       (and_then (bounded_not_after (e_cfg e) (e_now e) validity (Some (ca_not_after ca)) False False) (\<lambda>na.
        and_then (case build_general_names (e_gn_ok e) (lo_san opt) of Inl x \<Rightarrow> Inl (Names_refused x) | Inr ns \<Rightarrow> Inr ns) (\<lambda>san.
        and_then (url_ok e (if lo_include_aia opt then nonempty_url (lo_ocsp opt) else None)) (\<lambda>ocsp.
        and_then (url_ok e (nonempty_url (lo_crl_dp opt))) (\<lambda>crl_dp.
          Inr \<lparr>x_serial = e_serial e, x_subject = subject, x_issuer = x_subject (ca_cert ca), x_key = key,
            x_not_before = whole (e_now e), x_not_after = whole na, x_constraints = Some (False, None),
            x_key_usage = key_usage_bits (lo_key_usage opt), x_ext_key_usage = ext_key_usage_oids (lo_ext_key_usage opt),
            x_san = san, x_authority_key = x_key (ca_cert ca), x_ocsp = ocsp, x_crl_dp = crl_dp, x_names = None,
            x_policies = lo_policies opt, x_signer = x_key (ca_cert ca)\<rparr>)))))"

text \<open>The backend of the CA signs what the builder holds.\<close>

definition sign_leaf :: "env \<Rightarrow> ca_row \<Rightarrow> dn \<Rightarrow> pub_key \<Rightarrow> int option \<Rightarrow> leaf_options \<Rightarrow> pki_error + tbs" where
  "sign_leaf e ca subject key validity opt =
     and_then (leaf_builder e ca subject key validity opt) (\<lambda>cert. require (e_signs e ca) Signing_failed (Inr cert))"

section \<open>Requests for certificates\<close>

text \<open>A Python dict of the attributes: a later value of a key replaces the earlier one.\<close>

definition dict_of :: "dn \<Rightarrow> dn" where
  "dict_of subject = fold (\<lambda>(k, v) d. AList.update k v d) subject []"

text \<open>\<open>extension_to_strings\<close>: the other kinds of names are not carried.\<close>

definition label_of :: "string \<Rightarrow> string option" where
  "label_of kind = map_option fst (find (\<lambda>(l, k). k = kind) san_kinds)"

definition extension_to_strings :: "(string \<times> string) list \<Rightarrow> string list" where
  "extension_to_strings san =
     concat (map (\<lambda>(k, v). case label_of k of None \<Rightarrow> [] | Some l \<Rightarrow> [l @ CHR '':'' # v]) san)"

definition parse_csr :: "csr_req \<Rightarrow> dn \<times> string list" where
  "parse_csr csr = (dict_of (rq_subject csr), extension_to_strings (rq_san csr))"

definition some_nonempty :: "'a list \<Rightarrow> 'a list option" where
  "some_nonempty xs = (if xs = [] then None else Some xs)"

definition new_csr :: "pki \<Rightarrow> string \<Rightarrow> csr_req \<Rightarrow> string list \<Rightarrow> nat option \<Rightarrow> nat option \<Rightarrow> csr_row" where
  "new_csr p cn csr sans by_user prof =
     \<lparr>cs_id = fresh_id cs_id (p_csrs p), cs_common_name = cn, cs_csr = csr, cs_status = ''pending'', cs_ca = None,
      cs_certificate = None, cs_san = some_nonempty sans, cs_created_by = by_user, cs_signed_by = None, cs_profile = prof\<rparr>"

definition import_csr :: "env \<Rightarrow> csr_req \<Rightarrow> nat option \<Rightarrow> nat option \<Rightarrow> pki \<Rightarrow> pki_error + pki \<times> nat" where
  "import_csr e csr by_user prof p =
     (let (attrs, sans) = parse_csr csr;
          cn = (case map_of attrs ''CN'' of Some c \<Rightarrow> c | None \<Rightarrow> ''Unknown'');
          row = new_csr p cn csr sans by_user prof
      in and_then (enforce_public_key_strength (e_cfg e) (rq_key csr)) (\<lambda>_.
           Inr (p\<lparr>p_csrs := p_csrs p @ [row]\<rparr>, cs_id row)))"

definition create_csr :: "env \<Rightarrow> dn \<Rightarrow> string list \<Rightarrow> string \<Rightarrow> nat \<Rightarrow> nat option \<Rightarrow> nat option \<Rightarrow> pki \<Rightarrow> pki_error + pki \<times> nat" where
  "create_csr e attrs sans key_type key_size by_user prof p =
     and_then (generate_key (e_cfg e) (e_material e) key_type key_size) (\<lambda>key.
     and_then (build_subject (e_attr_ok e) attrs) (\<lambda>subject.
     and_then (case build_general_names (e_gn_ok e) sans of Inl x \<Rightarrow> Inl (Names_refused x) | Inr ns \<Rightarrow> Inr ns) (\<lambda>names.
       let row = new_csr p (case map_of attrs ''CN'' of Some c \<Rightarrow> c | None \<Rightarrow> [])
             \<lparr>rq_subject = subject, rq_key = key, rq_sig_ok = True, rq_san = names\<rparr> sans by_user prof
       in Inr (p\<lparr>p_csrs := p_csrs p @ [row]\<rparr>, cs_id row))))"

section \<open>Signing a request\<close>

record issue_request =
  ir_validity :: "int option"
  ir_san :: "string list"
  ir_key_usage :: "(string \<times> bool) list option"
  ir_ext_key_usage :: "string list option"
  ir_ocsp :: "string option"
  ir_crl_dp :: "string option"
  ir_by :: "nat option"

definition ca_can_issue :: "ca_row \<Rightarrow> pki_error + unit" where
  "ca_can_issue ca = require (has_signing_key ca) No_signing_key (require (\<not> ca_pending ca) Awaiting_approval (Inr ()))"

definition effective_san :: "issue_request \<Rightarrow> csr_row \<Rightarrow> string list" where
  "effective_san rq csr = (if ir_san rq \<noteq> [] then ir_san rq else case cs_san csr of None \<Rightarrow> [] | Some s \<Rightarrow> s)"

definition profile_id :: "profile option \<Rightarrow> nat option" where
  "profile_id pf = map_option pf_id pf"

text \<open>What \<open>sign_csr\<close> checks before it claims the CSR, and the usages of the certificate.\<close>

definition sign_checks :: "env \<Rightarrow> pki \<Rightarrow> profile option \<Rightarrow> issue_request \<Rightarrow> ca_row \<Rightarrow> csr_row
    \<Rightarrow> pki_error + (string \<times> bool) list option \<times> string list option \<times> bool" where
  "sign_checks e p pf rq ca csr =
     and_then (ca_can_issue ca) (\<lambda>_.
     require (rq_sig_ok (cs_csr csr)) Csr_signature
     (and_then (enforce_public_key_strength (e_cfg e) (rq_key (cs_csr csr))) (\<lambda>_.
      and_then (key_info (rq_key (cs_csr csr))) (\<lambda>kt.
      and_then (profile_enforce pf \<lparr>lr_key_type = fst kt, lr_key_size = snd kt, lr_validity = ir_validity rq,
         lr_san = effective_san rq csr, lr_common_name = Some (cs_common_name csr), lr_key_usage = ir_key_usage rq,
         lr_ext_key_usage = ir_ext_key_usage rq\<rparr>) (\<lambda>usage.
      and_then (enforce_names p ca (Some (cs_common_name csr)) (effective_san rq csr)) (\<lambda>_. Inr usage))))))"

definition set_csr :: "csr_row \<Rightarrow> pki \<Rightarrow> pki" where
  "set_csr csr p = p\<lparr>p_csrs := put_row cs_id csr (p_csrs p)\<rparr>"

text \<open>The two conditional updates: \<open>pending\<close> to \<open>signing\<close>, and back after a failure.\<close>

definition move_csr :: "string \<Rightarrow> string \<Rightarrow> nat \<Rightarrow> pki \<Rightarrow> pki option" where
  "move_csr old new i p =
     (case first_row (\<lambda>c. cs_id c = i \<and> cs_status c = old) (p_csrs p) of
        None \<Rightarrow> None
      | Some c \<Rightarrow> Some (set_csr (c\<lparr>cs_status := new\<rparr>) p))"

definition claim_csr :: "nat \<Rightarrow> pki \<Rightarrow> pki_error + pki" where
  "claim_csr i p = (case move_csr ''pending'' ''signing'' i p of None \<Rightarrow> Inl Csr_processed | Some p' \<Rightarrow> Inr p')"

definition release_csr :: "nat \<Rightarrow> pki \<Rightarrow> pki" where
  "release_csr i p = (case move_csr ''signing'' ''pending'' i p of None \<Rightarrow> p | Some p' \<Rightarrow> p')"

definition new_cert :: "pki \<Rightarrow> env \<Rightarrow> nat \<Rightarrow> tbs \<Rightarrow> string \<Rightarrow> dn \<Rightarrow> string \<times> nat \<Rightarrow> cert_row" where
  "new_cert p e ca cert cn subject kt =
     \<lparr>ct_id = fresh_id ct_id (p_certs p), ct_serial = x_serial cert, ct_common_name = cn, ct_subject = subject, ct_cert = cert,
      ct_key_enc = None, ct_ca = ca, ct_key_type = fst kt, ct_key_size = snd kt, ct_not_before = x_not_before cert,
      ct_not_after = x_not_after cert, ct_san = None, ct_key_usage = None, ct_ext_key_usage = None, ct_revoked = False,
      ct_revoked_at = None, ct_reason = None, ct_requested_by = None, ct_issued_by = None, ct_profile = None,
      ct_notified_at = None, ct_renewed_from = None, ct_source = None, ct_acme_account = None\<rparr>"

definition truthy :: "'a list option \<Rightarrow> 'a list option" where
  "truthy v = (case v of None \<Rightarrow> None | Some xs \<Rightarrow> some_nonempty xs)"

definition csr_certificate :: "pki \<Rightarrow> env \<Rightarrow> profile option \<Rightarrow> issue_request \<Rightarrow> (string \<times> bool) list option \<Rightarrow> string list option
    \<Rightarrow> ca_row \<Rightarrow> csr_row \<Rightarrow> tbs \<Rightarrow> string \<times> nat \<Rightarrow> cert_row" where
  "csr_certificate p e pf rq ku eku ca csr cert kt =
     (new_cert p e (ca_id ca) cert (cs_common_name csr) (dict_of (rq_subject (cs_csr csr))) kt)
       \<lparr>ct_san := (if effective_san rq csr \<noteq> [] then Some (effective_san rq csr) else cs_san csr),
        ct_key_usage := truthy ku, ct_ext_key_usage := truthy eku, ct_requested_by := cs_created_by csr,
        ct_issued_by := ir_by rq, ct_profile := profile_id pf\<rparr>"

lemma csr_certificate_simps [simp]:
  "ct_cert (csr_certificate p e pf rq ku eku ca csr cert kt) = cert"
  "ct_id (csr_certificate p e pf rq ku eku ca csr cert kt) = fresh_id ct_id (p_certs p)"
  "ct_ca (csr_certificate p e pf rq ku eku ca csr cert kt) = ca_id ca"
  "ct_serial (csr_certificate p e pf rq ku eku ca csr cert kt) = x_serial cert"
  "\<not> ct_revoked (csr_certificate p e pf rq ku eku ca csr cert kt)"
  "ct_not_after (csr_certificate p e pf rq ku eku ca csr cert kt) = x_not_after cert"
  by (simp_all add: csr_certificate_def new_cert_def)

definition sign_claimed_csr :: "env \<Rightarrow> profile option \<Rightarrow> issue_request
    \<Rightarrow> (string \<times> bool) list option \<times> string list option \<times> bool \<Rightarrow> ca_row \<Rightarrow> nat \<Rightarrow> pki \<Rightarrow> pki_error + pki \<times> nat" where
  "sign_claimed_csr e pf rq usage ca i p =
     (case get_row cs_id i (p_csrs p) of
        None \<Rightarrow> Inl Not_found
      | Some csr \<Rightarrow>
          (case usage of (ku, eku, aia) \<Rightarrow>
           and_then (sign_leaf e ca (rq_subject (cs_csr csr)) (rq_key (cs_csr csr)) (ir_validity rq)
               \<lparr>lo_key_usage = ku, lo_ext_key_usage = eku, lo_san = effective_san rq csr, lo_ocsp = ir_ocsp rq,
                lo_crl_dp = ir_crl_dp rq, lo_include_aia = aia, lo_policies = policies_for ca pf\<rparr>) (\<lambda>cert.
           and_then (key_info (rq_key (cs_csr csr))) (\<lambda>kt.
             let c = csr_certificate p e pf rq ku eku ca csr cert kt;
                 csr' = csr\<lparr>cs_status := ''approved'', cs_certificate := Some (ct_id c), cs_ca := Some (ca_id ca),
                    cs_signed_by := ir_by rq\<rparr>
             in Inr ((set_csr csr' p)\<lparr>p_certs := p_certs p @ [c]\<rparr>, ct_id c)))))"

text \<open>The state after the call, and its result: a failure after the claim leaves what \<open>release_csr\<close> makes of it.\<close>

definition sign_csr :: "env \<Rightarrow> profile option \<Rightarrow> issue_request \<Rightarrow> ca_row \<Rightarrow> nat \<Rightarrow> pki \<Rightarrow> pki \<times> (pki_error + nat)" where
  "sign_csr e pf rq ca i p =
     (case get_row cs_id i (p_csrs p) of
        None \<Rightarrow> (p, Inl Not_found)
      | Some csr \<Rightarrow>
          (case sign_checks e p pf rq ca csr of
             Inl x \<Rightarrow> (p, Inl x)
           | Inr usage \<Rightarrow>
               (case claim_csr i p of
                  Inl x \<Rightarrow> (p, Inl x)
                | Inr p1 \<Rightarrow>
                    (case sign_claimed_csr e pf rq usage ca i p1 of
                       Inl x \<Rightarrow> (release_csr i p1, Inl x)
                     | Inr (p2, c) \<Rightarrow> (p2, Inr c)))))"

section \<open>Direct issuance\<close>

definition direct_certificate :: "pki \<Rightarrow> env \<Rightarrow> profile option \<Rightarrow> issue_request \<Rightarrow> dn \<Rightarrow> (string \<times> bool) list option
    \<Rightarrow> string list option \<Rightarrow> ca_row \<Rightarrow> tbs \<Rightarrow> string \<times> nat \<Rightarrow> cert_row" where
  "direct_certificate p e pf rq attrs ku eku ca cert kt =
     (new_cert p e (ca_id ca) cert (case map_of attrs ''CN'' of None \<Rightarrow> [] | Some s \<Rightarrow> s) attrs kt)
       \<lparr>ct_key_enc := Some (e_key_ref e), ct_san := some_nonempty (ir_san rq), ct_key_usage := truthy ku,
        ct_ext_key_usage := truthy eku, ct_issued_by := ir_by rq, ct_profile := profile_id pf\<rparr>"

lemma direct_certificate_simps [simp]:
  "ct_cert (direct_certificate p e pf rq attrs ku eku ca cert kt) = cert"
  "ct_id (direct_certificate p e pf rq attrs ku eku ca cert kt) = fresh_id ct_id (p_certs p)"
  "ct_ca (direct_certificate p e pf rq attrs ku eku ca cert kt) = ca_id ca"
  "ct_serial (direct_certificate p e pf rq attrs ku eku ca cert kt) = x_serial cert"
  "\<not> ct_revoked (direct_certificate p e pf rq attrs ku eku ca cert kt)"
  "ct_not_after (direct_certificate p e pf rq attrs ku eku ca cert kt) = x_not_after cert"
  by (simp_all add: direct_certificate_def new_cert_def)

definition create_certificate :: "env \<Rightarrow> profile option \<Rightarrow> issue_request \<Rightarrow> dn \<Rightarrow> string \<Rightarrow> nat \<Rightarrow> ca_row \<Rightarrow> pki
    \<Rightarrow> pki_error + pki \<times> nat" where
  "create_certificate e pf rq attrs key_type key_size ca p =
     and_then (ca_can_issue ca) (\<lambda>_.
     and_then (profile_enforce pf \<lparr>lr_key_type = key_type, lr_key_size = key_size, lr_validity = ir_validity rq,
         lr_san = ir_san rq, lr_common_name = map_of attrs ''CN'', lr_key_usage = ir_key_usage rq,
         lr_ext_key_usage = ir_ext_key_usage rq\<rparr>) (\<lambda>(ku, eku, aia).
     and_then (enforce_names p ca (map_of attrs ''CN'') (ir_san rq)) (\<lambda>_.
     and_then (generate_key (e_cfg e) (e_material e) key_type key_size) (\<lambda>key.
     and_then (key_info key) (\<lambda>kt.
     and_then (build_subject (e_attr_ok e) attrs) (\<lambda>subject.
     and_then (sign_leaf e ca subject key (ir_validity rq)
         \<lparr>lo_key_usage = ku, lo_ext_key_usage = eku, lo_san = ir_san rq, lo_ocsp = ir_ocsp rq, lo_crl_dp = ir_crl_dp rq,
          lo_include_aia = aia, lo_policies = policies_for ca pf\<rparr>) (\<lambda>cert.
       let c = direct_certificate p e pf rq attrs ku eku ca cert kt
       in Inr (p\<lparr>p_certs := p_certs p @ [c]\<rparr>, ct_id c))))))))"

section \<open>Renewal\<close>

definition original_validity_days :: "cert_row \<Rightarrow> int" where
  "original_validity_days c = max 1 (whole_days (ct_not_after c - ct_not_before c))"

definition renewals :: "pki \<Rightarrow> nat \<Rightarrow> cert_row list" where
  "renewals p i = filter (\<lambda>c. ct_renewed_from c = Some i) (p_certs p)"

definition escrowed :: "cert_row \<Rightarrow> bool" where
  "escrowed c \<longleftrightarrow> (case ct_key_enc c of None \<Rightarrow> False | Some k \<Rightarrow> k \<noteq> [])"

definition renewal_days :: "profile option \<Rightarrow> int option \<Rightarrow> cert_row \<Rightarrow> int" where
  "renewal_days pf validity old =
     (case validity of
        Some d \<Rightarrow> d
      | None \<Rightarrow>
          (case (case pf of None \<Rightarrow> None | Some f \<Rightarrow> pf_max_validity f) of
             None \<Rightarrow> original_validity_days old
           | Some m \<Rightarrow> if m = 0 then original_validity_days old else min (original_validity_days old) m))"

definition renew_key :: "env \<Rightarrow> bool \<Rightarrow> cert_row \<Rightarrow> pki_error + pub_key \<times> string option" where
  "renew_key e rekey old =
     (if rekey then and_then (generate_key (e_cfg e) (e_material e) (ct_key_type old) (ct_key_size old))
                      (\<lambda>k. Inr (k, Some (e_key_ref e)))
      else and_then (enforce_public_key_strength (e_cfg e) (x_key (ct_cert old))) (\<lambda>_. Inr (x_key (ct_cert old), ct_key_enc old)))"

record renew_options =
  rn_validity :: "int option"
  rn_rekey :: bool
  rn_revoke_old :: bool
  rn_force :: bool
  rn_ocsp :: "string option"
  rn_crl_dp :: "string option"
  rn_by :: "nat option"

definition renewed_certificate :: "pki \<Rightarrow> env \<Rightarrow> renew_options \<Rightarrow> cert_row \<Rightarrow> ca_row \<Rightarrow> (string \<times> bool) list option
    \<Rightarrow> string list option \<Rightarrow> string option \<Rightarrow> tbs \<Rightarrow> cert_row" where
  "renewed_certificate p e rn old ca ku eku enc cert =
     (new_cert p e (ca_id ca) cert (ct_common_name old) (ct_subject old) (ct_key_type old, ct_key_size old))
       \<lparr>ct_key_enc := enc, ct_san := ct_san old, ct_key_usage := truthy ku, ct_ext_key_usage := truthy eku,
        ct_requested_by := ct_requested_by old, ct_issued_by := rn_by rn, ct_profile := ct_profile old,
        ct_renewed_from := Some (ct_id old)\<rparr>"

lemma renewed_certificate_simps [simp]:
  "ct_cert (renewed_certificate p e rn old ca ku eku enc cert) = cert"
  "ct_id (renewed_certificate p e rn old ca ku eku enc cert) = fresh_id ct_id (p_certs p)"
  "ct_ca (renewed_certificate p e rn old ca ku eku enc cert) = ca_id ca"
  "ct_serial (renewed_certificate p e rn old ca ku eku enc cert) = x_serial cert"
  "\<not> ct_revoked (renewed_certificate p e rn old ca ku eku enc cert)"
  "ct_not_after (renewed_certificate p e rn old ca ku eku enc cert) = x_not_after cert"
  "ct_renewed_from (renewed_certificate p e rn old ca ku eku enc cert) = Some (ct_id old)"
  "ct_profile (renewed_certificate p e rn old ca ku eku enc cert) = ct_profile old"
  "ct_key_enc (renewed_certificate p e rn old ca ku eku enc cert) = enc"
  by (simp_all add: renewed_certificate_def new_cert_def)

definition renew_certificate :: "env \<Rightarrow> renew_options \<Rightarrow> nat \<Rightarrow> pki \<Rightarrow> pki_error + pki \<times> nat" where
  "renew_certificate e rn i p =
     (case get_row ct_id i (p_certs p) of
        None \<Rightarrow> Inl Not_found
      | Some old \<Rightarrow>
        (case get_ca p (ct_ca old) of
           None \<Rightarrow> Inl Not_found
         | Some ca \<Rightarrow>
            let pf = (case ct_profile old of None \<Rightarrow> None | Some k \<Rightarrow> get_row pf_id k (p_profiles p));
                sans = (case ct_san old of None \<Rightarrow> [] | Some s \<Rightarrow> s);
                d = renewal_days pf (rn_validity rn) old
            in require (\<not> ca_revoked ca) Ca_revoked
              (and_then (ca_can_issue ca) (\<lambda>_.
               require (renewals p i = [] \<or> rn_force rn) Already_renewed
               (require (\<not> (rn_rekey rn \<and> \<not> escrowed old)) No_private_key
               (require (\<not> (ct_revoked old \<and> \<not> rn_rekey rn)) Revoked_needs_rekey
               (require (case pf of None \<Rightarrow> True | Some f \<Rightarrow> pf_enabled f) Profile_disabled
               (and_then (profile_enforce pf \<lparr>lr_key_type = ct_key_type old, lr_key_size = ct_key_size old,
                   lr_validity = Some d, lr_san = sans, lr_common_name = Some (ct_common_name old),
                   lr_key_usage = truthy (ct_key_usage old), lr_ext_key_usage = truthy (ct_ext_key_usage old)\<rparr>) (\<lambda>(ku, eku, aia).
                and_then (enforce_names p ca (Some (ct_common_name old)) sans) (\<lambda>_.
                and_then (renew_key e (rn_rekey rn) old) (\<lambda>(key, enc).
                and_then (sign_leaf e ca (x_subject (ct_cert old)) key (Some d)
                    \<lparr>lo_key_usage = ku, lo_ext_key_usage = eku, lo_san = sans, lo_ocsp = rn_ocsp rn, lo_crl_dp = rn_crl_dp rn,
                     lo_include_aia = aia, lo_policies = policies_for ca pf\<rparr>) (\<lambda>cert.
                  let c = renewed_certificate p e rn old ca ku eku enc cert;
                      p1 = p\<lparr>p_certs := p_certs p @ [c]\<rparr>
                  in if rn_revoke_old rn \<and> \<not> ct_revoked old
                     then and_then (revoke_certificate e ''superseded'' False i p1) (\<lambda>r. Inr (fst r, ct_id c))
                     else Inr (p1, ct_id c)))))))))))))"

end
