(* ===== verification/Issuance_Facts.thy ===== *)
theory Issuance_Facts
  imports Issuance Revocation_Claims
begin

text \<open>
  The rules the proofs about issuance share: the table of requests, what a
  successful call of each operation has done, and a small instance.
\<close>

section \<open>The table of requests\<close>

definition csr_of :: "nat \<Rightarrow> pki \<Rightarrow> csr_row option" where
  "csr_of i p = get_row cs_id i (p_csrs p)"

definition csr_status :: "pki \<Rightarrow> nat \<Rightarrow> string option" where
  "csr_status p i = map_option cs_status (csr_of i p)"

definition wf_csrs :: "pki \<Rightarrow> bool" where
  "wf_csrs p \<longleftrightarrow> wf_table cs_id (p_csrs p)"

lemma csr_of_key: "csr_of i p = Some c \<Longrightarrow> cs_id c = i"
  by (simp add: csr_of_def get_row_key)

lemma csr_of_set: "csr_of j (set_csr c p) = (if j = cs_id c then map_option (\<lambda>_. c) (csr_of j p) else csr_of j p)"
  by (auto simp: csr_of_def set_csr_def get_put_same get_put_other split: option.splits)

lemma wf_csrs_set [simp]: "wf_csrs (set_csr c p) = wf_csrs p"
  by (simp add: wf_csrs_def set_csr_def put_row_wf)

lemma csr_of_certs [simp]: "csr_of i (p\<lparr>p_certs := cs\<rparr>) = csr_of i p"
  by (simp add: csr_of_def)

lemma wf_csrs_certs [simp]: "wf_csrs (p\<lparr>p_certs := cs\<rparr>) = wf_csrs p"
  by (simp add: wf_csrs_def)

lemma first_csr:
  assumes "wf_csrs p"
  shows "first_row (\<lambda>c. cs_id c = i \<and> cs_status c = st) (p_csrs p) =
    (case csr_of i p of None \<Rightarrow> None | Some c \<Rightarrow> if cs_status c = st then Some c else None)"
proof -
  have "find (\<lambda>c. cs_id c = i \<and> cs_status c = st) t =
    (case get_row cs_id i t of None \<Rightarrow> None | Some c \<Rightarrow> if cs_status c = st then Some c else None)" if "wf_table cs_id t" for t
    using that
  proof (induction t)
    case (Cons x t)
    then have x: "cs_id x \<notin> cs_id ` set t" and t: "wf_table cs_id t" by (auto simp: wf_table_def)
    show ?case
    proof (cases "cs_id x = i")
      case True
      with x have "find (\<lambda>c. cs_id c = i \<and> cs_status c = st) t = None" by (auto simp: find_None_all image_iff)
      with True show ?thesis by (simp add: get_row_def)
    qed (use Cons.IH [OF t] in \<open>simp add: get_row_def\<close>)
  qed (simp add: get_row_def)
  with assms show ?thesis by (simp add: first_row_def csr_of_def wf_csrs_def)
qed

lemma move_csr_eq:
  assumes "wf_csrs p"
  shows "move_csr old new i p =
    (case csr_of i p of None \<Rightarrow> None | Some c \<Rightarrow> if cs_status c = old then Some (set_csr (c\<lparr>cs_status := new\<rparr>) p) else None)"
  by (simp add: move_csr_def first_csr [OF assms] split: option.splits)

lemma move_csr_status:
  assumes "wf_csrs p" "move_csr old new i p = Some p'"
  shows "wf_csrs p'" "csr_status p i = Some old" "csr_status p' = (csr_status p)(i \<mapsto> new)"
  using assms by (auto simp: move_csr_eq csr_status_def csr_of_set fun_eq_iff dest: csr_of_key split: option.splits if_splits)

lemma claim_csr_status:
  assumes "wf_csrs p" "claim_csr i p = Inr p'"
  shows "wf_csrs p'" "csr_status p i = Some ''pending''" "csr_status p' = (csr_status p)(i \<mapsto> ''signing'')"
  using assms move_csr_status [OF assms(1)] by (auto simp: claim_csr_def split: option.splits)

lemma release_csr_status:
  assumes "wf_csrs p"
  shows "wf_csrs (release_csr i p)"
    "csr_status (release_csr i p) = (if csr_status p i = Some ''signing'' then (csr_status p)(i \<mapsto> ''pending'') else csr_status p)"
proof -
  show "wf_csrs (release_csr i p)"
    using assms move_csr_status(1) [OF assms] by (auto simp: release_csr_def split: option.splits)
  show "csr_status (release_csr i p) = (if csr_status p i = Some ''signing'' then (csr_status p)(i \<mapsto> ''pending'') else csr_status p)"
  proof (cases "move_csr ''signing'' ''pending'' i p")
    case None
    then have "csr_status p i \<noteq> Some ''signing''"
      using assms by (auto simp: move_csr_eq csr_status_def split: option.splits if_splits)
    with None show ?thesis by (simp add: release_csr_def)
  next
    case (Some p')
    then show ?thesis using move_csr_status [OF assms Some] by (simp add: release_csr_def)
  qed
qed

lemma sign_claimed_ok:
  assumes "sign_claimed_csr e pf rq (ku, eku, aia) ca i p = Inr (p', c)"
  obtains csr cert kt where "csr_of i p = Some csr"
    "sign_leaf e ca (rq_subject (cs_csr csr)) (rq_key (cs_csr csr)) (ir_validity rq)
       \<lparr>lo_key_usage = ku, lo_ext_key_usage = eku, lo_san = effective_san rq csr, lo_ocsp = ir_ocsp rq,
        lo_crl_dp = ir_crl_dp rq, lo_include_aia = aia, lo_policies = policies_for ca pf\<rparr> = Inr cert"
    "key_info (rq_key (cs_csr csr)) = Inr kt" "c = fresh_id ct_id (p_certs p)"
    "p' = (set_csr (csr\<lparr>cs_status := ''approved'', cs_certificate := Some c, cs_ca := Some (ca_id ca), cs_signed_by := ir_by rq\<rparr>) p)
       \<lparr>p_certs := p_certs p @ [csr_certificate p e pf rq ku eku ca csr cert kt]\<rparr>"
  using assms by (auto simp: sign_claimed_csr_def csr_of_def and_then_Inr Let_def split: option.splits)

lemma sign_claimed_status:
  assumes "wf_csrs p" "sign_claimed_csr e pf rq usage ca i p = Inr (p', c)"
  shows "wf_csrs p'" "csr_status p' = (csr_status p)(i \<mapsto> ''approved'')" "csr_of i p \<noteq> None"
    "c \<in> ct_id ` set (p_certs p')" "set (p_certs p) \<subseteq> set (p_certs p')" "c \<notin> ct_id ` set (p_certs p)"
proof -
  obtain ku eku aia where "usage = (ku, eku, aia)" by (cases usage)
  with assms(2) have "sign_claimed_csr e pf rq (ku, eku, aia) ca i p = Inr (p', c)" by simp
  then obtain csr cert kt where csr: "csr_of i p = Some csr" and row: "c = fresh_id ct_id (p_certs p)"
    and p': "p' = (set_csr (csr\<lparr>cs_status := ''approved'', cs_certificate := Some c, cs_ca := Some (ca_id ca), cs_signed_by := ir_by rq\<rparr>) p)
       \<lparr>p_certs := p_certs p @ [csr_certificate p e pf rq ku eku ca csr cert kt]\<rparr>" by (rule sign_claimed_ok)
  show "wf_csrs p'" using assms(1) by (simp add: p')
  show "csr_of i p \<noteq> None" using csr by simp
  show "csr_status p' = (csr_status p)(i \<mapsto> ''approved'')"
    using csr csr_of_key [OF csr] by (auto simp: p' csr_status_def csr_of_set)
  show "c \<in> ct_id ` set (p_certs p')" "set (p_certs p) \<subseteq> set (p_certs p')" using row by (auto simp: p')
  show "c \<notin> ct_id ` set (p_certs p)" unfolding row by (rule fresh_id_notin)
qed

lemma sign_csr_ok:
  assumes "sign_csr e pf rq ca i p = (p', Inr c)"
  obtains csr usage p1 where "csr_of i p = Some csr" "sign_checks e p pf rq ca csr = Inr usage" "claim_csr i p = Inr p1"
    "sign_claimed_csr e pf rq usage ca i p1 = Inr (p', c)"
  using assms by (auto simp: sign_csr_def csr_of_def split: option.splits sum.splits)

section \<open>Successful calls\<close>

lemma get_row_snoc_fresh: "k x = fresh_id k t \<Longrightarrow> get_row k (fresh_id k t) (t @ [x]) = Some x"
proof -
  have "find P (xs @ [x]) = (case find P xs of None \<Rightarrow> if P x then Some x else None | Some y \<Rightarrow> Some y)" for P xs and x :: 'a
    by (induction xs) auto
  moreover have "find (\<lambda>r. k r = fresh_id k t) t = None" using fresh_id_notin [of k t] by (auto simp: find_None_all image_iff)
  ultimately show "k x = fresh_id k t \<Longrightarrow> get_row k (fresh_id k t) (t @ [x]) = Some x" by (simp add: get_row_def)
qed

lemma get_row_append: "get_row k i t = Some r \<Longrightarrow> get_row k i (t @ u) = Some r"
  by (induction t) (auto simp: get_row_def split: if_splits)

lemma ca_can_issue_Inr: "ca_can_issue ca = Inr u \<longleftrightarrow> has_signing_key ca \<and> \<not> ca_pending ca"
  by (auto simp: ca_can_issue_def)

lemma sign_checks_ok:
  assumes "sign_checks e p pf rq ca csr = Inr usage"
  shows "has_signing_key ca" "\<not> ca_pending ca" "rq_sig_ok (cs_csr csr)"
    "enforce_public_key_strength (e_cfg e) (rq_key (cs_csr csr)) = Inr ()"
    "enforce_names p ca (Some (cs_common_name csr)) (effective_san rq csr) = Inr ()"
    "\<exists>kt. key_info (rq_key (cs_csr csr)) = Inr kt \<and> profile_enforce pf \<lparr>lr_key_type = fst kt, lr_key_size = snd kt, lr_validity = ir_validity rq,
         lr_san = effective_san rq csr, lr_common_name = Some (cs_common_name csr), lr_key_usage = ir_key_usage rq,
         lr_ext_key_usage = ir_ext_key_usage rq\<rparr> = Inr usage"
  using assms by (auto simp: sign_checks_def and_then_Inr ca_can_issue_Inr)

lemma claim_csr_eq:
  assumes "wf_csrs p" "csr_of i p = Some csr" "claim_csr i p = Inr p1"
  shows "p1 = set_csr (csr\<lparr>cs_status := ''signing''\<rparr>) p \<and> csr_of i p1 = Some (csr\<lparr>cs_status := ''signing''\<rparr>) \<and> p_certs p1 = p_certs p"
  using assms csr_of_key [OF assms(2)]
  by (auto simp: claim_csr_def move_csr_eq csr_of_set split: if_splits) (simp add: set_csr_def)

lemma create_certificate_ok:
  assumes "create_certificate e pf rq attrs kt ks ca p = Inr (p', n)"
  obtains ku eku aia key k subject cert where "has_signing_key ca" "\<not> ca_pending ca"
    "profile_enforce pf \<lparr>lr_key_type = kt, lr_key_size = ks, lr_validity = ir_validity rq, lr_san = ir_san rq,
       lr_common_name = map_of attrs ''CN'', lr_key_usage = ir_key_usage rq, lr_ext_key_usage = ir_ext_key_usage rq\<rparr> = Inr (ku, eku, aia)"
    "enforce_names p ca (map_of attrs ''CN'') (ir_san rq) = Inr ()" "generate_key (e_cfg e) (e_material e) kt ks = Inr key"
    "sign_leaf e ca subject key (ir_validity rq)
         \<lparr>lo_key_usage = ku, lo_ext_key_usage = eku, lo_san = ir_san rq, lo_ocsp = ir_ocsp rq, lo_crl_dp = ir_crl_dp rq,
          lo_include_aia = aia, lo_policies = policies_for ca pf\<rparr> = Inr cert"
    "n = fresh_id ct_id (p_certs p)" "p' = p\<lparr>p_certs := p_certs p @ [direct_certificate p e pf rq attrs ku eku ca cert k]\<rparr>"
  using assms by (auto simp: create_certificate_def and_then_Inr ca_can_issue_Inr Let_def split: prod.splits)

definition certs_after :: "bool \<Rightarrow> nat \<Rightarrow> env \<Rightarrow> cert_row list \<Rightarrow> cert_row list" where
  "certs_after revoke i e cs =
     (if revoke then (case get_row ct_id i cs of None \<Rightarrow> cs
        | Some c \<Rightarrow> put_row ct_id (c\<lparr>ct_revoked := True, ct_revoked_at := Some (e_now e), ct_reason := Some ''superseded''\<rparr>) cs) else cs)"

lemma renew_certificate_ok:
  assumes "renew_certificate e rn i p = Inr (p', n)" "get_row ct_id i (p_certs p) = Some old" "get_ca p (ct_ca old) = Some ca"
    and "pf = (case ct_profile old of None \<Rightarrow> None | Some k \<Rightarrow> get_row pf_id k (p_profiles p))"
    and "sans = (case ct_san old of None \<Rightarrow> [] | Some s \<Rightarrow> s)"
  obtains ku eku aia key enc cert where "\<not> ca_revoked ca" "has_signing_key ca" "\<not> ca_pending ca"
    "renewals p i = [] \<or> rn_force rn" "rn_rekey rn \<longrightarrow> escrowed old" "ct_revoked old \<longrightarrow> rn_rekey rn"
    "\<forall>f. pf = Some f \<longrightarrow> pf_enabled f"
    "profile_enforce pf \<lparr>lr_key_type = ct_key_type old, lr_key_size = ct_key_size old,
       lr_validity = Some (renewal_days pf (rn_validity rn) old), lr_san = sans, lr_common_name = Some (ct_common_name old),
       lr_key_usage = truthy (ct_key_usage old), lr_ext_key_usage = truthy (ct_ext_key_usage old)\<rparr> = Inr (ku, eku, aia)"
    "enforce_names p ca (Some (ct_common_name old)) sans = Inr ()" "renew_key e (rn_rekey rn) old = Inr (key, enc)"
    "sign_leaf e ca (x_subject (ct_cert old)) key (Some (renewal_days pf (rn_validity rn) old))
       \<lparr>lo_key_usage = ku, lo_ext_key_usage = eku, lo_san = sans, lo_ocsp = rn_ocsp rn, lo_crl_dp = rn_crl_dp rn,
        lo_include_aia = aia, lo_policies = policies_for ca pf\<rparr> = Inr cert"
    "n = fresh_id ct_id (p_certs p)"
    "p_certs p' = certs_after (rn_revoke_old rn \<and> \<not> ct_revoked old) i e
       (p_certs p @ [renewed_certificate p e rn old ca ku eku enc cert])"
proof -
  from assms(1) obtain ku eku aia key enc cert where steps: "\<not> ca_revoked ca" "has_signing_key ca" "\<not> ca_pending ca"
    "renewals p i = [] \<or> rn_force rn" "rn_rekey rn \<longrightarrow> escrowed old" "ct_revoked old \<longrightarrow> rn_rekey rn"
    "case pf of None \<Rightarrow> True | Some f \<Rightarrow> pf_enabled f"
    "profile_enforce pf \<lparr>lr_key_type = ct_key_type old, lr_key_size = ct_key_size old,
       lr_validity = Some (renewal_days pf (rn_validity rn) old), lr_san = sans, lr_common_name = Some (ct_common_name old),
       lr_key_usage = truthy (ct_key_usage old), lr_ext_key_usage = truthy (ct_ext_key_usage old)\<rparr> = Inr (ku, eku, aia)"
    "enforce_names p ca (Some (ct_common_name old)) sans = Inr ()" "renew_key e (rn_rekey rn) old = Inr (key, enc)"
    "sign_leaf e ca (x_subject (ct_cert old)) key (Some (renewal_days pf (rn_validity rn) old))
       \<lparr>lo_key_usage = ku, lo_ext_key_usage = eku, lo_san = sans, lo_ocsp = rn_ocsp rn, lo_crl_dp = rn_crl_dp rn,
        lo_include_aia = aia, lo_policies = policies_for ca pf\<rparr> = Inr cert"
    by (auto simp: renew_certificate_def assms(2,3) assms(4,5) [symmetric] and_then_Inr ca_can_issue_Inr Let_def split del: if_split)
  let ?c = "renewed_certificate p e rn old ca ku eku enc cert" and ?r = "rn_revoke_old rn \<and> \<not> ct_revoked old"
  have "(if ?r then and_then (revoke_certificate e ''superseded'' False i (p\<lparr>p_certs := p_certs p @ [?c]\<rparr>)) (\<lambda>r. Inr (fst r, ct_id ?c))
      else Inr (p\<lparr>p_certs := p_certs p @ [?c]\<rparr>, ct_id ?c)) = Inr (p', n)"
    using assms(1) by (simp add: renew_certificate_def assms(2,3) assms(4,5) [symmetric] steps Let_def and_then_Inr split del: if_split)
  then have "n = fresh_id ct_id (p_certs p) \<and> p_certs p' = certs_after ?r i e (p_certs p @ [?c])"
    by (auto simp: revoke_certificate_def and_then_Inr certs_after_def Let_def split: if_splits option.splits)
  with steps show thesis by (intro that) auto
qed

lemma certs_after_get:
  assumes "n \<noteq> i" "get_row ct_id n cs = Some c"
  shows "get_row ct_id n (certs_after r i e cs) = Some c"
  using assms by (auto simp: certs_after_def get_put_other get_row_key split: option.splits)

lemma url_ok_Inr: "url_ok e u = Inr v \<longleftrightarrow> v = u \<and> (\<forall>s. u = Some s \<longrightarrow> e_gn_ok e ''uri'' s)"
  by (auto simp: url_ok_def split: option.splits)

lemma sign_leaf_ok:
  assumes "sign_leaf e ca subject key v opt = Inr cert"
  shows "\<not> ca_expired (e_now e) ca" "e_signs e ca" "x_subject cert = subject" "x_key cert = key"
    "x_issuer cert = x_subject (ca_cert ca)" "x_signer cert = x_key (ca_cert ca)" "x_constraints cert = Some (False, None)"
    "x_key_usage cert = key_usage_bits (lo_key_usage opt)" "x_ext_key_usage cert = ext_key_usage_oids (lo_ext_key_usage opt)"
    "build_general_names (e_gn_ok e) (lo_san opt) = Inr (x_san cert)" "x_policies cert = lo_policies opt" "x_serial cert = e_serial e"
    "x_not_before cert = whole (e_now e)"
    "\<exists>na. bounded_not_after (e_cfg e) (e_now e) v (Some (ca_not_after ca)) False False = Inr na \<and> x_not_after cert = whole na"
  using assms by (auto simp: sign_leaf_def leaf_builder_def and_then_Inr url_ok_Inr split: sum.splits)

lemma key_info_strong: "enforce_public_key_strength cf k = Inr () \<Longrightarrow> \<exists>kt. key_info k = Inr kt"
  by (cases k) auto

lemma sign_leaf_total:
  assumes "e_now e < ca_not_after ca" "e_signs e ca" "v = Some d" "1 \<le> d" "d \<le> pc_max_cert_days (e_cfg e)"
    and "build_general_names (e_gn_ok e) (lo_san opt) = Inr names" "\<And>s. e_gn_ok e ''uri'' s"
  shows "\<exists>cert. sign_leaf e ca subject key v opt = Inr cert"
proof -
  have url: "url_ok e u = Inr u" for u using assms(7) by (simp add: url_ok_Inr)
  show ?thesis using assms
    by (simp add: sign_leaf_def leaf_builder_def ca_expired_def bounded_not_after_def url Let_def)
qed

lemma sign_csr_total:
  assumes "wf_csrs p" "csr_of i p = Some csr" "cs_status csr = ''pending''" "sign_checks e p pf rq ca csr = Inr usage"
    and "e_now e < ca_not_after ca" "e_signs e ca" "ir_validity rq = Some d" "1 \<le> d" "d \<le> pc_max_cert_days (e_cfg e)"
    and "build_general_names (e_gn_ok e) (effective_san rq csr) = Inr names" "\<And>s. e_gn_ok e ''uri'' s"
  shows "\<exists>p' n c csr'. sign_csr e pf rq ca i p = (p', Inr n) \<and> get_row ct_id n (p_certs p') = Some c
    \<and> x_key (ct_cert c) = rq_key (cs_csr csr) \<and> x_subject (ct_cert c) = rq_subject (cs_csr csr)
    \<and> csr_of i p' = Some csr' \<and> cs_status csr' = ''approved'' \<and> cs_certificate csr' = Some n"
proof -
  obtain ku eku aia where usage: "usage = (ku, eku, aia)" by (cases usage)
  let ?csr = "csr\<lparr>cs_status := ''signing''\<rparr>"
  let ?opt = "\<lparr>lo_key_usage = ku, lo_ext_key_usage = eku, lo_san = effective_san rq csr, lo_ocsp = ir_ocsp rq,
        lo_crl_dp = ir_crl_dp rq, lo_include_aia = aia, lo_policies = policies_for ca pf\<rparr>"
  have eff: "effective_san rq ?csr = effective_san rq csr" by (simp add: effective_san_def)
  obtain p1 where p1: "claim_csr i p = Inr p1"
    using assms(1-3) by (auto simp: claim_csr_def move_csr_eq)
  note cl = claim_csr_eq [OF assms(1,2) p1]
  have csr1: "csr_of i p1 = Some ?csr" using cl [THEN conjunct2, THEN conjunct1] .
  obtain cert where cert: "sign_leaf e ca (rq_subject (cs_csr csr)) (rq_key (cs_csr csr)) (ir_validity rq) ?opt = Inr cert"
    using sign_leaf_total [OF assms(5-9) _ assms(11), of ?opt names "rq_subject (cs_csr csr)" "rq_key (cs_csr csr)"] assms(10) by auto
  obtain kt where kt: "key_info (rq_key (cs_csr csr)) = Inr kt"
    using key_info_strong sign_checks_ok(4) [OF assms(4)] by blast
  let ?c = "csr_certificate p1 e pf rq ku eku ca ?csr cert kt"
  let ?csr2 = "?csr\<lparr>cs_status := ''approved'', cs_certificate := Some (ct_id ?c), cs_ca := Some (ca_id ca), cs_signed_by := ir_by rq\<rparr>"
  let ?p2 = "(set_csr ?csr2 p1)\<lparr>p_certs := p_certs p1 @ [?c]\<rparr>"
  have "sign_claimed_csr e pf rq usage ca i p1 = Inr (?p2, ct_id ?c)"
    using csr1 cert kt by (simp add: sign_claimed_csr_def csr_of_def usage eff Let_def)
  then have a: "sign_csr e pf rq ca i p = (?p2, Inr (ct_id ?c))"
    using assms(2,4) p1 by (simp add: sign_csr_def csr_of_def)
  have b: "get_row ct_id (ct_id ?c) (p_certs ?p2) = Some ?c" by (simp add: get_row_snoc_fresh)
  have c: "csr_of i ?p2 = Some ?csr2" using csr1 csr_of_key [OF assms(2)] by (simp add: csr_of_set)
  show ?thesis
    by (intro exI conjI, rule a, rule b, simp add: sign_leaf_ok(4) [OF cert], simp add: sign_leaf_ok(3) [OF cert], rule c) simp_all
qed

section \<open>A small instance\<close>

definition demo_csr :: csr_row where
  "demo_csr = \<lparr>cs_id = 1, cs_common_name = ''www.a.example'',
     cs_csr = \<lparr>rq_subject = [(''CN'', ''www.a.example'')], rq_key = Rsa 3072 5, rq_sig_ok = True, rq_san = [(''dns'', ''www.a.example'')]\<rparr>,
     cs_status = ''pending'', cs_ca = None, cs_certificate = None, cs_san = Some [''DNS:www.a.example''], cs_created_by = Some 3,
     cs_signed_by = None, cs_profile = None\<rparr>"

definition demo_csr_pki :: pki where
  "demo_csr_pki = demo_pki\<lparr>p_csrs := [demo_csr]\<rparr>"

definition demo_request :: issue_request where
  "demo_request = \<lparr>ir_validity = Some 365, ir_san = [], ir_key_usage = None, ir_ext_key_usage = None,
     ir_ocsp = Some ''http://ca.example/public/ocsp/2'', ir_crl_dp = None, ir_by = Some 1\<rparr>"

lemma demo_csr_wf: "wf_csrs demo_csr_pki"
  by (simp add: wf_csrs_def wf_table_def demo_csr_pki_def)

abbreviation demo_sub :: ca_row where
  "demo_sub \<equiv> demo_ca 2 ''sub'' (Some 1)"

lemma demo_host: "looks_like_hostname ''www.a.example''"
  by code_simp

lemma demo_entry: "san_parse_entry ''DNS:www.a.example'' = Inr (Some (''dns'', ''www.a.example''))"
  by code_simp

lemma demo_www: "rstrip_dots (lower_str (strip_str ''www.a.example'')) = ''www.a.example''"
  by code_simp

lemma demo_csr_facts: "csr_of 1 demo_csr_pki = Some demo_csr" "cs_status demo_csr = ''pending''" "cs_common_name demo_csr = ''www.a.example''"
  "effective_san demo_request demo_csr = [''DNS:www.a.example'']" "cs_csr demo_csr = \<lparr>rq_subject = [(''CN'', ''www.a.example'')],
     rq_key = Rsa 3072 5, rq_sig_ok = True, rq_san = [(''dns'', ''www.a.example'')]\<rparr>"
  "get_ca demo_csr_pki i = get_ca demo_pki i" "p_certs demo_csr_pki = p_certs demo_pki"
  by (simp_all add: csr_of_def get_row_def demo_csr_pki_def demo_csr_def effective_san_def demo_request_def get_ca_def)

lemma demo_request_facts: "ir_validity demo_request = Some 365" "ir_key_usage demo_request = None" "ir_ext_key_usage demo_request = None"
  by (simp_all add: demo_request_def)

lemma demo_requested: "requested_names (Some ''www.a.example'') [''DNS:www.a.example''] = Inr [(''dns'', ''www.a.example''), (''dns'', ''www.a.example'')]"
  by (simp add: requested_names_def demo_entry demo_host demo_www constrained_kinds_def)

definition demo_leaf :: leaf_request where
  "demo_leaf = \<lparr>lr_key_type = ''RSA'', lr_key_size = 3072, lr_validity = Some 365, lr_san = [''DNS:www.a.example''],
     lr_common_name = Some ''www.a.example'', lr_key_usage = None, lr_ext_key_usage = None\<rparr>"

lemma demo_checks:
  assumes "profile_enforce pf demo_leaf = Inr u" "enforce_names p demo_sub (Some ''www.a.example'') [''DNS:www.a.example''] = Inr ()"
  shows "sign_checks demo_env p pf demo_request demo_sub demo_csr = Inr u"
  using assms by (simp add: sign_checks_def ca_can_issue_def demo_ca_facts demo_csr_facts demo_request_facts demo_env_facts demo_leaf_def)

lemma demo_signs:
  assumes "wf_csrs p" "csr_of 1 p = Some demo_csr" "profile_enforce pf demo_leaf = Inr u"
    and "enforce_names p demo_sub (Some ''www.a.example'') [''DNS:www.a.example''] = Inr ()"
  shows "\<exists>p' n c. sign_csr demo_env pf demo_request demo_sub 1 p = (p', Inr n) \<and> get_row ct_id n (p_certs p') = Some c"
proof -
  have names: "build_general_names (e_gn_ok demo_env) (effective_san demo_request demo_csr) = Inr [(''dns'', ''www.a.example'')]"
    by (simp add: demo_csr_facts demo_entry to_general_name_def demo_env_facts)
  have "e_now demo_env < ca_not_after demo_sub" by (simp add: demo_env_facts demo_ca_facts days_eq)
  from sign_csr_total [OF assms(1,2) demo_csr_facts(2) demo_checks [OF assms(3,4)] this demo_ca_facts(6) demo_request_facts(1) _ _ names demo_env_facts(3)]
  show ?thesis by (auto simp: demo_env_facts)
qed

lemma demo_walk: "length (p_cas demo_csr_pki) = Suc (Suc 0)"
  by (simp add: demo_csr_pki_def demo_pki_def)

lemma demo_enforced: "enforce_names demo_csr_pki demo_sub (Some ''www.a.example'') [''DNS:www.a.example''] = Inr ()"
  by (simp add: enforce_names_def demo_requested demo_ca_facts parent_ca_def demo_csr_facts demo_get_ca demo_walk split: sum.split)

lemma demo_signed: "\<exists>p' n c. sign_csr demo_env None demo_request demo_sub 1 demo_csr_pki = (p', Inr n) \<and> get_row ct_id n (p_certs p') = Some c"
  by (rule demo_signs [OF demo_csr_wf demo_csr_facts(1) _ demo_enforced]) (simp add: profile_enforce_def)

end
