(* ===== verification/Issuance_Claims.thy ===== *)
theory Issuance_Claims
  imports Issuance_Facts Authority_Claims
begin

text \<open>
  Correctness of the issuance of end-entity certificates, by whichever of the
  three ways: bounds, names, usages, renewal and the state after a failure.
\<close>

section \<open>The ways to issue\<close>

text \<open>\<open>issues e pf d sans ca p p' c\<close>: a call that succeeds under the profile \<open>pf\<close>, for the SANs \<open>sans\<close>, and stores the certificate \<open>c\<close>.\<close>

inductive issues :: "env \<Rightarrow> profile option \<Rightarrow> string list \<Rightarrow> ca_row \<Rightarrow> pki \<Rightarrow> pki \<Rightarrow> cert_row \<Rightarrow> bool" where
  from_csr: "get_ca p (ca_id ca) = Some ca \<Longrightarrow> csr_of i p = Some csr \<Longrightarrow> sign_csr e pf rq ca i p = (p', Inr n) \<Longrightarrow> get_row ct_id n (p_certs p') = Some c
    \<Longrightarrow> issues e pf (effective_san rq csr) ca p p' c"
| direct: "get_ca p (ca_id ca) = Some ca \<Longrightarrow> create_certificate e pf rq attrs kt ks ca p = Inr (p', n) \<Longrightarrow> get_row ct_id n (p_certs p') = Some c
    \<Longrightarrow> issues e pf (ir_san rq) ca p p' c"
| renewed: "get_row ct_id i (p_certs p) = Some old \<Longrightarrow> get_ca p (ct_ca old) = Some ca
    \<Longrightarrow> pf = (case ct_profile old of None \<Rightarrow> None | Some k \<Rightarrow> get_row pf_id k (p_profiles p))
    \<Longrightarrow> renew_certificate e rn i p = Inr (p', n) \<Longrightarrow> get_row ct_id n (p_certs p') = Some c
    \<Longrightarrow> issues e pf (case ct_san old of None \<Rightarrow> [] | Some s \<Rightarrow> s) ca p p' c"

text \<open>What the three ways have in common: the certificate is what \<open>sign_leaf\<close> made under the usages the profile gave.\<close>

definition issued_under :: "env \<Rightarrow> profile option \<Rightarrow> string list \<Rightarrow> ca_row \<Rightarrow> pki \<Rightarrow> cert_row \<Rightarrow> dn \<Rightarrow> pub_key \<Rightarrow> leaf_options
    \<Rightarrow> leaf_request \<Rightarrow> bool" where
  "issued_under e pf sans ca p c subject key opt rq \<longleftrightarrow>
     sign_leaf e ca subject key (lr_validity rq) opt = Inr (ct_cert c)
     \<and> lo_san opt = sans \<and> lo_policies opt = policies_for ca pf
     \<and> profile_enforce pf rq = Inr (lo_key_usage opt, lo_ext_key_usage opt, lo_include_aia opt) \<and> lr_san rq = sans
     \<and> enforce_names p ca (lr_common_name rq) sans = Inr () \<and> has_signing_key ca \<and> \<not> ca_pending ca
     \<and> ct_ca c = ca_id ca \<and> ct_serial c = x_serial (ct_cert c) \<and> ct_not_after c = x_not_after (ct_cert c) \<and> \<not> ct_revoked c
     \<and> ct_id c \<notin> ct_id ` set (p_certs p)"

lemma issued_underI:
  assumes "sign_leaf e ca subject key v \<lparr>lo_key_usage = ku, lo_ext_key_usage = eku, lo_san = sans, lo_ocsp = oc, lo_crl_dp = dp,
      lo_include_aia = aia, lo_policies = policies_for ca pf\<rparr> = Inr (ct_cert c)"
    and "profile_enforce pf rq = Inr (ku, eku, aia)" "lr_validity rq = v" "lr_san rq = sans"
    and "enforce_names p ca (lr_common_name rq) sans = Inr ()" "has_signing_key ca" "\<not> ca_pending ca"
    and "ct_ca c = ca_id ca" "ct_serial c = x_serial (ct_cert c)" "ct_not_after c = x_not_after (ct_cert c)" "\<not> ct_revoked c"
    and "ct_id c = fresh_id ct_id (p_certs p)"
  shows "\<exists>subject key opt rq. issued_under e pf sans ca p c subject key opt rq"
proof -
  have "issued_under e pf sans ca p c subject key \<lparr>lo_key_usage = ku, lo_ext_key_usage = eku, lo_san = sans, lo_ocsp = oc, lo_crl_dp = dp,
      lo_include_aia = aia, lo_policies = policies_for ca pf\<rparr> rq"
    using assms fresh_id_notin [of ct_id "p_certs p"] by (simp add: issued_under_def)
  then show ?thesis by blast
qed

lemma issues_ok:
  assumes "issues e pf sans ca p p' c" "wf_csrs p"
  shows "\<exists>subject key opt rq. issued_under e pf sans ca p c subject key opt rq"
  using assms(1)
proof (cases rule: issues.cases)
  case (from_csr i csr rq n)
  obtain ku eku aia p1 where s: "sign_checks e p pf rq ca csr = Inr (ku, eku, aia)" "claim_csr i p = Inr p1"
    "sign_claimed_csr e pf rq (ku, eku, aia) ca i p1 = Inr (p', n)"
    using from_csr(3,4) by (metis option.inject prod_cases3 sign_csr_ok)
  note p1 = claim_csr_eq [OF assms(2) from_csr(3) s(2)]
  have eff: "effective_san rq (csr\<lparr>cs_status := st\<rparr>) = effective_san rq csr" for st by (simp add: effective_san_def)
  from s(3) obtain csr1 cert k where cl: "csr_of i p1 = Some csr1"
    "sign_leaf e ca (rq_subject (cs_csr csr1)) (rq_key (cs_csr csr1)) (ir_validity rq)
       \<lparr>lo_key_usage = ku, lo_ext_key_usage = eku, lo_san = effective_san rq csr1, lo_ocsp = ir_ocsp rq,
        lo_crl_dp = ir_crl_dp rq, lo_include_aia = aia, lo_policies = policies_for ca pf\<rparr> = Inr cert"
    "n = fresh_id ct_id (p_certs p1)" "p_certs p' = p_certs p1 @ [csr_certificate p1 e pf rq ku eku ca csr1 cert k]"
    by (rule sign_claimed_ok) auto
  with from_csr(5) p1 have c: "c = csr_certificate p1 e pf rq ku eku ca csr1 cert k"
    by (simp add: get_row_snoc_fresh)
  from sign_checks_ok [OF s(1)] obtain kt where "profile_enforce pf \<lparr>lr_key_type = fst kt, lr_key_size = snd kt, lr_validity = ir_validity rq,
         lr_san = effective_san rq csr, lr_common_name = Some (cs_common_name csr), lr_key_usage = ir_key_usage rq,
         lr_ext_key_usage = ir_ext_key_usage rq\<rparr> = Inr (ku, eku, aia)" by blast
  moreover have "csr1 = csr\<lparr>cs_status := ''signing''\<rparr>" using cl(1) p1 [THEN conjunct2, THEN conjunct1] by simp
  ultimately show ?thesis
    using sign_checks_ok(1,2,5) [OF s(1)] p1 [THEN conjunct2, THEN conjunct2] cl(2) unfolding from_csr(1) by (intro issued_underI) (auto simp: c eff)
next
  case (direct rq attrs kt ks n)
  from direct(3) obtain ku eku aia key k subject cert where d: "has_signing_key ca" "\<not> ca_pending ca"
    "profile_enforce pf \<lparr>lr_key_type = kt, lr_key_size = ks, lr_validity = ir_validity rq, lr_san = ir_san rq,
       lr_common_name = map_of attrs ''CN'', lr_key_usage = ir_key_usage rq, lr_ext_key_usage = ir_ext_key_usage rq\<rparr> = Inr (ku, eku, aia)"
    "enforce_names p ca (map_of attrs ''CN'') (ir_san rq) = Inr ()"
    "sign_leaf e ca subject key (ir_validity rq)
         \<lparr>lo_key_usage = ku, lo_ext_key_usage = eku, lo_san = ir_san rq, lo_ocsp = ir_ocsp rq, lo_crl_dp = ir_crl_dp rq,
          lo_include_aia = aia, lo_policies = policies_for ca pf\<rparr> = Inr cert"
    "n = fresh_id ct_id (p_certs p)" "p' = p\<lparr>p_certs := p_certs p @ [direct_certificate p e pf rq attrs ku eku ca cert k]\<rparr>"
    by (rule create_certificate_ok)
  with direct(4) have c: "c = direct_certificate p e pf rq attrs ku eku ca cert k" by (simp add: get_row_snoc_fresh)
  show ?thesis unfolding direct(1) by (rule issued_underI [OF _ d(3)]) (use d in \<open>auto simp: c\<close>)
next
  case (renewed i old rn n)
  from renewed(5,2,3,4,1) obtain ku eku aia key enc cert where d: "has_signing_key ca" "\<not> ca_pending ca"
    "profile_enforce pf \<lparr>lr_key_type = ct_key_type old, lr_key_size = ct_key_size old,
       lr_validity = Some (renewal_days pf (rn_validity rn) old), lr_san = sans, lr_common_name = Some (ct_common_name old),
       lr_key_usage = truthy (ct_key_usage old), lr_ext_key_usage = truthy (ct_ext_key_usage old)\<rparr> = Inr (ku, eku, aia)"
    "enforce_names p ca (Some (ct_common_name old)) sans = Inr ()"
    "sign_leaf e ca (x_subject (ct_cert old)) key (Some (renewal_days pf (rn_validity rn) old))
       \<lparr>lo_key_usage = ku, lo_ext_key_usage = eku, lo_san = sans, lo_ocsp = rn_ocsp rn, lo_crl_dp = rn_crl_dp rn,
        lo_include_aia = aia, lo_policies = policies_for ca pf\<rparr> = Inr cert"
    "n = fresh_id ct_id (p_certs p)"
    "p_certs p' = certs_after (rn_revoke_old rn \<and> \<not> ct_revoked old) i e
       (p_certs p @ [renewed_certificate p e rn old ca ku eku enc cert])"
    by (rule renew_certificate_ok)
  have "n \<noteq> i" using renewed(2) fresh_id_notin [of ct_id "p_certs p"] d(6) by (metis get_row_None option.distinct(1))
  with d(6,7) renewed(6) have c: "c = renewed_certificate p e rn old ca ku eku enc cert"
    by (simp add: certs_after_get get_row_snoc_fresh)
  show ?thesis by (rule issued_underI [OF _ d(3)]) (use d in \<open>auto simp: c\<close>)
qed

section \<open>The certificate\<close>

lemma leaf_usages: "u \<in> set (key_usage_bits ku) \<Longrightarrow>
    u \<in> {''digital_signature'', ''key_encipherment'', ''content_commitment'', ''data_encipherment'', ''key_agreement''}"
  by (auto simp: key_usage_bits_def default_key_usage_def Let_def split: if_splits)

text \<open>C29. Whichever way a certificate is issued (from a CSR, directly, as a renewal), it is an end-entity certificate that can
  sign neither certificates nor CRLs, it is signed by its CA's key under its name, it is valid from now and neither
  outlives the CA nor exceeds the configured maximum, and the CA has a key, is approved and has not expired.\<close>

theorem leaf_stays_within_ca:
  assumes "issues e pf sans ca p p' c" "wf_csrs p"
  shows "x_constraints (ct_cert c) = Some (False, None)
    \<and> ''key_cert_sign'' \<notin> set (x_key_usage (ct_cert c)) \<and> ''crl_sign'' \<notin> set (x_key_usage (ct_cert c))
    \<and> x_issuer (ct_cert c) = x_subject (ca_cert ca) \<and> x_signer (ct_cert c) = x_key (ca_cert ca) \<and> ct_ca c = ca_id ca
    \<and> x_not_before (ct_cert c) = whole (e_now e) \<and> x_not_before (ct_cert c) \<le> x_not_after (ct_cert c)
    \<and> x_not_after (ct_cert c) \<le> ca_not_after ca \<and> x_not_after (ct_cert c) \<le> e_now e + days (pc_max_cert_days (e_cfg e))
    \<and> ct_not_after c = x_not_after (ct_cert c) \<and> x_policies (ct_cert c) = policies_for ca pf
    \<and> has_signing_key ca \<and> \<not> ca_pending ca \<and> e_now e < ca_not_after ca"
proof -
  from issues_ok [OF assms] obtain subject key opt rq where i: "issued_under e pf sans ca p c subject key opt rq" by blast
  then have leaf: "sign_leaf e ca subject key (lr_validity rq) opt = Inr (ct_cert c)" by (simp add: issued_under_def)
  note s = sign_leaf_ok [OF leaf]
  from s(14) obtain na where na: "bounded_not_after (e_cfg e) (e_now e) (lr_validity rq) (Some (ca_not_after ca)) False False = Inr na"
    "x_not_after (ct_cert c) = whole na" by blast
  have now: "e_now e < ca_not_after ca" using s(1) by (simp add: ca_expired_def)
  obtain d where d: "na \<le> e_now e + days d" "d \<le> pc_max_cert_days (e_cfg e)" "na \<le> ca_not_after ca" "e_now e < na"
    using bounded_not_after_bounds [OF na(1)] now by auto
  have "x_not_after (ct_cert c) \<le> ca_not_after ca" using d(3) whole_le [of na] na(2) by simp
  moreover have "x_not_after (ct_cert c) \<le> e_now e + days (pc_max_cert_days (e_cfg e))"
    using d(1) days_mono [OF d(2)] whole_le [of na] na(2) by simp
  moreover have "whole (e_now e) \<le> whole na" using d(4) by (intro whole_mono) simp
  moreover have "''key_cert_sign'' \<notin> set (x_key_usage (ct_cert c))" "''crl_sign'' \<notin> set (x_key_usage (ct_cert c))"
    unfolding s(8) by (auto dest: leaf_usages)
  ultimately show ?thesis using i s na(2) now by (simp add: issued_under_def)
qed

section \<open>Names\<close>

lemma general_names_requested:
  assumes "build_general_names ok sans = Inr gs" "san_names sans = Inr ns"
  shows "\<forall>n \<in> set gs. fst n \<in> set constrained_kinds \<longrightarrow> n \<in> set ns"
  using assms
proof (induction sans arbitrary: gs ns)
  case (Cons e es)
  from Cons.prems obtain q ns' where q: "san_parse_entry e = Inr q" "san_names es = Inr ns'" by (auto simp: and_then_Inr)
  show ?case
  proof (cases q)
    case None
    with Cons q show ?thesis by (auto simp: and_then_Inr)
  next
    case (Some kv)
    obtain k v where kv: "kv = (k, v)" by (cases kv)
    with Some q Cons.prems obtain gs' n where gs: "build_general_names ok es = Inr gs'" "gs = n # gs'" "to_general_name ok k v = Inr n"
      by (auto simp: and_then_Inr)
    have "n = (k, v)" using gs(3) by (auto simp: to_general_name_def split: if_splits option.splits)
    with Cons.IH [OF gs(1) q(2)] Cons.prems(2) Some kv q gs(2) show ?thesis by (auto split: if_splits)
  qed
qed simp

lemma requested_names_san: "requested_names cn sans = Inr names \<Longrightarrow> \<exists>ns. san_names sans = Inr ns \<and> set ns \<subseteq> set names"
  by (cases cn) (auto simp: requested_names_def and_then_Inr split: if_splits)

text \<open>C30. Every DNS, IP, e-mail and URI name a certificate carries as a subject alternative name satisfies the name constraints
  of its CA and of every CA above it.\<close>

theorem issued_names_respect_constraints:
  assumes "issues e pf sans ca p p' c" "wf_csrs p" "get_ca p (ca_id ca) = Some ca"
    and "n \<in> set (x_san (ct_cert c))" "fst n \<in> set constrained_kinds" "below p i (ca_id ca)" "get_ca p i = Some a"
  shows "name_allowed (ca_constraints a) n"
proof -
  from issues_ok [OF assms(1,2)] obtain subject key opt rq where u: "issued_under e pf sans ca p c subject key opt rq" by blast
  then have leaf: "sign_leaf e ca subject key (lr_validity rq) opt = Inr (ct_cert c)" and san: "lo_san opt = sans"
    and enf: "enforce_names p ca (lr_common_name rq) sans = Inr ()" by (simp_all add: issued_under_def)
  from enf obtain names where names: "requested_names (lr_common_name rq) sans = Inr names"
    by (cases "requested_names (lr_common_name rq) sans") (auto simp: enforce_names_def)
  then obtain ns where ns: "san_names sans = Inr ns" "set ns \<subseteq> set names"
    using requested_names_san by blast
  have "n \<in> set names"
    using general_names_requested [OF _ ns(1)] sign_leaf_ok(10) [OF leaf] san assms(4,5) ns(2) by blast
  from enforce_names_sound [OF enf names assms(3,6,7) this] show ?thesis .
qed

section \<open>Profiles\<close>

lemma profile_enforce_named:
  assumes "profile_enforce (Some pf) rq = Inr (ku, eku, aia)" "\<not> pf_is_custom pf"
  shows "ku = (case pf_key_usage pf of None \<Rightarrow> lr_key_usage rq | Some u \<Rightarrow> Some u)"
    "eku = (case pf_ext_key_usage pf of None \<Rightarrow> lr_ext_key_usage rq | Some u \<Rightarrow> Some u)" "aia = pf_include_aia pf"
    "profile_key_ok pf (lr_key_type rq) (lr_key_size rq) = Inr ()" "profile_validity_ok pf (lr_validity rq)"
    "pf_require_san pf \<Longrightarrow> nonblank (lr_san rq) \<noteq> []"
    "pf_san_types pf \<noteq> [] \<Longrightarrow> san_types_ok (pf_san_types pf) (nonblank (lr_san rq)) = Inr ()"
  using assms by (auto simp: profile_enforce_def and_then_Inr Let_def split: if_splits)

lemma san_types_okD: "san_types_ok allowed ss = Inr () \<Longrightarrow> s \<in> set ss \<Longrightarrow> \<exists>k v. san_parse_entry s = Inr (Some (k, v)) \<and> k \<in> set allowed"
  by (induction ss) (auto split: sum.splits option.splits prod.splits)

text \<open>A certificate issued under a named profile carries the Key Usage and Extended Key Usage of the profile whatever the
  request asked for, its lifetime is at most the profile's maximum and every SAN has one of the kinds the profile allows;
  an empty list of extended usages is not one of its usages (see the next claim).\<close>

theorem named_profile_rules:
  assumes "issues e (Some pf) sans ca p p' c" "wf_csrs p" "\<not> pf_is_custom pf"
  shows "(\<forall>u. pf_key_usage pf = Some u \<longrightarrow> x_key_usage (ct_cert c) = key_usage_bits (Some u))
    \<and> (\<forall>u. pf_ext_key_usage pf = Some u \<and> u \<noteq> [] \<longrightarrow> x_ext_key_usage (ct_cert c) = filter (\<lambda>x. x \<in> set EKU_MAP) u)
    \<and> (\<forall>m. pf_max_validity pf = Some m \<and> 0 < m \<longrightarrow> x_not_after (ct_cert c) \<le> e_now e + days m)
    \<and> (pf_san_types pf \<noteq> [] \<longrightarrow> (\<forall>s \<in> set (nonblank sans). \<exists>k v. san_parse_entry s = Inr (Some (k, v)) \<and> k \<in> set (pf_san_types pf)))
    \<and> (pf_require_san pf \<longrightarrow> nonblank sans \<noteq> [])"
proof -
  from issues_ok [OF assms(1,2)] obtain subject key opt rq where u: "issued_under e (Some pf) sans ca p c subject key opt rq" by blast
  then have leaf: "sign_leaf e ca subject key (lr_validity rq) opt = Inr (ct_cert c)" and san: "lr_san rq = sans"
    and en: "profile_enforce (Some pf) rq = Inr (lo_key_usage opt, lo_ext_key_usage opt, lo_include_aia opt)" by (simp_all add: issued_under_def)
  note n = profile_enforce_named [OF en assms(3)] and s = sign_leaf_ok [OF leaf]
  from s(14) obtain na where na: "bounded_not_after (e_cfg e) (e_now e) (lr_validity rq) (Some (ca_not_after ca)) False False = Inr na"
    "x_not_after (ct_cert c) = whole na" by blast
  obtain d where d: "lr_validity rq = Some d" "1 \<le> d" "na \<le> e_now e + days d" using bounded_not_after_bounds [OF na(1)] by blast
  have life: "x_not_after (ct_cert c) \<le> e_now e + days m" if "pf_max_validity pf = Some m" "0 < m" for m
  proof -
    have "d \<le> m" using n(5) d(1,2) that by (simp add: profile_validity_ok_def)
    from days_mono [OF this] d(3) whole_le [of na] na(2) show ?thesis by simp
  qed
  have "x_ext_key_usage (ct_cert c) = filter (\<lambda>x. x \<in> set EKU_MAP) w" if "pf_ext_key_usage pf = Some w" "w \<noteq> []" for w
    using s(9) n(2) that by (cases w) (simp_all add: ext_key_usage_oids_def)
  moreover have "\<forall>x \<in> set (nonblank sans). \<exists>k v. san_parse_entry x = Inr (Some (k, v)) \<and> k \<in> set (pf_san_types pf)"
    if "pf_san_types pf \<noteq> []" using n(7) [OF that] san_types_okD san by blast
  ultimately show ?thesis using s(8) n(1,6) life san by auto
qed

text \<open>A profile saved without any extended key usage fixes none: the builder takes the empty list for an absent one, and the
  certificate is valid for TLS servers and clients.\<close>

theorem empty_extended_usage_is_tls:
  assumes "issues e (Some pf) sans ca p p' c" "wf_csrs p" "\<not> pf_is_custom pf" "pf_ext_key_usage pf = Some []"
  shows "x_ext_key_usage (ct_cert c) = [''serverAuth'', ''clientAuth'']"
proof -
  from issues_ok [OF assms(1,2)] obtain subject key opt rq where u: "issued_under e (Some pf) sans ca p c subject key opt rq" by blast
  then have leaf: "sign_leaf e ca subject key (lr_validity rq) opt = Inr (ct_cert c)"
    and en: "profile_enforce (Some pf) rq = Inr (lo_key_usage opt, lo_ext_key_usage opt, lo_include_aia opt)" by (simp_all add: issued_under_def)
  have "lo_ext_key_usage opt = Some []" using profile_enforce_named(2) [OF en assms(3)] assms(4) by simp
  with sign_leaf_ok(9) [OF leaf] show ?thesis by (simp add: ext_key_usage_oids_def)
qed

section \<open>Failures and success of a signature\<close>

lemma put_put_same: "k r = k r' \<Longrightarrow> put_row k r (put_row k r' t) = put_row k r t"
  by (induction t) (auto simp: put_row_def)

lemma put_row_idem:
  assumes "wf_table k t" "get_row k (k r) t = Some r"
  shows "put_row k r t = t"
  unfolding put_row_def
proof (rule map_idI)
  fix x
  assume "x \<in> set t"
  from get_row_in [OF assms(1) this] assms(2) show "(if k x = k r then r else x) = x" by (metis option.inject)
qed

text \<open>C33. When signing a request fails, for whatever reason and after or before the claim, nothing has changed: no certificate
  was stored and the request is as it was, so a pending one can be signed again.\<close>

theorem failed_signature_changes_nothing:
  assumes "wf_csrs p" "sign_csr e pf rq ca i p = (p', Inl x)"
  shows "p' = p"
proof (cases "csr_of i p")
  case None
  with assms(2) show ?thesis by (simp add: sign_csr_def csr_of_def)
next
  case (Some csr)
  show ?thesis
  proof (cases "\<exists>u p1. sign_checks e p pf rq ca csr = Inr u \<and> claim_csr i p = Inr p1")
    case False
    with assms(2) Some show ?thesis by (auto simp: sign_csr_def csr_of_def split: sum.splits)
  next
    case True
    then obtain u p1 where 1: "sign_checks e p pf rq ca csr = Inr u" "claim_csr i p = Inr p1" by blast
    note cl = claim_csr_eq [OF assms(1) Some 1(2)]
    have st: "cs_status csr = ''pending''" using claim_csr_status(2) [OF assms(1) 1(2)] Some by (simp add: csr_status_def)
    have "wf_csrs p1" using cl assms(1) by simp
    have "release_csr i p1 = set_csr (csr\<lparr>cs_status := ''pending''\<rparr>) p1"
      using cl [THEN conjunct2, THEN conjunct1] by (simp add: release_csr_def move_csr_eq [OF \<open>wf_csrs p1\<close>])
    also have "csr\<lparr>cs_status := ''pending''\<rparr> = csr" using st by (cases csr) simp
    also have "set_csr csr p1 = p"
      using cl assms(1) Some csr_of_key [OF Some]
      by (simp add: set_csr_def put_put_same put_row_idem wf_csrs_def csr_of_def)
    finally have "release_csr i p1 = p" .
    with assms(2) Some 1 show ?thesis by (auto simp: sign_csr_def csr_of_def split: sum.splits)
  qed
qed


section \<open>Renewal\<close>


section \<open>Small instances\<close>

definition demo_profile :: profile where
  "demo_profile = \<lparr>pf_id = 1, pf_key = ''device'', pf_name = ''Device'', pf_description = [], pf_builtin = False, pf_enabled = True,
     pf_key_usage = Some [(''digital_signature'', True), (''key_encipherment'', False)], pf_ext_key_usage = Some [''clientAuth''],
     pf_include_aia = True, pf_policies = [], pf_default_validity = 365, pf_max_validity = Some 398, pf_key_types = [''RSA''], pf_min_rsa = Some 3072, pf_max_rsa = None,
     pf_ec_sizes = [], pf_san_types = [''dns''], pf_require_san = True, pf_cn_in_san = False, pf_updated_by = None\<rparr>"

definition demo_bare_profile :: profile where
  "demo_bare_profile = demo_profile\<lparr>pf_ext_key_usage := Some []\<rparr>"

lemma demo_entry_nonblank: "strip_str ''DNS:www.a.example'' \<noteq> []"
  by code_simp

lemma demo_san_ok: "san_types_ok [''dns''] [''DNS:www.a.example''] = Inr ()"
  by code_simp

lemma demo_profile_ok:
  "profile_enforce (Some demo_profile) demo_leaf
    = Inr (Some [(''digital_signature'', True), (''key_encipherment'', False)], Some [''clientAuth''], True)"
  "profile_enforce (Some demo_bare_profile) demo_leaf
    = Inr (Some [(''digital_signature'', True), (''key_encipherment'', False)], Some [], True)"
  by (simp_all add: profile_enforce_def demo_bare_profile_def demo_profile_def pf_is_custom_def demo_leaf_def nonblank_def demo_entry_nonblank
    profile_key_ok_def profile_validity_ok_def demo_san_ok Let_def
    del: san_types_ok.simps)

lemma demo_issued:
  assumes "profile_enforce pf demo_leaf = Inr u"
  shows "\<exists>p' c. issues demo_env pf [''DNS:www.a.example''] demo_sub demo_csr_pki p' c"
proof -
  obtain p' n c where r: "sign_csr demo_env pf demo_request demo_sub 1 demo_csr_pki = (p', Inr n)" "get_row ct_id n (p_certs p') = Some c"
    using demo_signs [OF demo_csr_wf demo_csr_facts(1) assms demo_enforced] by blast
  have "get_ca demo_csr_pki (ca_id demo_sub) = Some demo_sub" by (simp add: demo_csr_facts demo_get_ca)
  from from_csr [OF this demo_csr_facts(1) r] show ?thesis by (auto simp: demo_csr_facts)
qed

lemma demo_issued_custom: "\<exists>p' c. issues demo_env None [''DNS:www.a.example''] demo_sub demo_csr_pki p' c"
  by (rule demo_issued) (simp add: profile_enforce_def)

theorem leaf_stays_within_ca_witness:
  "\<exists>p' c. issues demo_env None [''DNS:www.a.example''] demo_sub demo_csr_pki p' c
    \<and> x_constraints (ct_cert c) = Some (False, None) \<and> x_not_after (ct_cert c) \<le> days 900"
proof -
  obtain p' c where i: "issues demo_env None [''DNS:www.a.example''] demo_sub demo_csr_pki p' c"
    using demo_issued_custom by blast
  from leaf_stays_within_ca [OF i demo_csr_wf] i demo_ca_facts(3) show ?thesis by auto
qed

theorem named_profile_rules_witness:
  "\<exists>p' c. issues demo_env (Some demo_profile) [''DNS:www.a.example''] demo_sub demo_csr_pki p' c
    \<and> x_ext_key_usage (ct_cert c) = [''clientAuth'']"
proof -
  obtain p' c where i: "issues demo_env (Some demo_profile) [''DNS:www.a.example''] demo_sub demo_csr_pki p' c"
    using demo_issued [OF demo_profile_ok(1)] by blast
  have "\<not> pf_is_custom demo_profile" "pf_ext_key_usage demo_profile = Some [''clientAuth'']" "filter (\<lambda>x. x \<in> set EKU_MAP) [''clientAuth''] = [''clientAuth'']"
    by (simp_all add: demo_profile_def pf_is_custom_def EKU_MAP_def)
  with named_profile_rules [OF i demo_csr_wf] i show ?thesis by (metis list.distinct(1))
qed

theorem empty_extended_usage_is_tls_witness:
  "\<exists>p' c. issues demo_env (Some demo_bare_profile) [''DNS:www.a.example''] demo_sub demo_csr_pki p' c
    \<and> x_ext_key_usage (ct_cert c) = [''serverAuth'', ''clientAuth'']"
proof -
  obtain p' c where i: "issues demo_env (Some demo_bare_profile) [''DNS:www.a.example''] demo_sub demo_csr_pki p' c"
    using demo_issued [OF demo_profile_ok(2)] by blast
  have "\<not> pf_is_custom demo_bare_profile" "pf_ext_key_usage demo_bare_profile = Some []"
    by (simp_all add: demo_bare_profile_def demo_profile_def pf_is_custom_def)
  with empty_extended_usage_is_tls [OF i demo_csr_wf] i show ?thesis by blast
qed

definition demo_nc_csr_pki :: pki where
  "demo_nc_csr_pki = demo_nc_pki\<lparr>p_csrs := [demo_csr]\<rparr>"

lemma demo_nc_facts: "wf_csrs demo_nc_csr_pki" "csr_of 1 demo_nc_csr_pki = Some demo_csr" "get_ca demo_nc_csr_pki 2 = Some demo_sub"
  "get_ca demo_nc_csr_pki 1 = Some ((demo_ca 1 ''root'' None)\<lparr>ca_constraints := Some demo_constraints\<rparr>)"
  "length (p_cas demo_nc_csr_pki) = Suc (Suc 0)"
  by (simp_all add: wf_csrs_def wf_table_def csr_of_def get_row_def demo_nc_csr_pki_def demo_csr_def get_ca_def demo_nc_pki_def demo_ca_def)

lemma demo_within: "check_names 1 (Some demo_constraints) [(''dns'', ''www.a.example''), (''dns'', ''www.a.example'')] = Inr ()"
  by code_simp

lemma demo_nc_enforced_csr: "enforce_names demo_nc_csr_pki demo_sub (Some ''www.a.example'') [''DNS:www.a.example''] = Inr ()"
  using demo_within demo_nc_facts
  by (simp add: enforce_names_def demo_requested demo_ca_facts parent_ca_def split: sum.split)

theorem issued_names_respect_constraints_witness:
  "\<exists>p' c. issues demo_env None [''DNS:www.a.example''] demo_sub demo_nc_csr_pki p' c
    \<and> (''dns'', ''www.a.example'') \<in> set (x_san (ct_cert c)) \<and> name_allowed (Some demo_constraints) (''dns'', ''www.a.example'')"
proof -
  obtain p' n c where r: "sign_csr demo_env None demo_request demo_sub 1 demo_nc_csr_pki = (p', Inr n)" "get_row ct_id n (p_certs p') = Some c"
    using demo_signs [OF demo_nc_facts(1,2) _ demo_nc_enforced_csr, of None] by (auto simp: profile_enforce_def)
  have "get_ca demo_nc_csr_pki (ca_id demo_sub) = Some demo_sub" by (simp add: demo_nc_facts)
  from from_csr [OF this demo_nc_facts(2) r] have i: "issues demo_env None [''DNS:www.a.example''] demo_sub demo_nc_csr_pki p' c"
    by (simp add: demo_csr_facts)
  from issues_ok [OF i demo_nc_facts(1)] obtain subject key opt rq where
    "issued_under demo_env None [''DNS:www.a.example''] demo_sub demo_nc_csr_pki c subject key opt rq" by blast
  then have "sign_leaf demo_env demo_sub subject key (lr_validity rq) opt = Inr (ct_cert c)"
    and "lo_san opt = [''DNS:www.a.example'']" by (simp_all add: issued_under_def)
  then have "build_general_names (e_gn_ok demo_env) [''DNS:www.a.example''] = Inr (x_san (ct_cert c))"
    using sign_leaf_ok(10) by metis
  then have san: "x_san (ct_cert c) = [(''dns'', ''www.a.example'')]"
    by (simp add: demo_entry to_general_name_def demo_env_facts)
  have "below demo_nc_csr_pki 1 2" using below_child [OF below_self demo_nc_facts(3)] by simp
  from issued_names_respect_constraints [OF i demo_nc_facts(1) _ _ _ _ demo_nc_facts(4), of "(''dns'', ''www.a.example'')"] this san demo_nc_facts(3)
  have "name_allowed (Some demo_constraints) (''dns'', ''www.a.example'')" by (simp add: constrained_kinds_def)
  with i san show ?thesis by (intro exI [of _ p'] exI [of _ c]) simp
qed

definition demo_offline :: env where
  "demo_offline = demo_env\<lparr>e_signs := (\<lambda>_. False)\<rparr>"

lemma demo_refuses: "\<exists>x p'. sign_csr demo_offline None demo_request demo_sub 1 demo_csr_pki = (p', Inl x)"
proof -
  have False if "sign_csr demo_offline None demo_request demo_sub 1 demo_csr_pki = (p', Inr n)" for p' n
  proof -
    from that obtain usage p1 where "sign_claimed_csr demo_offline None demo_request usage demo_sub 1 p1 = Inr (p', n)" by (rule sign_csr_ok)
    moreover obtain ku eku aia where "usage = (ku, eku, aia)" by (cases usage)
    ultimately have "sign_claimed_csr demo_offline None demo_request (ku, eku, aia) demo_sub 1 p1 = Inr (p', n)" by simp
    then show False by (rule sign_claimed_ok) (use sign_leaf_ok(2) in \<open>fastforce simp: demo_offline_def\<close>)
  qed
  then show ?thesis by (metis old.sum.exhaust surj_pair)
qed

theorem failed_signature_changes_nothing_witness:
  "\<exists>u x. sign_checks demo_offline demo_csr_pki None demo_request demo_sub demo_csr = Inr u
    \<and> sign_csr demo_offline None demo_request demo_sub 1 demo_csr_pki = (demo_csr_pki, Inl x)"
proof -
  obtain p' x where r: "sign_csr demo_offline None demo_request demo_sub 1 demo_csr_pki = (p', Inl x)" using demo_refuses by blast
  have "sign_checks demo_offline demo_csr_pki None demo_request demo_sub demo_csr = Inr (None, None, True)"
    using demo_checks [OF _ demo_enforced, of None] by (simp add: sign_checks_def demo_offline_def profile_enforce_def demo_leaf_def)
  with failed_signature_changes_nothing [OF demo_csr_wf r] r show ?thesis by auto
qed













end
