(* ===== verification/Csr_Claims.thy ===== *)
theory Csr_Claims
  imports Issuance_Facts
begin

text \<open>
  Signing requests under concurrent workers. Each database statement of the code
  is a step of its own, so the steps of the workers interleave freely: the claim
  and the release of \<open>sign_csr\<close> are conditional updates, the rejection of
  \<open>routes/csr.py\<close> reads the status and writes it later.
\<close>

section \<open>Interleaved workers\<close>

text \<open>What a worker is doing: it holds the claim on a CSR, or has read that a CSR is pending in order to reject it.\<close>

datatype csr_job = Signing nat | Rejecting nat

record csr_world =
  cw_pki :: pki
  cw_jobs :: "nat \<Rightarrow> csr_job option"
  cw_issued :: "(nat \<times> nat) list"

inductive csr_step :: "csr_world \<Rightarrow> csr_world \<Rightarrow> bool" where
  claim: "cw_jobs s w = None \<Longrightarrow> claim_csr i (cw_pki s) = Inr p
    \<Longrightarrow> csr_step s (s\<lparr>cw_pki := p, cw_jobs := (cw_jobs s)(w \<mapsto> Signing i)\<rparr>)"
| finish: "cw_jobs s w = Some (Signing i) \<Longrightarrow> sign_claimed_csr e pf rq usage ca i (cw_pki s) = Inr (p, c)
    \<Longrightarrow> csr_step s (s\<lparr>cw_pki := p, cw_jobs := (cw_jobs s)(w := None), cw_issued := (i, c) # cw_issued s\<rparr>)"
| failure: "cw_jobs s w = Some (Signing i)
    \<Longrightarrow> csr_step s (s\<lparr>cw_pki := release_csr i (cw_pki s), cw_jobs := (cw_jobs s)(w := None)\<rparr>)"
| crash: "csr_step s (s\<lparr>cw_jobs := (cw_jobs s)(w := None)\<rparr>)"
| reject_read: "cw_jobs s w = None \<Longrightarrow> csr_status (cw_pki s) i = Some ''pending''
    \<Longrightarrow> csr_step s (s\<lparr>cw_jobs := (cw_jobs s)(w \<mapsto> Rejecting i)\<rparr>)"
| reject_write: "cw_jobs s w = Some (Rejecting i) \<Longrightarrow> csr_of i (cw_pki s) = Some csr
    \<Longrightarrow> csr_step s (s\<lparr>cw_pki := set_csr (csr\<lparr>cs_status := ''rejected''\<rparr>) (cw_pki s), cw_jobs := (cw_jobs s)(w := None)\<rparr>)"
| request: "import_csr e csr by_user prof (cw_pki s) = Inr (p, i) \<Longrightarrow> csr_step s (s\<lparr>cw_pki := p\<rparr>)"

inductive csr_reach :: "pki \<Rightarrow> csr_world \<Rightarrow> bool" for p0 where
  start: "csr_reach p0 \<lparr>cw_pki = p0, cw_jobs = (\<lambda>_. None), cw_issued = []\<rparr>"
| step: "csr_reach p0 s \<Longrightarrow> csr_step s s' \<Longrightarrow> csr_reach p0 s'"

definition issued_csrs :: "csr_world \<Rightarrow> nat set" where
  "issued_csrs s = fst ` set (cw_issued s)"

lemma issued_csrs_simps [simp]:
  "issued_csrs (s\<lparr>cw_pki := p\<rparr>) = issued_csrs s" "issued_csrs (s\<lparr>cw_jobs := j\<rparr>) = issued_csrs s"
  "issued_csrs (s\<lparr>cw_issued := (i, c) # cw_issued t\<rparr>) = insert i (issued_csrs t)"
  by (simp_all add: issued_csrs_def)

lemma issued_not_fst [simp]: "i \<notin> fst ` set (cw_issued s) \<longleftrightarrow> i \<notin> issued_csrs s"
  by (simp add: issued_csrs_def)

text \<open>
  A CSR some worker holds is \<open>signing\<close>, or was rejected meanwhile; one worker
  holds it; it has no certificate yet. A CSR with a certificate never becomes
  pending again.
\<close>

definition csr_inv :: "csr_world \<Rightarrow> bool" where
  "csr_inv s \<longleftrightarrow> wf_csrs (cw_pki s) \<and> distinct (map fst (cw_issued s))
     \<and> (\<forall>w i. cw_jobs s w = Some (Signing i) \<longrightarrow> i \<notin> issued_csrs s
          \<and> csr_status (cw_pki s) i \<in> {Some ''signing'', Some ''rejected''})
     \<and> (\<forall>w v i. cw_jobs s w = Some (Signing i) \<and> cw_jobs s v = Some (Signing i) \<longrightarrow> w = v)
     \<and> (\<forall>i \<in> issued_csrs s. csr_status (cw_pki s) i \<in> {Some ''approved'', Some ''rejected''})"

lemma csr_invI:
  assumes "wf_csrs (cw_pki s)" "distinct (map fst (cw_issued s))"
    "\<And>w i. cw_jobs s w = Some (Signing i) \<Longrightarrow> i \<notin> issued_csrs s"
    "\<And>w i. cw_jobs s w = Some (Signing i) \<Longrightarrow> csr_status (cw_pki s) i \<in> {Some ''signing'', Some ''rejected''}"
    "\<And>w v i. cw_jobs s w = Some (Signing i) \<Longrightarrow> cw_jobs s v = Some (Signing i) \<Longrightarrow> w = v"
    "\<And>i. i \<in> issued_csrs s \<Longrightarrow> csr_status (cw_pki s) i \<in> {Some ''approved'', Some ''rejected''}"
  shows "csr_inv s"
  using assms unfolding csr_inv_def by blast

lemma csr_invD:
  assumes "csr_inv s"
  shows "wf_csrs (cw_pki s)" "distinct (map fst (cw_issued s))"
    "cw_jobs s w = Some (Signing i) \<Longrightarrow> i \<notin> issued_csrs s"
    "cw_jobs s w = Some (Signing i) \<Longrightarrow> csr_status (cw_pki s) i \<in> {Some ''signing'', Some ''rejected''}"
    "cw_jobs s w = Some (Signing i) \<Longrightarrow> cw_jobs s v = Some (Signing i) \<Longrightarrow> w = v"
    "i \<in> issued_csrs s \<Longrightarrow> csr_status (cw_pki s) i \<in> {Some ''approved'', Some ''rejected''}"
  using assms unfolding csr_inv_def by blast+

lemma new_csr_id [simp]: "cs_id (new_csr p cn csr sans by_user prof) = fresh_id cs_id (p_csrs p)"
  by (simp add: new_csr_def)

lemma import_csr_status:
  assumes "wf_csrs p" "import_csr e csr by_user prof p = Inr (p', i)"
  shows "wf_csrs p'" "csr_status p j \<noteq> None \<Longrightarrow> csr_status p' j = csr_status p j"
proof -
  have p': "p' = p\<lparr>p_csrs := p_csrs p @ [new_csr p
      (case map_of (fst (parse_csr csr)) ''CN'' of Some c \<Rightarrow> c | None \<Rightarrow> ''Unknown'') csr (snd (parse_csr csr)) by_user prof]\<rparr>"
    using assms(2) by (auto simp: import_csr_def and_then_Inr Let_def split: prod.splits)
  show "wf_csrs p'" using assms(1) by (simp add: p' wf_csrs_def wf_table_snoc)
  have "find P (xs @ ys) = (case find P xs of None \<Rightarrow> find P ys | Some x \<Rightarrow> Some x)" for P :: "csr_row \<Rightarrow> bool" and xs ys
    by (induction xs) auto
  then show "csr_status p j \<noteq> None \<Longrightarrow> csr_status p' j = csr_status p j"
    by (auto simp: p' csr_status_def csr_of_def get_row_def)
qed

lemma csr_inv_step: "csr_step s s' \<Longrightarrow> csr_inv s \<Longrightarrow> csr_inv s'"
proof (induction rule: csr_step.induct)
  case (claim s w i p)
  note inv = csr_invD [OF claim.prems] and cl = claim_csr_status [OF csr_invD(1) [OF claim.prems] claim.hyps(2)]
  have new: "i \<notin> issued_csrs s" using inv(6) [of i] cl(2) by auto
  have held: "cw_jobs s v \<noteq> Some (Signing i)" for v using inv(4) [of v i] cl(2) by auto
  show ?case
  proof (rule csr_invI)
    fix v j
    assume "cw_jobs (s\<lparr>cw_pki := p, cw_jobs := (cw_jobs s)(w \<mapsto> Signing i)\<rparr>) v = Some (Signing j)"
    then show "j \<notin> issued_csrs (s\<lparr>cw_pki := p, cw_jobs := (cw_jobs s)(w \<mapsto> Signing i)\<rparr>)"
      and "csr_status (cw_pki (s\<lparr>cw_pki := p, cw_jobs := (cw_jobs s)(w \<mapsto> Signing i)\<rparr>)) j \<in> {Some ''signing'', Some ''rejected''}"
      using new inv(3,4) [of v j] by (auto simp: cl(3) split: if_splits)
  qed (use inv cl new held in \<open>auto split: if_splits\<close>)
next
  case (finish s w i e pf rq usage ca p c)
  note inv = csr_invD [OF finish.prems] and fin = sign_claimed_status [OF csr_invD(1) [OF finish.prems] finish.hyps(2)]
  have other: "cw_jobs s v = Some (Signing i) \<Longrightarrow> v = w" for v using inv(5) finish.hyps(1) by blast
  have new: "i \<notin> issued_csrs s" by (rule inv(3) [OF finish.hyps(1)])
  have issued: "j \<in> insert i (issued_csrs s) \<Longrightarrow> csr_status p j \<in> {Some ''approved'', Some ''rejected''}" for j
    using inv(6) [of j] fin(2) by auto
  have held: "cw_jobs s v = Some (Signing j) \<Longrightarrow> v \<noteq> w \<Longrightarrow> csr_status p j \<in> {Some ''signing'', Some ''rejected''}" for v j
    using inv(4) [of v j] other [of v] fin(2) by auto
  show ?case
    by (rule csr_invI) (use inv(2,3,5) other new fin(1) issued held in \<open>auto split: if_splits\<close>)
next
  case (failure s w i)
  note inv = csr_invD [OF failure.prems] and rel = release_csr_status [OF csr_invD(1) [OF failure.prems], of i]
  have other: "cw_jobs s v = Some (Signing i) \<Longrightarrow> v = w" for v using inv(5) failure.hyps(1) by blast
  have new: "i \<notin> issued_csrs s" by (rule inv(3) [OF failure.hyps(1)])
  have issued: "j \<in> issued_csrs s \<Longrightarrow> csr_status (release_csr i (cw_pki s)) j \<in> {Some ''approved'', Some ''rejected''}" for j
    using inv(6) [of j] rel(2) new by auto
  have held: "cw_jobs s v = Some (Signing j) \<Longrightarrow> v \<noteq> w
      \<Longrightarrow> csr_status (release_csr i (cw_pki s)) j \<in> {Some ''signing'', Some ''rejected''}" for v j
    using inv(4) [of v j] other [of v] rel(2) by auto
  show ?case
    by (rule csr_invI) (use inv(2,3,5) other rel(1) issued held in \<open>auto split: if_splits\<close>)
next
  case (crash s w)
  note inv = csr_invD [OF crash.prems]
  show ?case by (rule csr_invI) (use inv in \<open>auto split: if_splits\<close>)
next
  case (reject_read s w i)
  note inv = csr_invD [OF reject_read.prems]
  show ?case by (rule csr_invI) (use inv in \<open>auto split: if_splits\<close>)
next
  case (reject_write s w i csr)
  note inv = csr_invD [OF reject_write.prems]
  have st: "csr_status (set_csr (csr\<lparr>cs_status := ''rejected''\<rparr>) (cw_pki s)) = (csr_status (cw_pki s))(i \<mapsto> ''rejected'')"
    using reject_write.hyps(2) csr_of_key [OF reject_write.hyps(2)] by (auto simp: csr_status_def csr_of_set)
  show ?case by (rule csr_invI) (use inv st in \<open>auto split: if_splits\<close>)
next
  case (request e csr by_user prof s p i)
  note inv = csr_invD [OF request.prems] and im = import_csr_status [OF csr_invD(1) [OF request.prems] request.hyps]
  show ?case
  proof (rule csr_invI)
    fix v j
    assume "cw_jobs (s\<lparr>cw_pki := p\<rparr>) v = Some (Signing j)"
    then show "csr_status (cw_pki (s\<lparr>cw_pki := p\<rparr>)) j \<in> {Some ''signing'', Some ''rejected''}"
      using inv(4) [of v j] im(2) [of j] by auto
  next
    fix j
    assume "j \<in> issued_csrs (s\<lparr>cw_pki := p\<rparr>)"
    then show "csr_status (cw_pki (s\<lparr>cw_pki := p\<rparr>)) j \<in> {Some ''approved'', Some ''rejected''}"
      using inv(6) [of j] im(2) [of j] by auto
  qed (use inv im(1) in \<open>auto\<close>)
qed

text \<open>C31. However the workers interleave (claims, finished and failed signatures, crashes, rejections, new requests),
  no request is issued twice: each CSR appears at most once among the certificates issued from requests, and what was
  issued is not pending any more.\<close>

theorem csr_issues_once:
  assumes "csr_reach p0 s" and "wf_csrs p0"
  shows "distinct (map fst (cw_issued s))
    \<and> (\<forall>i \<in> issued_csrs s. csr_status (cw_pki s) i \<in> {Some ''approved'', Some ''rejected''})"
proof -
  from assms have "csr_inv s"
  proof (induction rule: csr_reach.induct)
    case start
    then show ?case by (intro csr_invI) (auto simp: issued_csrs_def)
  next
    case (step s s')
    then show ?case using csr_inv_step by blast
  qed
  then show ?thesis by (simp add: csr_inv_def)
qed

section \<open>One call\<close>

lemma sign_csr_steps:
  assumes "csr_reach p0 s" "cw_jobs s w = None" "sign_csr e pf rq ca i (cw_pki s) = (p', Inr c)"
  shows "\<exists>s'. csr_reach p0 s' \<and> cw_pki s' = p' \<and> cw_jobs s' = cw_jobs s \<and> cw_issued s' = (i, c) # cw_issued s"
proof -
  obtain csr usage p1 where 1: "claim_csr i (cw_pki s) = Inr p1" "sign_claimed_csr e pf rq usage ca i p1 = Inr (p', c)"
    using assms(3) by (rule sign_csr_ok)
  let ?s = "s\<lparr>cw_pki := p1, cw_jobs := (cw_jobs s)(w \<mapsto> Signing i)\<rparr>"
  have "csr_reach p0 ?s" using assms(1) csr_step.claim [OF assms(2) 1(1)] by (rule csr_reach.step)
  moreover have "csr_step ?s (?s\<lparr>cw_pki := p', cw_jobs := (cw_jobs ?s)(w := None), cw_issued := (i, c) # cw_issued ?s\<rparr>)"
    by (rule csr_step.finish) (use 1(2) in simp_all)
  ultimately have r: "csr_reach p0 (?s\<lparr>cw_pki := p', cw_jobs := (cw_jobs ?s)(w := None), cw_issued := (i, c) # cw_issued ?s\<rparr>)"
    by (rule csr_reach.step)
  show ?thesis
    by (intro exI conjI, rule r) (use assms(2) in \<open>simp_all add: fun_upd_idem\<close>)
qed

text \<open>The rejection reads the status and writes it in two statements, so a CSR that another worker signs in between ends
  as \<open>rejected\<close> although its certificate was issued and stays valid.\<close>

theorem rejected_yet_issued:
  assumes "csr_reach p0 s" "wf_csrs p0" "cw_jobs s v = None" "cw_jobs s w = None" "v \<noteq> w"
    and "sign_csr e pf rq ca i (cw_pki s) = (p', Inr c)"
  shows "\<exists>s'. csr_reach p0 s' \<and> csr_status (cw_pki s') i = Some ''rejected'' \<and> (i, c) \<in> set (cw_issued s')
    \<and> p_certs (cw_pki s') = p_certs p'"
proof -
  from assms(1,2) have inv: "csr_inv s"
  proof (induction rule: csr_reach.induct)
    case start
    then show ?case by (intro csr_invI) (auto simp: issued_csrs_def)
  qed (use csr_inv_step in blast)
  obtain usage p1 where 1: "claim_csr i (cw_pki s) = Inr p1" "sign_claimed_csr e pf rq usage ca i p1 = Inr (p', c)"
    using assms(6) by (rule sign_csr_ok)
  note wf1 = claim_csr_status [OF csr_invD(1) [OF inv] 1(1)]
  let ?s = "s\<lparr>cw_jobs := (cw_jobs s)(v \<mapsto> Rejecting i)\<rparr>"
  have r: "csr_reach p0 ?s" using assms(1) csr_step.reject_read [OF assms(3) wf1(2)] by (rule csr_reach.step)
  have "cw_jobs ?s w = None" "sign_csr e pf rq ca i (cw_pki ?s) = (p', Inr c)" using assms(4,5,6) by simp_all
  from sign_csr_steps [OF r this] obtain s1 where
    s1: "csr_reach p0 s1" "cw_pki s1 = p'" "cw_jobs s1 = cw_jobs ?s" "cw_issued s1 = (i, c) # cw_issued s" by auto
  have "csr_status p' i = Some ''approved''" using sign_claimed_status(2) [OF wf1(1) 1(2)] by simp
  then obtain csr where csr: "csr_of i p' = Some csr" by (auto simp: csr_status_def)
  have "csr_step s1 (s1\<lparr>cw_pki := set_csr (csr\<lparr>cs_status := ''rejected''\<rparr>) (cw_pki s1), cw_jobs := (cw_jobs s1)(v := None)\<rparr>)"
    by (rule csr_step.reject_write) (use s1 csr in simp_all)
  with s1(1) have r2: "csr_reach p0 (s1\<lparr>cw_pki := set_csr (csr\<lparr>cs_status := ''rejected''\<rparr>) (cw_pki s1), cw_jobs := (cw_jobs s1)(v := None)\<rparr>)"
    by (rule csr_reach.step)
  show ?thesis
    by (intro exI conjI, rule r2)
      (use s1(2,4) csr csr_of_key [OF csr] in \<open>simp_all add: csr_status_def csr_of_set, simp add: set_csr_def\<close>)
qed

theorem csr_issues_once_witness:
  "\<exists>s n. csr_reach demo_csr_pki s \<and> cw_issued s = [(1, n)] \<and> csr_status (cw_pki s) 1 \<in> {Some ''approved'', Some ''rejected''}"
proof -
  obtain p' n where r: "sign_csr demo_env None demo_request demo_sub 1 demo_csr_pki = (p', Inr n)" using demo_signed by blast
  obtain s where s: "csr_reach demo_csr_pki s" "cw_issued s = [(1, n)]"
    using sign_csr_steps [OF csr_reach.start, where w = 0, simplified, OF r] by auto
  from csr_issues_once [OF s(1) demo_csr_wf] s(2) have "csr_status (cw_pki s) 1 \<in> {Some ''approved'', Some ''rejected''}"
    by (simp add: issued_csrs_def)
  with s show ?thesis by blast
qed

theorem rejected_yet_issued_witness:
  "\<exists>s n. csr_reach demo_csr_pki s \<and> csr_status (cw_pki s) 1 = Some ''rejected'' \<and> (1, n) \<in> set (cw_issued s)"
proof -
  obtain p' n where r: "sign_csr demo_env None demo_request demo_sub 1 demo_csr_pki = (p', Inr n)" using demo_signed by blast
  from rejected_yet_issued [OF csr_reach.start demo_csr_wf, where v = 0 and w = 1, simplified, OF r] show ?thesis by blast
qed

end
