(* ===== verification/Acme_Jws.thy ===== *)
theory Acme_Jws
  imports Json Pki "HOL-Library.AList"
begin

text \<open>
  Signed requests of the ACME server: \<open>app/services/acme/jws.py\<close> and
  \<open>problem.py\<close>. The primitives of pyca and hashlib are the fields of \<open>jose\<close>; a
  text is one of code points below 256 and a byte string one of characters.
\<close>

section \<open>Problem documents\<close>

text \<open>
  An \<open>AcmeProblem\<close> is its type and HTTP status. Any other exception of a request
  ends as \<open>serverInternal\<close>.
\<close>

datatype acme_problem = Problem string nat

definition STATUS :: "(string \<times> nat) list" where
  "STATUS = [(''orderNotReady'', 403), (''rateLimited'', 429), (''serverInternal'', 500), (''unauthorized'', 401),
     (''userActionRequired'', 403)]"

definition problem :: "string \<Rightarrow> acme_problem" where
  "problem t = Problem t (case map_of STATUS t of None \<Rightarrow> 400 | Some s \<Rightarrow> s)"

definition malformed :: acme_problem where
  "malformed = problem ''malformed''"

definition crash :: acme_problem where
  "crash = problem ''serverInternal''"

lemma problem_cases: "problem t = problem u \<Longrightarrow> t = u"
  by (simp add: problem_def)

section \<open>base64url\<close>

definition b64_char :: "nat \<Rightarrow> char" where
  "b64_char n = (if n < 26 then char_of (65 + n) else if n < 52 then char_of (71 + n)
     else if n < 62 then char_of (n - 4) else if n = 62 then CHR ''+'' else CHR ''/'')"

definition b64_val :: "char \<Rightarrow> nat option" where
  "b64_val c = (if is_upper c then Some (char_code c - 65) else if is_lower c then Some (char_code c - 71)
     else if is_digit c then Some (char_code c + 4) else if c = CHR ''+'' then Some 62 else if c = CHR ''/'' then Some 63 else None)"

fun b64encode :: "string \<Rightarrow> string" where
  "b64encode [] = []"
| "b64encode [a] = [b64_char (char_code a div 4), b64_char (char_code a mod 4 * 16), CHR ''='', CHR ''='']"
| "b64encode [a, b] = [b64_char (char_code a div 4), b64_char (char_code a mod 4 * 16 + char_code b div 16),
     b64_char (char_code b mod 16 * 4), CHR ''='']"
| "b64encode (a # b # c # r) =
     b64_char (char_code a div 4) # b64_char (char_code a mod 4 * 16 + char_code b div 16)
       # b64_char (char_code b mod 16 * 4 + char_code c div 64) # b64_char (char_code c mod 64) # b64encode r"

text \<open>
  \<open>binascii.a2b_base64\<close> as Python calls it: characters outside the alphabet are
  skipped, enough padding after a partial group ends the text.
\<close>

fun a2b :: "nat \<Rightarrow> nat \<Rightarrow> nat \<Rightarrow> string \<Rightarrow> string option" where
  "a2b q l p [] = (if q = 0 then Some [] else None)"
| "a2b q l p (c # cs) =
     (if c = CHR ''='' then
        (if 2 \<le> q \<and> 4 \<le> q + Suc p then Some [] else a2b q l (if 2 \<le> q then Suc p else p) cs)
      else (case b64_val c of
         None \<Rightarrow> a2b q l p cs
       | Some v \<Rightarrow>
           if q = 0 then a2b 1 v 0 cs
           else if q = 1 then map_option ((#) (char_of (l * 4 + v div 16))) (a2b 2 (v mod 16) 0 cs)
           else if q = 2 then map_option ((#) (char_of (l * 16 + v div 4))) (a2b 3 (v mod 4) 0 cs)
           else map_option ((#) (char_of (l * 64 + v))) (a2b 0 0 0 cs)))"

definition to_urlsafe :: "char \<Rightarrow> char" where
  "to_urlsafe c = (if c = CHR ''+'' then CHR ''-'' else if c = CHR ''/'' then CHR ''_'' else c)"

definition from_urlsafe :: "char \<Rightarrow> char" where
  "from_urlsafe c = (if c = CHR ''-'' then CHR ''+'' else if c = CHR ''_'' then CHR ''/'' else c)"

definition b64url_encode :: "string \<Rightarrow> string" where
  "b64url_encode s = rstrip_by (\<lambda>c. c = CHR ''='') (map to_urlsafe (b64encode s))"

text \<open>The pattern \<open>_B64URL\<close>; its \<open>$\<close> also matches before a final newline.\<close>

definition b64url_char :: "char \<Rightarrow> bool" where
  "b64url_char c \<longleftrightarrow> is_upper c \<or> is_lower c \<or> is_digit c \<or> c = CHR ''_'' \<or> c = CHR ''-''"

definition B64URL :: "string \<Rightarrow> bool" where
  "B64URL s \<longleftrightarrow> list_all b64url_char (if s \<noteq> [] \<and> List.last s = CHR 0x0A then butlast s else s)"

text \<open>The problem it raises, or the \<open>binascii.Error\<close> of a text whose length no encoding has.\<close>

datatype b64_failure = Not_base64url | Bad_length

definition b64url_decode :: "json \<Rightarrow> b64_failure + string" where
  "b64url_decode j =
     (case j of
        JStr s \<Rightarrow>
          require (B64URL s) Not_base64url
            (case a2b 0 0 0 (map from_urlsafe (s @ replicate ((4 - length s mod 4) mod 4) (CHR ''=''))) of
               None \<Rightarrow> Inl Bad_length
             | Some bytes \<Rightarrow> Inr bytes)
      | _ \<Rightarrow> Inl Not_base64url)"

text \<open>What becomes of a failure: \<open>ValueError\<close> caught as \<open>p\<close>, or not caught.\<close>

definition caught :: "acme_problem \<Rightarrow> b64_failure + 'a \<Rightarrow> acme_problem + 'a" where
  "caught p r = (case r of Inl Not_base64url \<Rightarrow> Inl malformed | Inl Bad_length \<Rightarrow> Inl p | Inr x \<Rightarrow> Inr x)"

text \<open>\<open>json.loads\<close> of bytes: UTF-8, here of the code points below 256.\<close>

fun utf8_decode :: "string \<Rightarrow> string option" where
  "utf8_decode [] = Some []"
| "utf8_decode (c # cs) =
     (if char_code c < 128 then map_option ((#) c) (utf8_decode cs)
      else (case cs of
         d # r \<Rightarrow> if char_code c \<in> {194, 195} \<and> 128 \<le> char_code d \<and> char_code d < 192
                   then map_option ((#) (char_of (char_code c mod 4 * 64 + char_code d mod 64))) (utf8_decode r) else None
       | [] \<Rightarrow> None))"

definition loads_bytes :: "string \<Rightarrow> json option" where
  "loads_bytes s = (case utf8_decode s of None \<Rightarrow> None | Some t \<Rightarrow> loads t)"

section \<open>Keys\<close>

text \<open>
  pyca: an RSA key from exponent and modulus, an elliptic-curve key from the
  coordinates (None where they are refused), a signature over a text; and the
  digests of hashlib and hmac.
\<close>

record jose =
  jo_rsa :: "nat \<Rightarrow> nat \<Rightarrow> pub_key option"
  jo_ec :: "string \<Rightarrow> nat \<Rightarrow> nat \<Rightarrow> pub_key option"
  jo_sig :: "pub_key \<Rightarrow> string \<Rightarrow> string \<Rightarrow> string \<Rightarrow> bool"
  jo_sha256 :: "string \<Rightarrow> string"
  jo_hmac :: "string \<Rightarrow> string \<Rightarrow> string \<Rightarrow> string"

text \<open>Curve, name in a JWK, and bytes of a coordinate for each algorithm.\<close>

definition EC_ALGS :: "(string \<times> string \<times> nat) list" where
  "EC_ALGS = [(''ES256'', ''secp256r1'', 32), (''ES384'', ''secp384r1'', 48), (''ES512'', ''secp521r1'', 66)]"

definition CURVES :: "(string \<times> string) list" where
  "CURVES = [(''P-256'', ''secp256r1''), (''P-384'', ''secp384r1''), (''P-521'', ''secp521r1'')]"

definition ALGS :: "string list" where
  "ALGS = ''RS256'' # map fst EC_ALGS"

definition HMAC_ALGS :: "string list" where
  "HMAC_ALGS = [''HS256'', ''HS384'', ''HS512'']"

definition from_bytes :: "string \<Rightarrow> nat" where
  "from_bytes s = foldl (\<lambda>n c. n * 256 + char_code c) 0 s"

text \<open>A member of a JWK as a number; a missing member is a \<open>KeyError\<close>, caught by the caller.\<close>

definition int_from_b64 :: "json \<Rightarrow> string \<Rightarrow> acme_problem + nat" where
  "int_from_b64 jwk k =
     (case jget k jwk of
        None \<Rightarrow> Inl (problem ''badPublicKey'')
      | Some j \<Rightarrow> and_then (caught (problem ''badPublicKey'') (b64url_decode j)) (\<lambda>raw.
          require (raw \<noteq> []) (problem ''badPublicKey'') (Inr (from_bytes raw))))"

fun rsa_too_small :: "pub_key \<Rightarrow> bool" where
  "rsa_too_small (Rsa n m) = (n < 2048)"
| "rsa_too_small _ = False"

definition key_or :: "pub_key option \<Rightarrow> acme_problem + pub_key" where
  "key_or k = (case k of None \<Rightarrow> Inl (problem ''badPublicKey'') | Some k \<Rightarrow> Inr k)"

definition jwk_to_public_key :: "jose \<Rightarrow> json \<Rightarrow> acme_problem + pub_key" where
  "jwk_to_public_key jo jwk =
     (case jget ''kty'' jwk of
        Some (JStr kty) \<Rightarrow>
          if kty = ''RSA'' then
            and_then (int_from_b64 jwk ''e'') (\<lambda>e. and_then (int_from_b64 jwk ''n'') (\<lambda>n.
              and_then (key_or (jo_rsa jo e n)) (\<lambda>k. require (\<not> rsa_too_small k) (problem ''badPublicKey'') (Inr k))))
          else if kty = ''EC'' then
            (case jget ''crv'' jwk of
               Some (JStr crv) \<Rightarrow>
                 (case map_of CURVES crv of
                    None \<Rightarrow> Inl (problem ''badPublicKey'')
                  | Some curve \<Rightarrow>
                      and_then (int_from_b64 jwk ''x'') (\<lambda>x. and_then (int_from_b64 jwk ''y'') (\<lambda>y. key_or (jo_ec jo curve x y))))
             | _ \<Rightarrow> Inl (problem ''badPublicKey''))
          else Inl (problem ''badPublicKey'')
      | _ \<Rightarrow> Inl (problem ''badPublicKey''))"

text \<open>\<open>thumbprint\<close>: the digest of the required members, sorted and without spaces.\<close>

definition jwk_members :: "json \<Rightarrow> string list" where
  "jwk_members jwk =
     (case jget ''kty'' jwk of
        Some (JStr kty) \<Rightarrow> if kty = ''RSA'' then [''e'', ''kty'', ''n''] else if kty = ''EC'' then [''crv'', ''kty'', ''x'', ''y''] else []
      | _ \<Rightarrow> [])"

definition thumbprint :: "jose \<Rightarrow> json \<Rightarrow> acme_problem + string" where
  "thumbprint jo jwk =
     (let ms = jwk_members jwk
      in require (ms \<noteq> []) (problem ''badPublicKey'')
        (require (list_all (\<lambda>k. jget k jwk \<noteq> None) ms) crash
          (Inr (b64url_encode (jo_sha256 jo (dumps Compact (JObj (map (\<lambda>k. (k, the (jget k jwk))) ms))))))))"

definition key_authorization :: "jose \<Rightarrow> string \<Rightarrow> json \<Rightarrow> acme_problem + string" where
  "key_authorization jo token jwk = and_then (thumbprint jo jwk) (\<lambda>t. Inr (token @ CHR ''.'' # t))"

section \<open>Signatures\<close>

fun key_for_alg :: "string \<Rightarrow> pub_key \<Rightarrow> bool" where
  "key_for_alg alg (Rsa n m) = (alg = ''RS256'')"
| "key_for_alg alg (Ec curve bits m) = (case map_of EC_ALGS alg of None \<Rightarrow> False | Some (c, n) \<Rightarrow> curve = c)"
| "key_for_alg alg _ = False"

definition signature_length_ok :: "string \<Rightarrow> string \<Rightarrow> bool" where
  "signature_length_ok alg sig = (case map_of EC_ALGS alg of None \<Rightarrow> True | Some (c, n) \<Rightarrow> length sig = 2 * n)"

definition verify_signature :: "jose \<Rightarrow> pub_key \<Rightarrow> string \<Rightarrow> string \<Rightarrow> string \<Rightarrow> acme_problem + unit" where
  "verify_signature jo key alg signing_input sig =
     require (key_for_alg alg key) malformed
       (require (signature_length_ok alg sig) malformed
         (require (jo_sig jo key alg signing_input sig) malformed (Inr ())))"

record 'a verified =
  vf_protected :: json
  vf_payload :: "json option"
  vf_jwk :: json
  vf_kid :: "string option"
  vf_key :: pub_key
  vf_account :: "'a option"

definition is_obj :: "json \<Rightarrow> bool" where
  "is_obj j \<longleftrightarrow> (case j of JObj _ \<Rightarrow> True | _ \<Rightarrow> False)"

definition is_jstr :: "json \<Rightarrow> bool" where
  "is_jstr j \<longleftrightarrow> (case j of JStr _ \<Rightarrow> True | _ \<Rightarrow> False)"

text \<open>Equality of Python values: a dict has no order, and a repeated key of a text keeps its last value.\<close>

fun jnormal :: "json \<Rightarrow> json" where
  "jnormal (JArr xs) = JArr (map jnormal xs)"
| "jnormal (JObj kvs) = JObj (AList.clearjunk (rev (map (\<lambda>(k, v). (k, jnormal v)) kvs)))"
| "jnormal j = j"

definition json_equal :: "json \<Rightarrow> json \<Rightarrow> bool" where
  "json_equal a b \<longleftrightarrow> sort_json (jnormal a) = sort_json (jnormal b)"

text \<open>\<open>parse\<close>: the request body is a flattened JWS.\<close>

definition str_member :: "string \<Rightarrow> json \<Rightarrow> bool" where
  "str_member k j \<longleftrightarrow> (case jget k j of Some (JStr s) \<Rightarrow> True | _ \<Rightarrow> False)"

definition jws_parse :: "string \<Rightarrow> acme_problem + json" where
  "jws_parse raw =
     (case loads_bytes raw of
        None \<Rightarrow> Inl malformed
      | Some body \<Rightarrow>
          require (is_obj body \<and> list_all (\<lambda>k. str_member k body) [''protected'', ''payload'', ''signature'']) malformed (Inr body))"

text \<open>\<open>body[k]\<close>; a \<open>KeyError\<close> is not caught.\<close>

definition member :: "string \<Rightarrow> json \<Rightarrow> acme_problem + json" where
  "member k body = (case jget k body of None \<Rightarrow> Inl crash | Some j \<Rightarrow> Inr j)"

text \<open>\<open>.get(k)\<close>, where null counts as absent.\<close>

definition jget_some :: "string \<Rightarrow> json \<Rightarrow> json option" where
  "jget_some k j = (case jget k j of Some JNull \<Rightarrow> None | r \<Rightarrow> r)"

definition protected_header :: "json \<Rightarrow> acme_problem + json" where
  "protected_header body =
     and_then (member ''protected'' body) (\<lambda>p.
     and_then (caught malformed (b64url_decode p)) (\<lambda>raw.
       case loads_bytes raw of None \<Rightarrow> Inl malformed | Some h \<Rightarrow> require (is_obj h) malformed (Inr h)))"

text \<open>The checks of the protected header: algorithm, URL, nonce.\<close>

definition header_ok :: "json \<Rightarrow> string \<Rightarrow> bool \<Rightarrow> acme_problem + string" where
  "header_ok h url require_nonce =
     require (jget ''crit'' h = None) malformed
     (case jget ''alg'' h of
        Some (JStr alg) \<Rightarrow>
          require (alg \<in> set ALGS) (problem ''badSignatureAlgorithm'')
          (require (jget ''url'' h = Some (JStr url)) (problem ''unauthorized'')
          (require (require_nonce \<longrightarrow> (case jget ''nonce'' h of Some (JStr n) \<Rightarrow> n \<noteq> [] | _ \<Rightarrow> False)) (problem ''badNonce'')
          (require (require_nonce \<or> jget ''nonce'' h = None) malformed (Inr alg))))
      | _ \<Rightarrow> Inl (problem ''badSignatureAlgorithm''))"

text \<open>
  The key of the request: in the header (\<open>jwk\<close>) or that of an account (\<open>kid\<close>).
  \<open>find_account\<close> is the argument \<open>account_for_kid\<close>, \<open>jwk_of\<close> the key of an account.
\<close>

definition request_key :: "jose \<Rightarrow> json \<Rightarrow> (string \<Rightarrow> acme_problem + 'a) \<Rightarrow> ('a \<Rightarrow> json) \<Rightarrow> bool \<Rightarrow> bool
    \<Rightarrow> acme_problem + json \<times> string option \<times> 'a option \<times> pub_key" where
  "request_key jo h find_account jwk_of allow_jwk allow_kid =
     (case (jget_some ''jwk'' h, jget_some ''kid'' h) of
        (Some jwk, None) \<Rightarrow>
          require allow_jwk malformed (and_then (jwk_to_public_key jo jwk) (\<lambda>k. Inr (jwk, None, None, k)))
      | (None, Some kid) \<Rightarrow>
          require allow_kid malformed
            (case kid of
               JStr i \<Rightarrow> and_then (find_account i) (\<lambda>a. and_then (jwk_to_public_key jo (jwk_of a)) (\<lambda>k. Inr (jwk_of a, Some i, Some a, k)))
             | _ \<Rightarrow> Inl malformed)
      | _ \<Rightarrow> Inl malformed)"

text \<open>
  The text under the signature; a character that is not ASCII is an error that
  is not caught. A payload that is no text (only possible in an inner JWS) is
  malformed whatever the signature.
\<close>

definition signing_input :: "json \<Rightarrow> json \<Rightarrow> acme_problem + string" where
  "signing_input p d =
     (case (p, d) of
        (JStr a, JStr b) \<Rightarrow> require (list_all (\<lambda>c. char_code c < 128) b) crash (Inr (a @ CHR ''.'' # b))
      | _ \<Rightarrow> Inl malformed)"

definition decoded_payload :: "json \<Rightarrow> acme_problem + json option" where
  "decoded_payload d =
     and_then (caught crash (b64url_decode d)) (\<lambda>raw.
       if raw = [] then Inr None
       else (case loads_bytes raw of None \<Rightarrow> Inl malformed | Some j \<Rightarrow> require (is_obj j) malformed (Inr (Some j))))"

definition jws_verify :: "jose \<Rightarrow> json \<Rightarrow> string \<Rightarrow> (string \<Rightarrow> acme_problem + 'a) \<Rightarrow> ('a \<Rightarrow> json) \<Rightarrow> bool \<Rightarrow> bool \<Rightarrow> bool
    \<Rightarrow> acme_problem + 'a verified" where
  "jws_verify jo body url find_account jwk_of allow_jwk allow_kid require_nonce =
     and_then (protected_header body) (\<lambda>h.
     and_then (header_ok h url require_nonce) (\<lambda>alg.
     and_then (request_key jo h find_account jwk_of allow_jwk allow_kid) (\<lambda>(jwk, kid, account, key).
     and_then (member ''payload'' body) (\<lambda>d.
     and_then (member ''protected'' body) (\<lambda>p.
     and_then (signing_input p d) (\<lambda>text.
     and_then (member ''signature'' body) (\<lambda>s.
     and_then (caught crash (b64url_decode s)) (\<lambda>sig.
     and_then (verify_signature jo key alg text sig) (\<lambda>_.
     and_then (decoded_payload d) (\<lambda>payload.
       Inr \<lparr>vf_protected = h, vf_payload = payload, vf_jwk = jwk, vf_kid = kid, vf_key = key, vf_account = account\<rparr>))))))))))"

text \<open>\<open>verify_eab\<close>: the MAC of an external account binding over the key of the account.\<close>

definition eab_header :: "json \<Rightarrow> acme_problem + json" where
  "eab_header eab =
     require (is_obj eab \<and> list_all (\<lambda>k. str_member k eab) [''protected'', ''payload'', ''signature'']) malformed
       (and_then (member ''protected'' eab) (\<lambda>p.
        and_then (caught malformed (b64url_decode p)) (\<lambda>raw. case loads_bytes raw of None \<Rightarrow> Inl malformed | Some h \<Rightarrow> Inr h)))"

definition eab_mac_ok :: "jose \<Rightarrow> json \<Rightarrow> string \<Rightarrow> string \<Rightarrow> json \<Rightarrow> acme_problem + unit" where
  "eab_mac_ok jo eab mac_key alg outer_jwk =
     and_then (member ''payload'' eab) (\<lambda>d.
     and_then (caught malformed (b64url_decode d)) (\<lambda>raw.
       case loads_bytes raw of
         None \<Rightarrow> Inl malformed
       | Some inner \<Rightarrow>
           require (json_equal inner outer_jwk) (problem ''unauthorized'')
           (and_then (member ''protected'' eab) (\<lambda>p.
            and_then (signing_input p d) (\<lambda>text.
            and_then (member ''signature'' eab) (\<lambda>s.
            and_then (caught crash (b64url_decode s)) (\<lambda>mac.
              require (jo_hmac jo alg mac_key text = mac) (problem ''unauthorized'') (Inr ()))))))))"

definition verify_eab :: "jose \<Rightarrow> json \<Rightarrow> string \<Rightarrow> string \<Rightarrow> json \<Rightarrow> acme_problem + unit" where
  "verify_eab jo eab mac_key url outer_jwk =
     and_then (eab_header eab) (\<lambda>h.
     require (is_obj h) crash
     (case jget ''alg'' h of
        Some (JStr alg) \<Rightarrow>
          require (alg \<in> set HMAC_ALGS) (problem ''badSignatureAlgorithm'')
          (require (jget ''nonce'' h = None) malformed
          (require (jget ''url'' h = Some (JStr url)) (problem ''unauthorized'') (eab_mac_ok jo eab mac_key alg outer_jwk)))
      | _ \<Rightarrow> Inl (problem ''badSignatureAlgorithm'')))"

text \<open>\<open>sign_hmac\<close>: the binding a client makes of a header and a payload.\<close>

definition sign_hmac :: "jose \<Rightarrow> string \<Rightarrow> json \<Rightarrow> json \<Rightarrow> string \<Rightarrow> json" where
  "sign_hmac jo mac_key h payload alg =
     (let p = b64url_encode (dumps Compact h); d = b64url_encode (dumps Compact payload)
      in JObj [(''protected'', JStr p), (''payload'', JStr d),
           (''signature'', JStr (b64url_encode (jo_hmac jo alg mac_key (p @ CHR ''.'' # d))))])"

end
