(* ===== verification/PublicUrl.thy ===== *)
theory PublicUrl
  imports Names
begin

text \<open>
  The URLs embedded in certificates: \<open>app/services/public_url.py\<close>.
\<close>

record url_config =
  uc_scheme :: string
  uc_server_name :: string
  uc_request_host :: string
  uc_testing :: bool

definition DEFAULT_SERVER_NAME :: string where
  "DEFAULT_SERVER_NAME = ''localhost:5000''"

definition LOOPBACK_NAMES :: "string list" where
  "LOOPBACK_NAMES = [''localhost'', ''127.0.0.1'', ''::1'', ''0.0.0.0'', ''::'']"

text \<open>\<open>public_host\<close>: the configured name, or the \<open>Host\<close> of the request while it is the default.\<close>

definition public_host :: "url_config \<Rightarrow> string" where
  "public_host uc =
     (let configured = (if uc_server_name uc = [] then DEFAULT_SERVER_NAME else uc_server_name uc)
      in if configured = DEFAULT_SERVER_NAME then uc_request_host uc else configured)"

definition host_only :: "string \<Rightarrow> string" where
  "host_only hostport =
     (let v = lower_str (strip_str hostport)
      in if startswith v ''['' then
           (case partition_at (CHR '']'') v of None \<Rightarrow> v | Some (a, b) \<Rightarrow> tl a)
         else if length (filter (\<lambda>c. c = CHR '':'') v) = 1 then takeWhile (\<lambda>c. c \<noteq> CHR '':'') v
         else v)"

definition is_loopback :: "string \<Rightarrow> bool" where
  "is_loopback hostport \<longleftrightarrow>
     (let host = host_only hostport
      in host \<in> set LOOPBACK_NAMES \<or> startswith host ''127.'' \<or> endswith host ''.localhost'')"

text \<open>\<open>urlsplit(u).netloc\<close>; Inl when \<open>urlsplit\<close> raises.\<close>

definition url_netloc :: "string \<Rightarrow> unit + string" where
  "url_netloc u =
     (let s = filter (\<lambda>c. c \<notin> {CHR 0x09, CHR 0x0A, CHR 0x0D}) (lstrip_by (\<lambda>c. char_code c \<le> 32) u); r = url_rest s
      in case url_hostname u of
           Inl _ \<Rightarrow> Inl ()
         | Inr _ \<Rightarrow> Inr (if startswith r ''//'' then takeWhile (\<lambda>c. c \<notin> set ''/?#'') (drop 2 r) else []))"

text \<open>\<open>check_embeddable\<close>: True when it raises no ValueError.\<close>

definition embeddable :: "url_config \<Rightarrow> string \<Rightarrow> bool" where
  "embeddable uc u \<longleftrightarrow> uc_testing uc \<or>
     (if sublist ''://'' u then (case url_netloc u of Inl _ \<Rightarrow> False | Inr h \<Rightarrow> \<not> is_loopback h) else \<not> is_loopback u)"

definition ocsp_url :: "url_config \<Rightarrow> nat \<Rightarrow> string" where
  "ocsp_url uc i = uc_scheme uc @ ''://'' @ public_host uc @ ''/public/ocsp/'' @ show_nat i"

definition crl_url :: "url_config \<Rightarrow> nat \<Rightarrow> string" where
  "crl_url uc i = uc_scheme uc @ ''://'' @ public_host uc @ ''/public/crl/'' @ show_nat i @ ''.crl''"

definition issuance_urls :: "url_config \<Rightarrow> nat \<Rightarrow> string option \<Rightarrow> unit + string \<times> string" where
  "issuance_urls uc i crl_dp =
     (let aia = ocsp_url uc i; given = strip_str (case crl_dp of None \<Rightarrow> [] | Some s \<Rightarrow> s);
          cdp = (if given = [] then crl_url uc i else given)
      in require (embeddable uc aia) () (require (embeddable uc cdp) () (Inr (aia, cdp))))"

end
