(* ===== verification/Acme.thy ===== *)
theory Acme
  imports Acme_Jws PublicUrl Issuance Authority Revocation
begin

text \<open>
  The ACME server: \<open>app/services/acme/service.py\<close>, \<open>validation.py\<close>, \<open>dns01.py\<close>,
  \<open>app/models/acme.py\<close> and \<open>app/routes/acme.py\<close>. A JSON column holds the value it
  decodes to, the error column of an order or a challenge the type of the problem.
\<close>

section \<open>Rows\<close>

record eab_row =
  ek_id :: nat
  ek_ca :: nat
  ek_kid :: string
  ek_mac :: string
  ek_name :: "string option"
  ek_created_by :: "nat option"
  ek_used_at :: "time option"
  ek_revoked :: bool

record acme_account =
  aa_id :: nat
  aa_ca :: nat
  aa_jwk :: json
  aa_thumbprint :: string
  aa_status :: string
  aa_contact :: "string list"
  aa_eab :: "nat option"
  aa_seen :: "time option"

record acme_order =
  ao_id :: nat
  ao_account :: nat
  ao_ca :: nat
  ao_status :: string
  ao_identifiers :: "string list"
  ao_expires :: time
  ao_csr :: "csr_req option"
  ao_certificate :: "nat option"
  ao_error :: "string option"
  ao_finalized :: "time option"

record acme_authz =
  az_id :: nat
  az_order :: nat
  az_account :: nat
  az_ca :: nat
  az_value :: string
  az_wildcard :: bool
  az_status :: string
  az_expires :: time

record acme_challenge =
  ch_id :: nat
  ch_authz :: nat
  ch_type :: string
  ch_token :: string
  ch_status :: string
  ch_validated :: "time option"
  ch_error :: "string option"
  ch_attempts :: int
  ch_next :: "time option"

definition display_identifier :: "acme_authz \<Rightarrow> string" where
  "display_identifier az = (if az_wildcard az then ''*.'' else []) @ az_value az"

record acme =
  ac_pki :: pki
  ac_nonces :: "(string \<times> time) list"
  ac_eabs :: "eab_row list"
  ac_accounts :: "acme_account list"
  ac_orders :: "acme_order list"
  ac_authzs :: "acme_authz list"
  ac_challs :: "acme_challenge list"

text \<open>
  What a validation meets on the network: the answers to HTTP requests (status,
  number of bytes read and the text they decode to; an HTTP error with its
  \<open>Location\<close>; no connection; an exception the code does not catch), the result of
  \<open>urljoin\<close> (None when it raises), which hosts the outbound policy lets through
  (the flag allows loopback), the configured resolvers (None when one does not
  resolve) and the TXT records each of them returns (None when the query fails).
\<close>

datatype http_reply = Http_text nat nat string | Http_error nat "string option" | Unreachable | Raises

record network =
  nw_get :: "string \<Rightarrow> http_reply"
  nw_join :: "string \<Rightarrow> string \<Rightarrow> string option"
  nw_allowed :: "bool \<Rightarrow> string \<Rightarrow> bool"
  nw_servers :: "string list option"
  nw_txt :: "string \<Rightarrow> string \<Rightarrow> string list option"

record acme_env =
  ae_env :: env
  ae_jose :: jose
  ae_net :: network
  ae_enabled :: bool
  ae_base :: string
  ae_urls :: url_config
  ae_nonce_minutes :: int
  ae_order_hours :: int
  ae_max_identifiers :: nat
  ae_types :: "string list"
  ae_dns_max :: int
  ae_dns_retry :: int
  ae_http_port :: nat
  ae_connect_host :: "string option"
  ae_allow_loopback :: bool
  ae_validity_days :: int
  ae_random :: "nat \<Rightarrow> string"
  ae_nonce :: string
  ae_load_csr :: "string \<Rightarrow> csr_req option"
  ae_load_cert :: "string \<Rightarrow> tbs option"

abbreviation ae_now :: "acme_env \<Rightarrow> time" where
  "ae_now ae \<equiv> e_now (ae_env ae)"

definition acme_log :: "acme_env \<Rightarrow> string \<Rightarrow> string \<Rightarrow> nat \<Rightarrow> json \<Rightarrow> acme \<Rightarrow> acme" where
  "acme_log ae action tt i details st =
     st\<lparr>ac_pki := (ac_pki st)\<lparr>p_log := log_action \<lparr>rq_user = None, rq_addr = None, rq_now = ae_now ae\<rparr> (Some ''acme'') action
          (Some tt) (Some i) (Some details) (p_log (ac_pki st))\<rparr>\<rparr>"

definition put_account :: "acme_account \<Rightarrow> acme \<Rightarrow> acme" where
  "put_account a st = st\<lparr>ac_accounts := put_row aa_id a (ac_accounts st)\<rparr>"

definition put_order :: "acme_order \<Rightarrow> acme \<Rightarrow> acme" where
  "put_order r st = st\<lparr>ac_orders := put_row ao_id r (ac_orders st)\<rparr>"

definition put_authz :: "acme_authz \<Rightarrow> acme \<Rightarrow> acme" where
  "put_authz a st = st\<lparr>ac_authzs := put_row az_id a (ac_authzs st)\<rparr>"

definition put_chall :: "acme_challenge \<Rightarrow> acme \<Rightarrow> acme" where
  "put_chall c st = st\<lparr>ac_challs := put_row ch_id c (ac_challs st)\<rparr>"

definition get_account :: "nat \<Rightarrow> acme \<Rightarrow> acme_account option" where
  "get_account i st = get_row aa_id i (ac_accounts st)"

definition get_order :: "nat \<Rightarrow> acme \<Rightarrow> acme_order option" where
  "get_order i st = get_row ao_id i (ac_orders st)"

definition get_authz :: "nat \<Rightarrow> acme \<Rightarrow> acme_authz option" where
  "get_authz i st = get_row az_id i (ac_authzs st)"

definition get_chall :: "nat \<Rightarrow> acme \<Rightarrow> acme_challenge option" where
  "get_chall i st = get_row ch_id i (ac_challs st)"

definition authzs_of :: "nat \<Rightarrow> acme \<Rightarrow> acme_authz list" where
  "authzs_of i st = filter (\<lambda>a. az_order a = i) (ac_authzs st)"

definition challs_of :: "nat \<Rightarrow> acme \<Rightarrow> acme_challenge list" where
  "challs_of i st = filter (\<lambda>c. ch_authz c = i) (ac_challs st)"

section \<open>Nonces\<close>

definition issue_nonce :: "acme_env \<Rightarrow> acme \<Rightarrow> acme" where
  "issue_nonce ae st =
     (if ae_nonce ae \<in> fst ` set (ac_nonces st) then st else st\<lparr>ac_nonces := ac_nonces st @ [(ae_nonce ae, ae_now ae)]\<rparr>)"

definition consume_nonce :: "acme_env \<Rightarrow> json option \<Rightarrow> acme \<Rightarrow> acme \<times> bool" where
  "consume_nonce ae v st =
     (case v of
        Some (JStr n) \<Rightarrow>
          if 64 < length n then (st, False)
          else (case map_of (ac_nonces st) n of
                  None \<Rightarrow> (st, False)
                | Some t \<Rightarrow> (st\<lparr>ac_nonces := filter (\<lambda>x. fst x \<noteq> n) (ac_nonces st)\<rparr>, ae_now ae - minutes (ae_nonce_minutes ae) \<le> t))
      | _ \<Rightarrow> (st, False))"

section \<open>Accounts\<close>

definition account_prefix :: "acme_env \<Rightarrow> nat \<Rightarrow> string" where
  "account_prefix ae i = ae_base ae @ ''/acme/'' @ show_nat i @ ''/account/''"

definition account_url :: "acme_env \<Rightarrow> nat \<Rightarrow> nat \<Rightarrow> string" where
  "account_url ae i a = account_prefix ae i @ show_nat a"

definition account_for_kid :: "acme_env \<Rightarrow> acme \<Rightarrow> ca_row \<Rightarrow> string \<Rightarrow> acme_problem + acme_account" where
  "account_for_kid ae st ca kid =
     (let pre = account_prefix ae (ca_id ca); ds = drop (length pre) kid
      in require (startswith kid pre \<and> ds \<noteq> [] \<and> list_all is_digit ds) (problem ''accountDoesNotExist'')
        (case get_account (read_nat ds) st of
           None \<Rightarrow> Inl (problem ''accountDoesNotExist'')
         | Some a \<Rightarrow>
             require (aa_ca a = ca_id ca \<and> kid = account_url ae (ca_id ca) (aa_id a)) (problem ''accountDoesNotExist'')
               (require (aa_status a = ''valid'') (problem ''unauthorized'') (Inr a))))"

fun contact_strings :: "json list \<Rightarrow> string list option" where
  "contact_strings [] = Some []"
| "contact_strings (JStr s # js) = map_option ((#) s) (contact_strings js)"
| "contact_strings (j # js) = None"

definition contact_ok :: "string \<Rightarrow> bool" where
  "contact_ok c \<longleftrightarrow> startswith c ''mailto:'' \<and> CHR ''@'' \<in> set c \<and> length c \<le> 254"

definition validate_contacts :: "json option \<Rightarrow> acme_problem + string list" where
  "validate_contacts contact =
     (case contact of
        None \<Rightarrow> Inr []
      | Some JNull \<Rightarrow> Inr []
      | Some (JArr js) \<Rightarrow>
          (case contact_strings js of
             None \<Rightarrow> Inl malformed
           | Some cs \<Rightarrow> require (list_all contact_ok cs) (problem ''unsupportedContact'') (Inr cs))
      | Some _ \<Rightarrow> Inl malformed)"

definition jtruthy :: "json option \<Rightarrow> bool" where
  "jtruthy j \<longleftrightarrow> (case j of
      None \<Rightarrow> False
    | Some JNull \<Rightarrow> False
    | Some (JBool b) \<Rightarrow> b
    | Some (JInt i) \<Rightarrow> i \<noteq> 0
    | Some (JStr s) \<Rightarrow> s \<noteq> []
    | Some (JArr xs) \<Rightarrow> xs \<noteq> []
    | Some (JObj kvs) \<Rightarrow> kvs \<noteq> [])"

definition eab_kid :: "json \<Rightarrow> acme_problem + string" where
  "eab_kid eab =
     (case jget ''protected'' eab of
        None \<Rightarrow> Inl malformed
      | Some p \<Rightarrow>
          and_then (caught malformed (b64url_decode p)) (\<lambda>raw.
            case loads_bytes raw of
              None \<Rightarrow> Inl malformed
            | Some h \<Rightarrow>
                require (is_obj h) crash
                (case jget ''kid'' h of Some (JStr k) \<Rightarrow> require (k \<noteq> []) malformed (Inr k) | _ \<Rightarrow> Inl malformed)))"

text \<open>The binding of a new account: the row of its key, None where the CA asks for none.\<close>

definition check_eab :: "acme_env \<Rightarrow> ca_row \<Rightarrow> json \<Rightarrow> json option \<Rightarrow> acme \<Rightarrow> acme_problem + eab_row option" where
  "check_eab ae ca jwk eab st =
     (case eab of
        Some j \<Rightarrow>
          and_then (eab_kid j) (\<lambda>kid.
            case first_row (\<lambda>r. ek_kid r = kid) (ac_eabs st) of
              None \<Rightarrow> Inl (problem ''unauthorized'')
            | Some r \<Rightarrow>
                require (ek_ca r = ca_id ca \<and> \<not> ek_revoked r) (problem ''unauthorized'')
                (require (ek_used_at r = None) (problem ''unauthorized'')
                (and_then (caught crash (b64url_decode (JStr (ek_mac r)))) (\<lambda>mac.
                 and_then (verify_eab (ae_jose ae) j mac (ae_base ae @ ''/acme/'' @ show_nat (ca_id ca) @ ''/new-account'') jwk)
                   (\<lambda>_. Inr (Some r))))))
      | None \<Rightarrow> require (\<not> ca_acme_require_eab ca) (problem ''externalAccountRequired'') (Inr None))"

definition fresh_account :: "acme_env \<Rightarrow> ca_row \<Rightarrow> json \<Rightarrow> string \<Rightarrow> string list \<Rightarrow> eab_row option \<Rightarrow> acme \<Rightarrow> acme_account" where
  "fresh_account ae ca jwk tp contact eab st =
     \<lparr>aa_id = fresh_id aa_id (ac_accounts st), aa_ca = ca_id ca, aa_jwk = sort_json (jnormal jwk), aa_thumbprint = tp,
      aa_status = ''valid'', aa_contact = contact, aa_eab = map_option ek_id eab, aa_seen = Some (ae_now ae)\<rparr>"

definition use_eab :: "time \<Rightarrow> eab_row option \<Rightarrow> acme \<Rightarrow> acme" where
  "use_eab now eab st =
     (case eab of None \<Rightarrow> st | Some r \<Rightarrow> st\<lparr>ac_eabs := put_row ek_id (r\<lparr>ek_used_at := Some now\<rparr>) (ac_eabs st)\<rparr>)"

definition j_strs :: "string list \<Rightarrow> json" where
  "j_strs ss = JArr (map JStr ss)"

definition new_account :: "acme_env \<Rightarrow> ca_row \<Rightarrow> 'a verified \<Rightarrow> acme \<Rightarrow> acme \<times> (acme_problem + nat \<times> bool)" where
  "new_account ae ca v st =
     (let payload = (case vf_payload v of None \<Rightarrow> JObj [] | Some j \<Rightarrow> j)
      in case thumbprint (ae_jose ae) (vf_jwk v) of
           Inl x \<Rightarrow> (st, Inl x)
         | Inr tp \<Rightarrow>
             (case first_row (\<lambda>a. aa_ca a = ca_id ca \<and> aa_thumbprint a = tp) (ac_accounts st) of
                Some a \<Rightarrow>
                  if aa_status a \<noteq> ''valid'' then (st, Inl (problem ''unauthorized''))
                  else (put_account (a\<lparr>aa_seen := Some (ae_now ae)\<rparr>) st, Inr (aa_id a, False))
              | None \<Rightarrow>
                  if jtruthy (jget ''onlyReturnExisting'' payload) then (st, Inl (problem ''accountDoesNotExist''))
                  else (case and_then (validate_contacts (jget ''contact'' payload)) (\<lambda>cs.
                               and_then (check_eab ae ca (vf_jwk v) (jget_some ''externalAccountBinding'' payload) st) (\<lambda>r. Inr (cs, r))) of
                          Inl x \<Rightarrow> (st, Inl x)
                        | Inr (cs, r) \<Rightarrow>
                            let a = fresh_account ae ca (vf_jwk v) tp cs r st
                            in (acme_log ae ''acme_account_created'' ''acme_account'' (aa_id a)
                                  (JObj [(''ca_id'', JInt (int (ca_id ca))), (''contact'', j_strs cs),
                                     (''eab_kid'', j_opt_str (map_option ek_kid r)), (''thumbprint'', JStr tp)])
                                  (use_eab (ae_now ae) r (st\<lparr>ac_accounts := ac_accounts st @ [a]\<rparr>)), Inr (aa_id a, True)))))"

definition deactivate_orders :: "nat \<Rightarrow> acme \<Rightarrow> acme" where
  "deactivate_orders i st =
     st\<lparr>ac_orders := map (\<lambda>r. if ao_account r = i \<and> ao_status r \<in> {''pending'', ''ready'', ''processing''}
          then r\<lparr>ao_status := ''invalid'', ao_error := Some ''unauthorized''\<rparr> else r) (ac_orders st)\<rparr>"

definition update_account :: "acme_env \<Rightarrow> ca_row \<Rightarrow> acme_account \<Rightarrow> json \<Rightarrow> acme \<Rightarrow> acme \<times> (acme_problem + nat)" where
  "update_account ae ca a payload st =
     (if jget ''status'' payload = Some (JStr ''deactivated'') then
        (acme_log ae ''acme_account_deactivated'' ''acme_account'' (aa_id a) (JObj [(''ca_id'', JInt (int (ca_id ca)))])
           (deactivate_orders (aa_id a) (put_account (a\<lparr>aa_status := ''deactivated''\<rparr>) st)), Inr (aa_id a))
      else (case jget ''contact'' payload of
              None \<Rightarrow> (put_account (a\<lparr>aa_seen := Some (ae_now ae)\<rparr>) st, Inr (aa_id a))
            | Some c \<Rightarrow>
                (case validate_contacts (Some c) of
                   Inl x \<Rightarrow> (st, Inl x)
                 | Inr cs \<Rightarrow> (put_account (a\<lparr>aa_contact := cs, aa_seen := Some (ae_now ae)\<rparr>) st, Inr (aa_id a)))))"

definition change_key_checks :: "acme_env \<Rightarrow> ca_row \<Rightarrow> acme_account \<Rightarrow> json \<Rightarrow> string \<Rightarrow> acme \<Rightarrow> acme_problem + json \<times> string" where
  "change_key_checks ae ca a inner_body url st =
     and_then (jws_verify (ae_jose ae) inner_body url (\<lambda>_. Inl malformed :: acme_problem + acme_account) aa_jwk True False False) (\<lambda>v.
     case vf_payload v of
       None \<Rightarrow> Inl malformed
     | Some payload \<Rightarrow>
         require (jget ''account'' payload = Some (JStr (account_url ae (ca_id ca) (aa_id a)))) malformed
         (require (case jget ''oldKey'' payload of None \<Rightarrow> False | Some k \<Rightarrow> json_equal k (aa_jwk a)) malformed
         (and_then (thumbprint (ae_jose ae) (vf_jwk v)) (\<lambda>tp.
            require (case first_row (\<lambda>b. aa_ca b = ca_id ca \<and> aa_thumbprint b = tp) (ac_accounts st) of
                       None \<Rightarrow> True | Some b \<Rightarrow> aa_id b = aa_id a) (Problem ''malformed'' 409)
              (Inr (vf_jwk v, tp))))))"

definition change_key :: "acme_env \<Rightarrow> ca_row \<Rightarrow> acme_account \<Rightarrow> json \<Rightarrow> string \<Rightarrow> acme \<Rightarrow> acme \<times> (acme_problem + nat)" where
  "change_key ae ca a inner_body url st =
     (case change_key_checks ae ca a inner_body url st of
        Inl x \<Rightarrow> (st, Inl x)
      | Inr (jwk, tp) \<Rightarrow>
          (acme_log ae ''acme_key_changed'' ''acme_account'' (aa_id a)
             (JObj [(''ca_id'', JInt (int (ca_id ca))), (''thumbprint'', JStr tp)])
             (put_account (a\<lparr>aa_jwk := sort_json (jnormal jwk), aa_thumbprint := tp\<rparr>) st), Inr (aa_id a)))"

end
