(* ===== verification/Acme_Orders.thy ===== *)
theory Acme_Orders
  imports Acme
begin

text \<open>
  Orders, authorizations and challenges of the ACME server, the validation of
  control over a name, issuance, revocation and maintenance
  (\<open>app/services/acme/service.py\<close>, \<open>validation.py\<close>, \<open>dns01.py\<close>).
\<close>

section \<open>Identifiers\<close>

text \<open>The pattern \<open>_HOSTNAME\<close>; its \<open>$\<close> also matches before a final newline.\<close>

definition dns_char :: "char \<Rightarrow> bool" where
  "dns_char c \<longleftrightarrow> is_lower c \<or> is_digit c \<or> c = CHR ''-''"

definition dns_label :: "string \<Rightarrow> bool" where
  "dns_label l \<longleftrightarrow> l \<noteq> [] \<and> length l \<le> 63 \<and> list_all dns_char l \<and> List.last l \<noteq> CHR ''-''"

definition chomp :: "string \<Rightarrow> string" where
  "chomp s = (if s \<noteq> [] \<and> List.last s = CHR 0x0A then butlast s else s)"

definition is_dns_name :: "string \<Rightarrow> bool" where
  "is_dns_name s \<longleftrightarrow>
     (let h = chomp s in h \<noteq> [] \<and> length h \<le> 253 \<and> hd h \<noteq> CHR ''-'' \<and> list_all dns_label (split_at (CHR ''.'') h))"

definition is_dotted_quad :: "string \<Rightarrow> bool" where
  "is_dotted_quad s \<longleftrightarrow>
     (let ls = split_at (CHR ''.'') (chomp s) in length ls = 4 \<and> list_all (\<lambda>l. l \<noteq> [] \<and> list_all is_digit l) ls)"

definition parse_identifier :: "acme_env \<Rightarrow> ca_row \<Rightarrow> json \<Rightarrow> acme_problem + string" where
  "parse_identifier ae ca item =
     require (is_obj item) malformed
     (require (jget ''type'' item = Some (JStr ''dns'')) (problem ''unsupportedIdentifier'')
     (case jget ''value'' item of
        Some (JStr v) \<Rightarrow>
          let name = rstrip_dots (lower_str (strip_str v)); wild = startswith name ''*.''; base = (if wild then drop 2 name else name)
          in require (wild \<longrightarrow> ca_acme_wildcards ca) (problem ''rejectedIdentifier'')
            (require (wild \<longrightarrow> ''dns-01'' \<in> set (ae_types ae)) (problem ''rejectedIdentifier'')
            (require (CHR ''*'' \<notin> set base \<and> is_dns_name base \<and> \<not> is_dotted_quad base) (problem ''rejectedIdentifier'') (Inr name)))
      | _ \<Rightarrow> Inl malformed))"

fun parse_items_loop :: "acme_env \<Rightarrow> ca_row \<Rightarrow> json list \<Rightarrow> string list \<Rightarrow> acme_problem + string list" where
  "parse_items_loop ae ca [] acc = Inr acc"
| "parse_items_loop ae ca (j # js) acc =
     and_then (parse_identifier ae ca j) (\<lambda>name. parse_items_loop ae ca js (if name \<in> set acc then acc else acc @ [name]))"

definition parse_identifiers :: "acme_env \<Rightarrow> ca_row \<Rightarrow> json option \<Rightarrow> acme \<Rightarrow> acme_problem + string list" where
  "parse_identifiers ae ca raw st =
     (case raw of
        Some (JArr js) \<Rightarrow>
          require (js \<noteq> []) malformed
          (and_then (parse_items_loop ae ca js []) (\<lambda>names.
             case enforce_names (ac_pki st) ca None (map (\<lambda>n. ''DNS:'' @ n) names) of
               Inl _ \<Rightarrow> Inl (problem ''rejectedIdentifier'')
             | Inr _ \<Rightarrow> require (length names \<le> ae_max_identifiers ae) (problem ''rejectedIdentifier'') (Inr names)))
      | _ \<Rightarrow> Inl malformed)"

section \<open>Orders\<close>

definition new_challs :: "acme_env \<Rightarrow> acme_authz \<Rightarrow> string list \<Rightarrow> acme_challenge list \<Rightarrow> acme_challenge list" where
  "new_challs ae az types cs =
     fold (\<lambda>t cs. cs @ [\<lparr>ch_id = fresh_id ch_id cs, ch_authz = az_id az, ch_type = t,
        ch_token = b64url_encode (ae_random ae (fresh_id ch_id cs)), ch_status = ''pending'', ch_validated = None, ch_error = None,
        ch_attempts = 0, ch_next = None\<rparr>]) types cs"

definition new_authz :: "acme_env \<Rightarrow> acme_order \<Rightarrow> string \<Rightarrow> acme \<Rightarrow> acme" where
  "new_authz ae r name st =
     (let wild = startswith name ''*.'';
          az = \<lparr>az_id = fresh_id az_id (ac_authzs st), az_order = ao_id r, az_account = ao_account r, az_ca = ao_ca r,
            az_value = (if wild then drop 2 name else name), az_wildcard = wild, az_status = ''pending'', az_expires = ao_expires r\<rparr>
      in st\<lparr>ac_authzs := ac_authzs st @ [az],
            ac_challs := new_challs ae az (if wild then [''dns-01''] else ae_types ae) (ac_challs st)\<rparr>)"

definition new_order :: "acme_env \<Rightarrow> ca_row \<Rightarrow> acme_account \<Rightarrow> json option \<Rightarrow> acme \<Rightarrow> acme \<times> (acme_problem + nat)" where
  "new_order ae ca a payload st =
     (case parse_identifiers ae ca (case payload of None \<Rightarrow> None | Some j \<Rightarrow> jget ''identifiers'' j) st of
        Inl x \<Rightarrow> (st, Inl x)
      | Inr names \<Rightarrow>
          let r = \<lparr>ao_id = fresh_id ao_id (ac_orders st), ao_account = aa_id a, ao_ca = ca_id ca, ao_status = ''pending'',
                ao_identifiers = names, ao_expires = ae_now ae + hours (ae_order_hours ae), ao_csr = None, ao_certificate = None,
                ao_error = None, ao_finalized = None\<rparr>;
              st1 = fold (new_authz ae r) names (st\<lparr>ac_orders := ac_orders st @ [r]\<rparr>)
          in (acme_log ae ''acme_order_created'' ''acme_order'' (ao_id r)
                (JObj [(''ca_id'', JInt (int (ca_id ca))), (''account_id'', JInt (int (aa_id a))), (''identifiers'', j_strs names)])
                (put_account (a\<lparr>aa_seen := Some (ae_now ae)\<rparr>) st1), Inr (ao_id r)))"

text \<open>\<open>_refresh_authz\<close> without an attempt: a pending authorization past its time expires.\<close>

definition aged_authz :: "time \<Rightarrow> acme_authz \<Rightarrow> acme_authz" where
  "aged_authz now az = (if az_status az = ''pending'' \<and> az_expires az \<le> now then az\<lparr>az_status := ''expired''\<rparr> else az)"

definition refresh_authz :: "time \<Rightarrow> nat \<Rightarrow> acme \<Rightarrow> acme" where
  "refresh_authz now i st = (case get_authz i st of None \<Rightarrow> st | Some az \<Rightarrow> put_authz (aged_authz now az) st)"

definition or_error :: "string option \<Rightarrow> string \<Rightarrow> string option" where
  "or_error old t = (case old of None \<Rightarrow> Some t | Some e \<Rightarrow> Some e)"

definition age_authzs_of :: "time \<Rightarrow> nat \<Rightarrow> acme \<Rightarrow> acme" where
  "age_authzs_of now i st = st\<lparr>ac_authzs := map (\<lambda>az. if az_order az = i then aged_authz now az else az) (ac_authzs st)\<rparr>"

definition order_after :: "string list \<Rightarrow> acme_order \<Rightarrow> acme_order" where
  "order_after statuses r =
     (if list_ex (\<lambda>s. s \<in> {''invalid'', ''expired'', ''deactivated''}) statuses
      then r\<lparr>ao_status := ''invalid'', ao_error := or_error (ao_error r) ''unauthorized''\<rparr>
      else if statuses \<noteq> [] \<and> list_all (\<lambda>s. s = ''valid'') statuses \<and> ao_status r = ''pending''
      then r\<lparr>ao_status := ''ready''\<rparr> else r)"

definition refresh_order :: "time \<Rightarrow> nat \<Rightarrow> acme \<Rightarrow> acme" where
  "refresh_order now i st =
     (case get_order i st of
        None \<Rightarrow> st
      | Some r \<Rightarrow>
          if ao_status r \<in> {''valid'', ''invalid''} then st
          else if ao_expires r \<le> now then put_order (r\<lparr>ao_status := ''invalid'', ao_error := or_error (ao_error r) ''malformed''\<rparr>) st
          else let st1 = age_authzs_of now i st
               in put_order (order_after (map az_status (authzs_of i st1)) r) st1)"

section \<open>Validation of control\<close>

definition url_scheme :: "string \<Rightarrow> string" where
  "url_scheme s0 =
     (let s = filter (\<lambda>c. c \<notin> {CHR 0x09, CHR 0x0A, CHR 0x0D}) (lstrip_by (\<lambda>c. char_code c \<le> 32) s0)
      in if url_rest s = s then [] else lower_str (takeWhile (\<lambda>c. c \<noteq> CHR '':'') s))"

definition challenge_url :: "nat \<Rightarrow> string \<Rightarrow> string \<Rightarrow> string" where
  "challenge_url port host token =
     ''http://'' @ (if port = 80 then host else host @ CHR '':'' # show_nat port) @ ''/.well-known/acme-challenge/'' @ token"

text \<open>
  One hop per unit of fuel; \<open>fetch_http01\<close> gives the six of
  \<open>range(MAX_REDIRECTS + 1)\<close>. \<open>Inl\<close> is an exception that is not caught, \<open>Inr None\<close>
  success, \<open>Inr (Some t)\<close> a failure of type \<open>t\<close>. \<open>lax\<close> is the flag of the first hop.
\<close>

fun fetch_loop :: "acme_env \<Rightarrow> string \<Rightarrow> nat \<Rightarrow> bool \<Rightarrow> string \<Rightarrow> acme_problem + string option" where
  "fetch_loop ae expected 0 lax url = Inr (Some ''connection'')"
| "fetch_loop ae expected (Suc n) lax url =
     (case url_hostname url of
        Inl _ \<Rightarrow> Inl crash
      | Inr host \<Rightarrow>
          if url_scheme url \<notin> {''http'', ''https''} then Inr (Some ''connection'')
          else if \<not> nw_allowed (ae_net ae) (ae_allow_loopback ae \<or> lax) host then Inr (Some ''connection'')
          else (case nw_get (ae_net ae) url of
              Http_error code loc \<Rightarrow>
                (case loc of
                   Some l \<Rightarrow>
                     if code \<in> {301, 302, 303, 307, 308} \<and> l \<noteq> [] then
                       (case nw_join (ae_net ae) url l of None \<Rightarrow> Inl crash | Some u \<Rightarrow> fetch_loop ae expected n False u)
                     else Inr (Some ''incorrectResponse'')
                 | None \<Rightarrow> Inr (Some ''incorrectResponse''))
            | Unreachable \<Rightarrow> Inr (Some ''connection'')
            | Raises \<Rightarrow> Inl crash
            | Http_text status bytes text \<Rightarrow>
                Inr (if status \<noteq> 200 \<or> 4096 < bytes \<or> strip_str text \<noteq> expected then Some ''incorrectResponse'' else None)))"

definition fetch_http01 :: "acme_env \<Rightarrow> string \<Rightarrow> string \<Rightarrow> string \<Rightarrow> acme_problem + string option" where
  "fetch_http01 ae host token expected =
     fetch_loop ae expected 6 (ae_connect_host ae \<noteq> None)
       (challenge_url (ae_http_port ae) (case ae_connect_host ae of None \<Rightarrow> host | Some h \<Rightarrow> h) token)"

definition txt_name :: "string \<Rightarrow> string" where
  "txt_name identifier = ''_acme-challenge.'' @ (if startswith identifier ''*.'' then drop 2 identifier else identifier)"

definition txt_value :: "jose \<Rightarrow> string \<Rightarrow> string" where
  "txt_value jo key_auth = b64url_encode (jo_sha256 jo key_auth)"

text \<open>The loop over the servers: whether one of them misses the record, and whether it has others.\<close>

fun dns01_loop :: "(string \<Rightarrow> string list option) \<Rightarrow> string \<Rightarrow> bool \<Rightarrow> bool \<Rightarrow> string list \<Rightarrow> string option" where
  "dns01_loop look expected missing others [] =
     (if \<not> missing then None else if others then Some ''incorrectResponse'' else Some ''dns'')"
| "dns01_loop look expected missing others (s # ss) =
     (case look s of
        None \<Rightarrow> Some ''dns''
      | Some values \<Rightarrow>
          if expected \<in> set values then dns01_loop look expected missing others ss
          else dns01_loop look expected True (others \<or> values \<noteq> []) ss)"

text \<open>Without configured resolvers the system resolver is asked; its label is empty.\<close>

definition dns01_validate :: "acme_env \<Rightarrow> string \<Rightarrow> string \<Rightarrow> string option" where
  "dns01_validate ae identifier expected =
     (case nw_servers (ae_net ae) of
        None \<Rightarrow> Some ''dns''
      | Some ss \<Rightarrow> dns01_loop (\<lambda>s. nw_txt (ae_net ae) s (txt_name identifier)) expected False False (if ss = [] then [[]] else ss))"

section \<open>Challenges\<close>

definition settle_details :: "acme_authz \<Rightarrow> acme_challenge \<Rightarrow> json" where
  "settle_details az c =
     JObj [(''ca_id'', JInt (int (az_ca az))), (''account_id'', JInt (int (az_account az))),
       (''identifier'', JStr (display_identifier az)), (''type'', JStr (ch_type c))]"

text \<open>\<open>_settle\<close>, with the type of the error where the validation failed; its audit row without the attempt count and error text.\<close>

definition settle :: "acme_env \<Rightarrow> acme_authz \<Rightarrow> acme_challenge \<Rightarrow> string option \<Rightarrow> acme \<Rightarrow> acme" where
  "settle ae az c err st =
     (case err of
        None \<Rightarrow>
          acme_log ae ''acme_challenge_validated'' ''acme_order'' (az_order az) (settle_details az c)
            (put_authz (az\<lparr>az_status := ''valid''\<rparr>)
              (put_chall (c\<lparr>ch_status := ''valid'', ch_validated := Some (ae_now ae), ch_error := None\<rparr>) st))
      | Some t \<Rightarrow>
          acme_log ae ''acme_challenge_failed'' ''acme_order'' (az_order az) (settle_details az c)
            (put_authz (az\<lparr>az_status := ''invalid''\<rparr>) (put_chall (c\<lparr>ch_status := ''invalid'', ch_error := Some t\<rparr>) st)))"

text \<open>
  \<open>_attempt_dns01\<close>: \<open>c\<close> is the challenge with its status already \<open>processing\<close>; a
  failure of \<open>key_authorization\<close> is not caught.
\<close>

definition attempt_dns01 :: "acme_env \<Rightarrow> json \<Rightarrow> acme_authz \<Rightarrow> acme_challenge \<Rightarrow> acme \<Rightarrow> acme \<times> (acme_problem + unit)" where
  "attempt_dns01 ae jwk az c st =
     (case key_authorization (ae_jose ae) (ch_token c) jwk of
        Inl x \<Rightarrow> (st, Inl x)
      | Inr ka \<Rightarrow>
          let err = dns01_validate ae (az_value az) (txt_value (ae_jose ae) ka);
              c1 = c\<lparr>ch_attempts := ch_attempts c + 1\<rparr>;
              lim = max 1 (ae_dns_max ae); retry = max 1 (ae_dns_retry ae)
          in case err of
               None \<Rightarrow> (settle ae az (c1\<lparr>ch_next := None\<rparr>) None st, Inr ())
             | Some t \<Rightarrow>
                 if ch_attempts c1 < lim \<and> ae_now ae + seconds retry < az_expires az
                 then (put_chall (c1\<lparr>ch_next := Some (ae_now ae + seconds retry), ch_error := Some t\<rparr>) st, Inr ())
                 else (settle ae az (c1\<lparr>ch_next := None\<rparr>) (Some t) st, Inr ()))"

text \<open>The challenge a poll runs: the first dns-01 lookup that is due.\<close>

definition due_chall :: "time \<Rightarrow> nat \<Rightarrow> acme \<Rightarrow> acme_challenge option" where
  "due_chall now i st =
     first_row (\<lambda>c. ch_type c = ''dns-01'' \<and> ch_status c = ''processing'' \<and>
        (case ch_next c of None \<Rightarrow> False | Some t \<Rightarrow> t \<le> now)) (challs_of i st)"

text \<open>\<open>_refresh_authz\<close> with \<open>attempt=True\<close>.\<close>

definition poll_authz :: "acme_env \<Rightarrow> nat \<Rightarrow> acme \<Rightarrow> acme \<times> (acme_problem + unit)" where
  "poll_authz ae i st =
     (case get_authz i st of
        None \<Rightarrow> (st, Inr ())
      | Some az \<Rightarrow>
          if az_status az = ''pending'' \<and> az_expires az \<le> ae_now ae then (put_authz (az\<lparr>az_status := ''expired''\<rparr>) st, Inr ())
          else if az_status az = ''pending'' then
            (case (due_chall (ae_now ae) i st, get_account (az_account az) st) of
               (Some c, Some a) \<Rightarrow>
                 (case attempt_dns01 ae (aa_jwk a) az c st of
                    (st1, Inl x) \<Rightarrow> (st1, Inl x)
                  | (st1, Inr _) \<Rightarrow> (refresh_order (ae_now ae) (az_order az) st1, Inr ()))
             | _ \<Rightarrow> (st, Inr ()))
          else (st, Inr ()))"

definition respond_challenge :: "acme_env \<Rightarrow> acme_account \<Rightarrow> nat \<Rightarrow> acme \<Rightarrow> acme \<times> (acme_problem + unit)" where
  "respond_challenge ae a i st0 =
     (case get_chall i st0 of
        None \<Rightarrow> (st0, Inr ())
      | Some c0 \<Rightarrow>
          let st = refresh_authz (ae_now ae) (ch_authz c0) st0
          in case get_authz (ch_authz c0) st of
               None \<Rightarrow> (st, Inr ())
             | Some az \<Rightarrow>
                 if ch_status c0 \<noteq> ''pending'' \<or> az_status az \<noteq> ''pending'' then (st, Inr ())
                 else (case get_order (az_order az) st of
                     None \<Rightarrow> (st, Inl crash)
                   | Some r \<Rightarrow>
                       if ao_expires r \<le> ae_now ae then (refresh_order (ae_now ae) (ao_id r) st, Inl malformed)
                       else
                         let c = c0\<lparr>ch_status := ''processing''\<rparr>;
                             res = (if ch_type c = ''dns-01'' then attempt_dns01 ae (aa_jwk a) az c st
                                else (case and_then (key_authorization (ae_jose ae) (ch_token c) (aa_jwk a))
                                            (fetch_http01 ae (az_value az) (ch_token c)) of
                                        Inl x \<Rightarrow> (st, Inl x)
                                      | Inr err \<Rightarrow> (settle ae az c err st, Inr ())))
                         in case res of
                              (st1, Inl x) \<Rightarrow> (st1, Inl x)
                            | (st1, Inr _) \<Rightarrow> (refresh_order (ae_now ae) (ao_id r) st1, Inr ())))"

definition deactivate_authz :: "acme_env \<Rightarrow> nat \<Rightarrow> acme \<Rightarrow> acme" where
  "deactivate_authz ae i st =
     (case get_authz i st of
        None \<Rightarrow> st
      | Some az \<Rightarrow>
          if az_status az = ''pending'' then refresh_order (ae_now ae) (az_order az) (put_authz (az\<lparr>az_status := ''deactivated''\<rparr>) st)
          else st)"

end
