(* ===== verification/Acme_Requests.thy ===== *)
theory Acme_Requests
  imports Acme_Orders
begin

text \<open>
  Issuance, revocation, external account bindings and maintenance of the ACME
  server (\<open>app/services/acme/service.py\<close>) and its requests
  (\<open>app/routes/acme.py\<close>): one request from the check of the CA to the nonce of
  the answer, with what is committed when it fails.
\<close>

section \<open>Issuance\<close>

definition acme_profile :: "pki \<Rightarrow> ca_row \<Rightarrow> acme_problem + profile" where
  "acme_profile p ca =
     (let own = (case ca_acme_profile ca of None \<Rightarrow> None | Some 0 \<Rightarrow> None | Some i \<Rightarrow> get_row pf_id i (p_profiles p));
          found = (case own of Some f \<Rightarrow> Some f | None \<Rightarrow> lookup_profile p (Some ''custom''))
      in case found of
           None \<Rightarrow> Inl crash
         | Some f \<Rightarrow> require (pf_enabled f) crash (Inr f))"

text \<open>The names a CSR asks for against those of the order; the result is its common name.\<close>

definition csr_dns :: "csr_req \<Rightarrow> string set" where
  "csr_dns csr = (\<lambda>n. rstrip_dots (lower_str (snd n))) ` {n \<in> set (rq_san csr). fst n = ''dns''}"

definition csr_cn :: "csr_req \<Rightarrow> string option" where
  "csr_cn csr = map_option (\<lambda>s. rstrip_dots (lower_str s)) (map_of (rq_subject csr) ''CN'')"

definition truthy_str :: "string option \<Rightarrow> bool" where
  "truthy_str s \<longleftrightarrow> s \<noteq> None \<and> s \<noteq> Some []"

definition check_csr :: "csr_req \<Rightarrow> string list \<Rightarrow> acme_problem + unit" where
  "check_csr csr wanted =
     (let cn = csr_cn csr; dns = csr_dns csr
      in require (rq_sig_ok csr) (problem ''badCSR'')
        (require (\<forall>n \<in> set (rq_san csr). fst n = ''dns'') (problem ''badCSR'')
        (require (truthy_str cn \<longrightarrow> the cn \<in> set wanted) (problem ''badCSR'')
        (require ((if dns = {} \<and> truthy_str cn then {the cn} else dns) = set wanted) (problem ''badCSR'') (Inr ())))))"

definition order_csr :: "acme_env \<Rightarrow> acme_order \<Rightarrow> json option \<Rightarrow> acme_problem + csr_req" where
  "order_csr ae r payload =
     (case (case payload of None \<Rightarrow> None | Some j \<Rightarrow> jget ''csr'' j) of
        Some (JStr s) \<Rightarrow>
          (case b64url_decode (JStr s) of
             Inl _ \<Rightarrow> Inl (problem ''badCSR'')
           | Inr der \<Rightarrow>
               (case ae_load_csr ae der of
                  None \<Rightarrow> Inl (problem ''badCSR'')
                | Some csr \<Rightarrow> and_then (check_csr csr (ao_identifiers r)) (\<lambda>_. Inr csr)))
      | _ \<Rightarrow> Inl (problem ''badCSR''))"

text \<open>\<open>cn or sorted(wanted)[0]\<close>.\<close>

definition sorted_strs :: "string list \<Rightarrow> string list" where
  "sorted_strs ss = sort_key (map char_code) ss"

definition issued_cn :: "csr_req \<Rightarrow> string list \<Rightarrow> string" where
  "issued_cn csr wanted = (if truthy_str (csr_cn csr) then the (csr_cn csr) else hd (sorted_strs wanted))"

definition acme_days :: "acme_env \<Rightarrow> profile \<Rightarrow> int" where
  "acme_days ae f =
     (case pf_max_validity f of None \<Rightarrow> ae_validity_days ae
      | Some m \<Rightarrow> if m \<noteq> 0 \<and> m < ae_validity_days ae then m else ae_validity_days ae)"

text \<open>
  From the import of the CSR to the certificate. A ValueError ends as \<open>badCSR\<close>
  with the order invalid; the error of a key that cannot sign is no ValueError.
\<close>

definition value_error :: "pki_error \<Rightarrow> bool" where
  "value_error x \<longleftrightarrow> x \<noteq> Signing_failed"

definition acme_request_for :: "acme_env \<Rightarrow> profile \<Rightarrow> string \<times> string \<Rightarrow> issue_request" where
  "acme_request_for ae f urls =
     \<lparr>ir_validity = Some (acme_days ae f), ir_san = [], ir_key_usage = None, ir_ext_key_usage = None,
      ir_ocsp = Some (fst urls), ir_crl_dp = Some (snd urls), ir_by = None\<rparr>"

definition acme_sign :: "acme_env \<Rightarrow> ca_row \<Rightarrow> profile \<Rightarrow> csr_req \<Rightarrow> string list \<Rightarrow> pki \<Rightarrow> pki \<times> (pki_error + nat)" where
  "acme_sign ae ca f csr wanted p =
     (case import_csr (ae_env ae) csr None (Some (pf_id f)) p of
        Inl x \<Rightarrow> (p, Inl x)
      | Inr (p1, i) \<Rightarrow>
          let p2 = p1\<lparr>p_csrs := map (\<lambda>c. if cs_id c = i then c\<lparr>cs_common_name := issued_cn csr wanted, cs_ca := Some (ca_id ca)\<rparr> else c)
                 (p_csrs p1)\<rparr>
          in case issuance_urls (ae_urls ae) (ca_id ca) None of
               Inl _ \<Rightarrow> (p2, Inl Loopback_url)
             | Inr urls \<Rightarrow> sign_csr (ae_env ae) (Some f) (acme_request_for ae f urls) ca i p2)"

definition mark_acme :: "nat \<Rightarrow> nat \<Rightarrow> pki \<Rightarrow> pki" where
  "mark_acme n a p =
     p\<lparr>p_certs := map (\<lambda>c. if ct_id c = n then c\<lparr>ct_source := Some ''acme'', ct_acme_account := Some a\<rparr> else c) (p_certs p)\<rparr>"

definition order_details :: "acme_order \<Rightarrow> (string \<times> json) list" where
  "order_details r = [(''ca_id'', JInt (int (ao_ca r))), (''account_id'', JInt (int (ao_account r)))]"

definition issued_details :: "acme_env \<Rightarrow> acme_order \<Rightarrow> csr_req \<Rightarrow> profile \<Rightarrow> json" where
  "issued_details ae r csr f =
     JObj (order_details r @ [(''order_id'', JInt (int (ao_id r))), (''common_name'', JStr (issued_cn csr (ao_identifiers r))),
       (''identifiers'', j_strs (sorted_strs (ao_identifiers r))), (''profile'', JStr (pf_key f)), (''validity_days'', JInt (acme_days ae f))])"

text \<open>The text of the error is left out of the audit row of a failure.\<close>

definition issue_order :: "acme_env \<Rightarrow> ca_row \<Rightarrow> acme_account \<Rightarrow> acme_order \<Rightarrow> csr_req \<Rightarrow> profile \<Rightarrow> acme \<Rightarrow> acme \<times> (acme_problem + nat)" where
  "issue_order ae ca a r0 csr f st0 =
     (let r = r0\<lparr>ao_status := ''processing'', ao_csr := Some csr\<rparr>; st = put_order r st0
      in case acme_sign ae ca f csr (ao_identifiers r) (ac_pki st) of
           (p, Inl x) \<Rightarrow>
             if value_error x then
               (acme_log ae ''acme_issuance_failed'' ''acme_order'' (ao_id r) (JObj (order_details r))
                  (put_order (r\<lparr>ao_status := ''invalid'', ao_error := Some ''badCSR''\<rparr>) (st\<lparr>ac_pki := p\<rparr>)), Inl (problem ''badCSR''))
             else (st\<lparr>ac_pki := p\<rparr>, Inl crash)
         | (p, Inr n) \<Rightarrow>
             (acme_log ae ''acme_certificate_issued'' ''certificate'' n (issued_details ae r csr f)
                (put_order (r\<lparr>ao_status := ''valid'', ao_certificate := Some n, ao_finalized := Some (ae_now ae)\<rparr>)
                  (st\<lparr>ac_pki := mark_acme n (aa_id a) p\<rparr>)), Inr (ao_id r)))"

text \<open>
  \<open>finalize\<close>. The first component of the result is the state of its last commit
  (None when it commits nothing), the second the state of the session.
\<close>

definition finalize :: "acme_env \<Rightarrow> ca_row \<Rightarrow> acme_account \<Rightarrow> nat \<Rightarrow> json option \<Rightarrow> acme
    \<Rightarrow> acme option \<times> acme \<times> (acme_problem + nat)" where
  "finalize ae ca a i payload st0 =
     (let st = refresh_order (ae_now ae) i st0
      in case get_order i st of
           None \<Rightarrow> (None, st, Inl crash)
         | Some r \<Rightarrow>
             if ao_status r = ''valid'' then (None, st, Inr i)
             else if ao_status r \<noteq> ''ready'' then (None, st, Inl (problem ''orderNotReady''))
             else (case and_then (order_csr ae r payload) (\<lambda>csr. and_then (acme_profile (ac_pki st) ca) (\<lambda>f. Inr (csr, f))) of
                 Inl x \<Rightarrow> (None, st, Inl x)
               | Inr (csr, f) \<Rightarrow> (let (st1, res) = issue_order ae ca a r csr f st in (Some st1, st1, res))))"

section \<open>Revocation\<close>

definition REASON_CODES :: "(int \<times> string) list" where
  "REASON_CODES = [(0, ''unspecified''), (1, ''key_compromise''), (2, ''ca_compromise''), (3, ''affiliation_changed''),
     (4, ''superseded''), (5, ''cessation_of_operation''), (6, ''certificate_hold''), (9, ''privilege_withdrawn''), (10, ''aa_compromise'')]"

text \<open>A Python bool is an int.\<close>

definition reason_code :: "json option \<Rightarrow> int option" where
  "reason_code j = (case j of None \<Rightarrow> Some 0 | Some (JInt i) \<Rightarrow> Some i | Some (JBool b) \<Rightarrow> Some (if b then 1 else 0) | _ \<Rightarrow> None)"

definition revoke_checks :: "acme_env \<Rightarrow> ca_row \<Rightarrow> acme_account verified \<Rightarrow> acme \<Rightarrow> acme_problem + cert_row \<times> string" where
  "revoke_checks ae ca v st =
     (let payload = (case vf_payload v of None \<Rightarrow> JObj [] | Some j \<Rightarrow> j)
      in case b64url_decode (case jget ''certificate'' payload of None \<Rightarrow> JStr [] | Some j \<Rightarrow> j) of
           Inl _ \<Rightarrow> Inl malformed
         | Inr der \<Rightarrow>
             (case ae_load_cert ae der of
                None \<Rightarrow> Inl malformed
              | Some t \<Rightarrow>
                  (case first_row (\<lambda>c. ct_serial c = x_serial t) (p_certs (ac_pki st)) of
                     None \<Rightarrow> Inl (problem ''unauthorized'')
                   | Some c \<Rightarrow>
                       require (ct_ca c = ca_id ca \<and> ct_cert c = t) (problem ''unauthorized'')
                       (require (case vf_account v of Some a \<Rightarrow> ct_acme_account c = Some (aa_id a) | None \<Rightarrow> x_key t = vf_key v)
                          (problem ''unauthorized'')
                       (case (case reason_code (jget ''reason'' payload) of None \<Rightarrow> None | Some i \<Rightarrow> map_of REASON_CODES i) of
                          None \<Rightarrow> Inl (problem ''badRevocationReason'')
                        | Some reason \<Rightarrow> require (\<not> ct_revoked c) (problem ''alreadyRevoked'') (Inr (c, reason)))))))"

definition acme_revoke :: "acme_env \<Rightarrow> ca_row \<Rightarrow> acme_account verified \<Rightarrow> acme \<Rightarrow> acme \<times> (acme_problem + nat)" where
  "acme_revoke ae ca v st =
     (case revoke_checks ae ca v st of
        Inl x \<Rightarrow> (st, Inl x)
      | Inr (c, reason) \<Rightarrow>
          (case revoke_certificate (ae_env ae) reason False (ct_id c) (ac_pki st) of
             Inl x \<Rightarrow> (st, Inl crash)
           | Inr (p, _) \<Rightarrow>
               let st1 = acme_log ae ''acme_certificate_revoked'' ''certificate'' (ct_id c)
                     (JObj [(''ca_id'', JInt (int (ca_id ca))), (''reason'', JStr reason),
                        (''by'', JStr (case vf_account v of None \<Rightarrow> ''certificate-key'' | Some _ \<Rightarrow> ''account'')),
                        (''account_id'', j_opt_nat (map_option aa_id (vf_account v)))]) (st\<lparr>ac_pki := p\<rparr>)
               in case refresh_crl (ae_env ae) (Some (ca_id ca)) (ac_pki st1) of
                    Inl _ \<Rightarrow> (st1, Inr (ct_id c))
                  | Inr p2 \<Rightarrow> (st1\<lparr>ac_pki := p2\<rparr>, Inr (ct_id c))))"

section \<open>External account bindings and maintenance\<close>

definition create_eab_key :: "acme_env \<Rightarrow> string \<Rightarrow> nat \<Rightarrow> string option \<Rightarrow> nat option \<Rightarrow> acme \<Rightarrow> acme \<times> nat" where
  "create_eab_key ae kid ca name by_user st =
     (let nm = take 100 (strip_str (case name of None \<Rightarrow> [] | Some s \<Rightarrow> s));
          r = \<lparr>ek_id = fresh_id ek_id (ac_eabs st), ek_ca = ca, ek_kid = kid, ek_mac = b64url_encode (ae_random ae 0),
            ek_name = some_nonempty nm, ek_created_by = by_user, ek_used_at = None, ek_revoked = False\<rparr>
      in (st\<lparr>ac_eabs := ac_eabs st @ [r]\<rparr>, ek_id r))"

definition revoke_eab_key :: "nat \<Rightarrow> acme \<Rightarrow> acme" where
  "revoke_eab_key i st = st\<lparr>ac_eabs := map (\<lambda>r. if ek_id r = i then r\<lparr>ek_revoked := True\<rparr> else r) (ac_eabs st)\<rparr>"

definition acme_maintain :: "acme_env \<Rightarrow> acme \<Rightarrow> acme" where
  "acme_maintain ae st =
     st\<lparr>ac_orders := map (\<lambda>r. if ao_status r \<in> {''pending'', ''ready'', ''processing''} \<and> ao_expires r \<le> ae_now ae
            then r\<lparr>ao_status := ''invalid'', ao_error := or_error (ao_error r) ''malformed''\<rparr> else r) (ac_orders st),
        ac_authzs := map (aged_authz (ae_now ae)) (ac_authzs st),
        ac_nonces := filter (\<lambda>x. ae_now ae - minutes (ae_nonce_minutes ae) \<le> snd x) (ac_nonces st)\<rparr>"

section \<open>Requests\<close>

datatype acme_route =
    New_account | Account nat | Account_orders nat | New_order | Order nat | Finalize nat | Authz nat | Chall nat
  | Cert nat | Revoke_cert | Key_change

text \<open>A POST request: the CA of its path, its URL, whether its type is \<open>application/jose+json\<close>, its body.\<close>

record acme_request =
  hq_ca :: nat
  hq_url :: string
  hq_jose :: bool
  hq_body :: string
  hq_route :: acme_route

definition ca_available :: "time \<Rightarrow> ca_row \<Rightarrow> bool" where
  "ca_available now ca \<longleftrightarrow> ca_acme ca \<and> \<not> ca_revoked ca \<and> has_signing_key ca \<and> ca_approval ca = ''approved''
     \<and> \<not> whole_days (ca_not_after ca - now) < 0"

definition load_ca :: "acme_env \<Rightarrow> acme_request \<Rightarrow> acme \<Rightarrow> acme_problem + ca_row" where
  "load_ca ae hq st =
     require (ae_enabled ae) (Problem ''malformed'' 404)
     (case get_ca (ac_pki st) (hq_ca hq) of
        None \<Rightarrow> Inl (Problem ''malformed'' 404)
      | Some ca \<Rightarrow> require (ca_available (ae_now ae) ca) (Problem ''malformed'' 404) (Inr ca))"

definition allows_jwk :: "acme_route \<Rightarrow> bool" where
  "allows_jwk r \<longleftrightarrow> r \<in> {New_account, Revoke_cert}"

definition is_get :: "acme_route \<Rightarrow> bool" where
  "is_get r \<longleftrightarrow> (case r of Account_orders _ \<Rightarrow> True | Order _ \<Rightarrow> True | Cert _ \<Rightarrow> True | _ \<Rightarrow> False)"

text \<open>\<open>_verified\<close>: the signature, then the nonce, which is spent whatever follows.\<close>

definition acme_verified :: "acme_env \<Rightarrow> ca_row \<Rightarrow> acme_request \<Rightarrow> acme \<Rightarrow> acme \<times> (acme_problem + acme_account verified)" where
  "acme_verified ae ca hq st =
     (case require (hq_jose hq) (Problem ''malformed'' 415) (and_then (jws_parse (hq_body hq)) (\<lambda>body.
             jws_verify (ae_jose ae) body (hq_url hq) (account_for_kid ae st ca) aa_jwk (allows_jwk (hq_route hq))
               (hq_route hq \<noteq> New_account) True)) of
        Inl x \<Rightarrow> (st, Inl x)
      | Inr v \<Rightarrow>
          (let (st1, fresh) = consume_nonce ae (jget ''nonce'' (vf_protected v)) st
           in if \<not> fresh then (st1, Inl (problem ''badNonce''))
              else if is_get (hq_route hq) \<and> vf_payload v \<noteq> None then (st1, Inl malformed)
              else (st1, Inr v)))"

text \<open>The rows a request may see: those of its account at its CA.\<close>

definition load_order :: "nat \<Rightarrow> nat \<Rightarrow> nat \<Rightarrow> acme \<Rightarrow> acme_problem + acme_order" where
  "load_order ca a i st =
     (case get_order i st of
        None \<Rightarrow> Inl (Problem ''malformed'' 404)
      | Some r \<Rightarrow> require (ao_ca r = ca \<and> ao_account r = a) (Problem ''malformed'' 404) (Inr r))"

definition load_authz :: "nat \<Rightarrow> nat \<Rightarrow> nat \<Rightarrow> acme \<Rightarrow> acme_problem + acme_authz" where
  "load_authz ca a i st =
     (case get_authz i st of
        None \<Rightarrow> Inl (Problem ''malformed'' 404)
      | Some z \<Rightarrow> require (az_ca z = ca \<and> az_account z = a) (Problem ''malformed'' 404) (Inr z))"

definition load_challenge :: "nat \<Rightarrow> nat \<Rightarrow> nat \<Rightarrow> acme \<Rightarrow> acme_problem + acme_challenge" where
  "load_challenge ca a i st =
     (case get_chall i st of
        None \<Rightarrow> Inl (Problem ''malformed'' 404)
      | Some c \<Rightarrow> and_then (load_authz ca a (ch_authz c) st) (\<lambda>_. Inr c))"

definition certificate_for :: "nat \<Rightarrow> nat \<Rightarrow> nat \<Rightarrow> acme \<Rightarrow> acme_problem + cert_row" where
  "certificate_for ca a i st =
     (case get_row ct_id i (p_certs (ac_pki st)) of
        None \<Rightarrow> Inl (Problem ''malformed'' 404)
      | Some c \<Rightarrow> require (ct_ca c = ca \<and> ct_acme_account c = Some a) (Problem ''malformed'' 404) (Inr c))"

text \<open>
  The view functions, given the verified request. Each returns the state at its
  last commit, the state of the session, and the result (a row id).
\<close>

definition uncommitted :: "acme \<Rightarrow> acme \<times> (acme_problem + nat) \<Rightarrow> acme \<times> acme \<times> (acme_problem + nat)" where
  "uncommitted st r = (st, fst r, snd r)"

definition with_result :: "nat \<Rightarrow> acme \<times> (acme_problem + unit) \<Rightarrow> acme \<times> (acme_problem + nat)" where
  "with_result i r = (fst r, case snd r of Inl x \<Rightarrow> Inl x | Inr _ \<Rightarrow> Inr i)"

definition view_authz :: "acme_env \<Rightarrow> nat \<Rightarrow> nat \<Rightarrow> json option \<Rightarrow> nat \<Rightarrow> acme \<Rightarrow> acme \<times> (acme_problem + nat)" where
  "view_authz ae ca a payload i st =
     (case load_authz ca a i st of
        Inl x \<Rightarrow> (st, Inl x)
      | Inr _ \<Rightarrow>
          (case poll_authz ae i st of
             (st1, Inl x) \<Rightarrow> (st1, Inl x)
           | (st1, Inr _) \<Rightarrow>
               (if (case payload of None \<Rightarrow> False | Some j \<Rightarrow> jget ''status'' j = Some (JStr ''deactivated'')) then deactivate_authz ae i st1 else st1,
                Inr i)))"

definition view_chall :: "acme_env \<Rightarrow> nat \<Rightarrow> acme_account \<Rightarrow> json option \<Rightarrow> nat \<Rightarrow> acme \<Rightarrow> acme \<times> (acme_problem + nat)" where
  "view_chall ae ca a payload i st =
     (case load_challenge ca (aa_id a) i st of
        Inl x \<Rightarrow> (st, Inl x)
      | Inr c \<Rightarrow>
          (case poll_authz ae (ch_authz c) st of
             (st1, Inl x) \<Rightarrow> (st1, Inl x)
           | (st1, Inr _) \<Rightarrow> if payload = None then (st1, Inr i) else with_result i (respond_challenge ae a i st1)))"

definition view_order :: "acme_env \<Rightarrow> nat \<Rightarrow> nat \<Rightarrow> nat \<Rightarrow> acme \<Rightarrow> acme \<times> (acme_problem + nat)" where
  "view_order ae ca a i st =
     (case load_order ca a i st of Inl x \<Rightarrow> (st, Inl x) | Inr _ \<Rightarrow> (refresh_order (ae_now ae) i st, Inr i))"

definition view_finalize :: "acme_env \<Rightarrow> ca_row \<Rightarrow> acme_account \<Rightarrow> json option \<Rightarrow> nat \<Rightarrow> acme \<Rightarrow> acme \<times> acme \<times> (acme_problem + nat)" where
  "view_finalize ae ca a payload i st =
     (case load_order (ca_id ca) (aa_id a) i st of
        Inl x \<Rightarrow> (st, st, Inl x)
      | Inr _ \<Rightarrow>
          (case finalize ae ca a i payload (refresh_order (ae_now ae) i st) of
             (c, s, r) \<Rightarrow> (case c of None \<Rightarrow> st | Some st1 \<Rightarrow> st1, s, r)))"

definition view_account :: "acme_env \<Rightarrow> ca_row \<Rightarrow> acme_account \<Rightarrow> json option \<Rightarrow> nat \<Rightarrow> acme \<Rightarrow> acme \<times> (acme_problem + nat)" where
  "view_account ae ca a payload i st =
     (if aa_id a \<noteq> i then (st, Inl (problem ''unauthorized''))
      else (case payload of
              None \<Rightarrow> (st, Inr i)
            | Some j \<Rightarrow> if jtruthy (Some j) then update_account ae ca a j st else (st, Inr i)))"

definition acme_view :: "acme_env \<Rightarrow> ca_row \<Rightarrow> acme_request \<Rightarrow> acme_account verified \<Rightarrow> acme \<Rightarrow> acme \<times> acme \<times> (acme_problem + nat)" where
  "acme_view ae ca hq v st =
     (case (hq_route hq, vf_account v) of
        (New_account, _) \<Rightarrow>
          (case new_account ae ca v st of (st1, r) \<Rightarrow> (st, st1, case r of Inl x \<Rightarrow> Inl x | Inr (i, _) \<Rightarrow> Inr i))
      | (Revoke_cert, _) \<Rightarrow> uncommitted st (acme_revoke ae ca v st)
      | (_, None) \<Rightarrow> (st, st, Inl crash)
      | (Account i, Some a) \<Rightarrow> uncommitted st (view_account ae ca a (vf_payload v) i st)
      | (Account_orders i, Some a) \<Rightarrow> (st, st, if aa_id a \<noteq> i then Inl (problem ''unauthorized'') else Inr i)
      | (New_order, Some a) \<Rightarrow> uncommitted st (new_order ae ca a (vf_payload v) st)
      | (Order i, Some a) \<Rightarrow> uncommitted st (view_order ae (ca_id ca) (aa_id a) i st)
      | (Finalize i, Some a) \<Rightarrow> view_finalize ae ca a (vf_payload v) i st
      | (Authz i, Some a) \<Rightarrow> uncommitted st (view_authz ae (ca_id ca) (aa_id a) (vf_payload v) i st)
      | (Chall i, Some a) \<Rightarrow> uncommitted st (view_chall ae (ca_id ca) a (vf_payload v) i st)
      | (Cert i, Some a) \<Rightarrow> (st, st, case certificate_for (ca_id ca) (aa_id a) i st of Inl x \<Rightarrow> Inl x | Inr c \<Rightarrow> Inr (ct_id c))
      | (Key_change, Some a) \<Rightarrow>
          uncommitted st (case vf_payload v of
               None \<Rightarrow> (st, Inl malformed)
             | Some inner \<Rightarrow> change_key ae ca a inner (ae_base ae @ ''/acme/'' @ show_nat (ca_id ca) @ ''/key-change'') st))"

text \<open>
  A problem below 500 does not roll the session back, so the commit of the nonce
  of the answer keeps what the view had written; any other is rolled back.
\<close>

definition settle_session :: "acme \<times> acme \<times> (acme_problem + nat) \<Rightarrow> acme \<times> (acme_problem + nat)" where
  "settle_session r =
     (case r of (committed, session, res) \<Rightarrow>
        (case res of Inl (Problem t s) \<Rightarrow> if 500 \<le> s then committed else session | Inr _ \<Rightarrow> session, res))"

definition acme_post :: "acme_env \<Rightarrow> acme_request \<Rightarrow> acme \<Rightarrow> acme \<times> (acme_problem + nat)" where
  "acme_post ae hq st =
     (case load_ca ae hq st of
        Inl x \<Rightarrow> (issue_nonce ae st, Inl x)
      | Inr ca \<Rightarrow>
          (case acme_verified ae ca hq st of
             (st1, Inl x) \<Rightarrow> (issue_nonce ae st1, Inl x)
           | (st1, Inr v) \<Rightarrow>
               (let (st2, res) = settle_session (acme_view ae ca hq v st1) in (issue_nonce ae st2, res))))"

end
