(* ===== verification/Acme_Protocol.thy ===== *)
theory Acme_Protocol
  imports Main
begin

text \<open>
  The abstract protocol of RFC 8555 that the ACME server implements, without
  tables, tokens or times: orders, authorizations, issued certificates, and the
  set of names each account has proved to control. What a proof is is the
  argument \<open>ctrl\<close>; \<open>canon\<close> is the form in which names are compared.
\<close>

datatype order_state = Order_pending | Order_ready | Order_processing | Order_valid | Order_invalid

datatype authz_state = Authz_open | Authz_valid | Authz_closed

record protocol =
  pr_orders :: "nat \<rightharpoonup> nat \<times> string set \<times> order_state"
  pr_authzs :: "nat \<rightharpoonup> nat \<times> string \<times> authz_state"
  pr_certs :: "nat \<rightharpoonup> nat \<times> (string \<times> string) set"
  pr_proved :: "(nat \<times> string) set"

definition final_state :: "order_state \<Rightarrow> bool" where
  "final_state s \<longleftrightarrow> s \<in> {Order_valid, Order_invalid}"

text \<open>What may become of the authorizations (the orders) that nobody proves (completes).\<close>

definition lapsed :: "(nat \<rightharpoonup> nat \<times> string \<times> authz_state) \<Rightarrow> (nat \<rightharpoonup> nat \<times> string \<times> authz_state) \<Rightarrow> bool" where
  "lapsed m m' \<longleftrightarrow> (\<forall>i. m' i = m i \<or> (\<exists>j n. m i = Some (j, n, Authz_open) \<and> m' i = Some (j, n, Authz_closed)))"

definition cancelled :: "(nat \<rightharpoonup> nat \<times> string set \<times> order_state) \<Rightarrow> (nat \<rightharpoonup> nat \<times> string set \<times> order_state) \<Rightarrow> bool" where
  "cancelled m m' \<longleftrightarrow> (\<forall>i. m' i = m i \<or> (\<exists>a ns s. m i = Some (a, ns, s) \<and> \<not> final_state s \<and> m' i = Some (a, ns, Order_invalid)))"

inductive rfc_step :: "(string \<Rightarrow> string) \<Rightarrow> (nat \<Rightarrow> string \<Rightarrow> bool) \<Rightarrow> protocol \<Rightarrow> protocol \<Rightarrow> bool" for canon ctrl where
  order: "pr_orders m i = None \<Longrightarrow> (\<forall>j. new j \<noteq> None \<longrightarrow> pr_authzs m j = None)
    \<Longrightarrow> ran new = (\<lambda>n. (i, n, Authz_open)) ` names
    \<Longrightarrow> rfc_step canon ctrl m (m\<lparr>pr_orders := (pr_orders m)(i \<mapsto> (a, names, Order_pending)), pr_authzs := pr_authzs m ++ new\<rparr>)"
| prove: "pr_authzs m j = Some (i, n, Authz_open) \<Longrightarrow> pr_orders m i = Some (a, names, s) \<Longrightarrow> ctrl a n
    \<Longrightarrow> rfc_step canon ctrl m (m\<lparr>pr_authzs := (pr_authzs m)(j \<mapsto> (i, n, Authz_valid)), pr_proved := insert (a, n) (pr_proved m)\<rparr>)"
| lapse: "lapsed (pr_authzs m) f \<Longrightarrow> rfc_step canon ctrl m (m\<lparr>pr_authzs := f\<rparr>)"
| cancel: "cancelled (pr_orders m) f \<Longrightarrow> rfc_step canon ctrl m (m\<lparr>pr_orders := f\<rparr>)"
| ready: "pr_orders m i = Some (a, names, Order_pending) \<Longrightarrow> (\<forall>j n s. pr_authzs m j = Some (i, n, s) \<longrightarrow> s = Authz_valid)
    \<Longrightarrow> rfc_step canon ctrl m (m\<lparr>pr_orders := (pr_orders m)(i \<mapsto> (a, names, Order_ready))\<rparr>)"
| start: "pr_orders m i = Some (a, names, Order_ready)
    \<Longrightarrow> rfc_step canon ctrl m (m\<lparr>pr_orders := (pr_orders m)(i \<mapsto> (a, names, Order_processing))\<rparr>)"
| issue: "pr_orders m i = Some (a, names, Order_processing) \<Longrightarrow> pr_certs m c = None
    \<Longrightarrow> (\<forall>(k, v) \<in> sans. k = ''dns'' \<and> canon v \<in> canon ` names)
    \<Longrightarrow> rfc_step canon ctrl m (m\<lparr>pr_orders := (pr_orders m)(i \<mapsto> (a, names, Order_valid)), pr_certs := (pr_certs m)(c \<mapsto> (a, sans))\<rparr>)"

inductive_cases rfc_stepE: "rfc_step canon ctrl m m'"

abbreviation rfc_steps :: "(string \<Rightarrow> string) \<Rightarrow> (nat \<Rightarrow> string \<Rightarrow> bool) \<Rightarrow> protocol \<Rightarrow> protocol \<Rightarrow> bool" where
  "rfc_steps canon ctrl \<equiv> (rfc_step canon ctrl)\<^sup>*\<^sup>*"

section \<open>What the protocol guarantees\<close>

definition names_backed :: "protocol \<Rightarrow> bool" where
  "names_backed m \<longleftrightarrow> (\<forall>i a names s. pr_orders m i = Some (a, names, s) \<longrightarrow> (\<forall>n \<in> names. \<exists>j t. pr_authzs m j = Some (i, n, t)))"

definition authzs_proved :: "protocol \<Rightarrow> bool" where
  "authzs_proved m \<longleftrightarrow> (\<forall>j i n. pr_authzs m j = Some (i, n, Authz_valid) \<longrightarrow> (\<exists>a names s. pr_orders m i = Some (a, names, s) \<and> (a, n) \<in> pr_proved m))"

definition completed_proved :: "protocol \<Rightarrow> bool" where
  "completed_proved m \<longleftrightarrow> (\<forall>i a names s. pr_orders m i = Some (a, names, s) \<and> s \<in> {Order_ready, Order_processing, Order_valid}
     \<longrightarrow> (\<forall>n \<in> names. (a, n) \<in> pr_proved m))"

definition certs_proved :: "(string \<Rightarrow> string) \<Rightarrow> protocol \<Rightarrow> bool" where
  "certs_proved canon m \<longleftrightarrow> (\<forall>c a sans. pr_certs m c = Some (a, sans)
     \<longrightarrow> (\<forall>(k, v) \<in> sans. k = ''dns'' \<and> (\<exists>n. (a, n) \<in> pr_proved m \<and> canon n = canon v)))"

definition protocol_inv :: "(string \<Rightarrow> string) \<Rightarrow> protocol \<Rightarrow> bool" where
  "protocol_inv canon m \<longleftrightarrow> names_backed m \<and> authzs_proved m \<and> completed_proved m \<and> certs_proved canon m"

section \<open>The guarantees are invariants\<close>

lemma names_backedD: "names_backed m \<Longrightarrow> pr_orders m i = Some (a, names, s) \<Longrightarrow> n \<in> names \<Longrightarrow> \<exists>j t. pr_authzs m j = Some (i, n, t)"
  unfolding names_backed_def by blast

lemma names_backed_step:
  assumes "rfc_step canon ctrl m m'" "names_backed m"
  shows "names_backed m'"
  using assms
proof (cases rule: rfc_step.cases)
  case (order i new names a)
  have "\<exists>j t. (pr_authzs m ++ new) j = Some (k, n, t)" if "pr_orders m' k = Some (b, ns, s)" "n \<in> ns" for k b ns s n
  proof (cases "k = i")
    case True
    with that order have "(i, n, Authz_open) \<in> ran new" by auto
    then obtain j where "new j = Some (i, n, Authz_open)" by (auto simp: ran_def)
    then have "(pr_authzs m ++ new) j = Some (k, n, Authz_open)" by (simp add: map_add_def True)
    then show ?thesis by (intro exI)
  next
    case False
    with that order obtain j t where j: "pr_authzs m j = Some (k, n, t)" using names_backedD [OF assms(2)] by fastforce
    with order have "new j = None" by force
    with j have "(pr_authzs m ++ new) j = Some (k, n, t)" by (simp add: map_add_def)
    then show ?thesis by (intro exI)
  qed
  with order show ?thesis by (simp add: names_backed_def)
next
  case (prove j i n a names s)
  have "\<exists>k t. ((pr_authzs m)(j \<mapsto> (i, n, Authz_valid))) k = Some (l, x, t)" if o: "pr_orders m l = Some (b, ns, u)" "x \<in> ns" for l b ns u x
  proof -
    obtain k t where k: "pr_authzs m k = Some (l, x, t)" using names_backedD [OF assms(2) o] by blast
    show ?thesis by (rule exI [of _ k], cases "k = j") (use k prove in auto)
  qed
  with prove show ?thesis by (simp add: names_backed_def)
next
  case (lapse f)
  have "\<exists>j t. f j = Some (i, n, t)" if o: "pr_orders m i = Some (a, ns, s)" "n \<in> ns" for i a ns s n
  proof -
    obtain j t where j: "pr_authzs m j = Some (i, n, t)" using names_backedD [OF assms(2) o] by blast
    from lapse have "f j = pr_authzs m j \<or> (\<exists>k n. pr_authzs m j = Some (k, n, Authz_open) \<and> f j = Some (k, n, Authz_closed))"
      by (simp add: lapsed_def)
    with j have "\<exists>t. f j = Some (i, n, t)" by fastforce
    then show ?thesis by blast
  qed
  with lapse show ?thesis by (simp add: names_backed_def)
next
  case (cancel f)
  have "\<exists>s. pr_orders m i = Some (a, ns, s)" if "f i = Some (a, ns, s)" for i a ns s
  proof -
    from cancel have "f i = pr_orders m i \<or> (\<exists>a ns s. pr_orders m i = Some (a, ns, s) \<and> \<not> final_state s \<and> f i = Some (a, ns, Order_invalid))"
      by (simp add: cancelled_def)
    with that show ?thesis by fastforce
  qed
  with cancel show ?thesis using names_backedD [OF assms(2)] by (fastforce simp: names_backed_def)
qed (use names_backedD [OF assms(2)] in \<open>auto simp: names_backed_def\<close>)

lemma authzs_provedD: "authzs_proved m \<Longrightarrow> pr_authzs m j = Some (i, n, Authz_valid) \<Longrightarrow>
    \<exists>a names s. pr_orders m i = Some (a, names, s) \<and> (a, n) \<in> pr_proved m"
  unfolding authzs_proved_def by blast

text \<open>A step keeps the account and the names of an order, and what was proved.\<close>

lemma order_kept:
  assumes "rfc_step canon ctrl m m'" "pr_orders m i = Some (a, names, s)"
  shows "\<exists>t. pr_orders m' i = Some (a, names, t)"
  using assms(1)
proof (cases rule: rfc_step.cases)
  case (cancel f)
  then have "f i = pr_orders m i \<or> (\<exists>a ns s. pr_orders m i = Some (a, ns, s) \<and> \<not> final_state s \<and> f i = Some (a, ns, Order_invalid))"
    by (simp add: cancelled_def)
  with cancel assms(2) show ?thesis by auto
qed (use assms(2) in auto)

lemma proved_kept: "rfc_step canon ctrl m m' \<Longrightarrow> pr_proved m \<subseteq> pr_proved m'"
  by (erule rfc_step.cases) auto

lemma authzs_proved_step:
  assumes "rfc_step canon ctrl m m'" "authzs_proved m"
  shows "authzs_proved m'"
proof -
  have "(\<exists>a names s. pr_orders m' i = Some (a, names, s) \<and> (a, n) \<in> pr_proved m')"
    if new: "pr_authzs m' j = Some (i, n, Authz_valid)" for j i n
  proof (cases "pr_authzs m j = Some (i, n, Authz_valid)")
    case True
    then show ?thesis using authzs_provedD [OF assms(2)] order_kept [OF assms(1)] proved_kept [OF assms(1)] by blast
  next
    case False
    from assms(1) show ?thesis
    proof (cases rule: rfc_step.cases)
      case (order k new names a)
      with new False have "new j = Some (i, n, Authz_valid)" by (auto simp: map_add_def split: option.splits)
      then have "(i, n, Authz_valid) \<in> ran new" by (rule ranI)
      with order show ?thesis by auto
    next
      case (lapse f)
      then have "f j = pr_authzs m j \<or> (\<exists>k n. pr_authzs m j = Some (k, n, Authz_open) \<and> f j = Some (k, n, Authz_closed))"
        by (simp add: lapsed_def)
      with lapse new False show ?thesis by auto
    qed (use new False in \<open>auto split: if_splits\<close>)
  qed
  then show ?thesis by (simp add: authzs_proved_def)
qed

lemma completed_provedD: "completed_proved m \<Longrightarrow> pr_orders m i = Some (a, names, s) \<Longrightarrow> s \<in> {Order_ready, Order_processing, Order_valid}
    \<Longrightarrow> n \<in> names \<Longrightarrow> (a, n) \<in> pr_proved m"
  unfolding completed_proved_def by blast

lemma completed_proved_step:
  assumes "rfc_step canon ctrl m m'" "names_backed m" "authzs_proved m" "completed_proved m"
  shows "completed_proved m'"
proof -
  have "(a, n) \<in> pr_proved m"
    if new: "pr_orders m' i = Some (a, names, s)" "s \<in> {Order_ready, Order_processing, Order_valid}" "n \<in> names" for i a names s n
  proof (cases "\<exists>t \<in> {Order_ready, Order_processing, Order_valid}. pr_orders m i = Some (a, names, t)")
    case True
    then show ?thesis using completed_provedD [OF assms(4)] new(3) by blast
  next
    case False
    from assms(1) show ?thesis
    proof (cases rule: rfc_step.cases)
      case (cancel f)
      then have "f i = pr_orders m i \<or> (\<exists>a ns s. pr_orders m i = Some (a, ns, s) \<and> \<not> final_state s \<and> f i = Some (a, ns, Order_invalid))"
        by (simp add: cancelled_def)
      with cancel new False show ?thesis by auto
    next
      case (ready k b ns)
      with new False have o: "pr_orders m i = Some (a, names, Order_pending)" "k = i" by (auto split: if_splits)
      obtain j t where j: "pr_authzs m j = Some (i, n, t)" using names_backedD [OF assms(2) o(1) new(3)] by blast
      with ready o(2) have "t = Authz_valid" by blast
      with j o(1) show ?thesis using authzs_provedD [OF assms(3), of j i n] by auto
    qed (use new False in \<open>auto split: if_splits\<close>)
  qed
  then show ?thesis using proved_kept [OF assms(1)] by (auto simp: completed_proved_def)
qed

lemma certs_proved_mono: "certs_proved canon m \<Longrightarrow> pr_certs m' = pr_certs m \<Longrightarrow> pr_proved m \<subseteq> pr_proved m' \<Longrightarrow> certs_proved canon m'"
  unfolding certs_proved_def by (fastforce split: prod.splits)

lemma certs_proved_step:
  assumes "rfc_step canon ctrl m m'" "completed_proved m" "certs_proved canon m"
  shows "certs_proved canon m'"
  using assms(1)
proof (cases rule: rfc_step.cases)
  case (issue i a names c sans)
  have "k = ''dns'' \<and> (\<exists>n. (a, n) \<in> pr_proved m \<and> canon n = canon v)" if "(k, v) \<in> sans" for k v
  proof -
    from issue that obtain n where "k = ''dns''" "n \<in> names" "canon n = canon v" by auto
    then show ?thesis using completed_provedD [OF assms(2) issue(2)] by auto
  qed
  then have "\<forall>(k, v) \<in> sans. k = ''dns'' \<and> (\<exists>n. (a, n) \<in> pr_proved m \<and> canon n = canon v)" by blast
  with assms(3) show ?thesis unfolding issue(1) certs_proved_def by (simp add: split_beta)
qed (rule certs_proved_mono [OF assms(3) _ proved_kept [OF assms(1)]], simp)+

lemma protocol_inv_step: "rfc_step canon ctrl m m' \<Longrightarrow> protocol_inv canon m \<Longrightarrow> protocol_inv canon m'"
  using names_backed_step authzs_proved_step completed_proved_step certs_proved_step unfolding protocol_inv_def by metis

lemma protocol_inv_steps: "rfc_steps canon ctrl m m' \<Longrightarrow> protocol_inv canon m \<Longrightarrow> protocol_inv canon m'"
  by (induction rule: rtranclp_induct) (auto intro: protocol_inv_step)

text \<open>Whatever is in the set of proofs was proved by a step: the set of a run from \<open>m\<close> holds only what \<open>ctrl\<close> allows.\<close>

lemma proved_by_ctrl: "rfc_steps canon ctrl m m' \<Longrightarrow> (a, n) \<in> pr_proved m' \<Longrightarrow> (a, n) \<in> pr_proved m \<or> ctrl a n"
  by (induction rule: rtranclp_induct) (auto elim!: rfc_step.cases)

text \<open>A certificate once issued stays, under the account it was issued to.\<close>

lemma cert_kept_step: "rfc_step canon ctrl m m' \<Longrightarrow> pr_certs m c = Some x \<Longrightarrow> pr_certs m' c = Some x"
  by (erule rfc_step.cases) auto

end
