(* ===== verification/Acme_Jws_Claims.thy ===== *)
theory Acme_Jws_Claims
  imports Acme_Jws
begin

text \<open>
  Correctness of the signed requests: base64url, and what an accepted request
  has proved.
\<close>

section \<open>base64url\<close>

lemma sign_codes: "char_code (CHR ''+'') = 43" "char_code (CHR ''/'') = 47" "char_code (CHR ''-'') = 45" "char_code (CHR ''_'') = 95"
  "char_code (CHR ''='') = 61" "char_code (CHR 0x0A) = 10"
  by (simp_all add: char_code_def)

lemma b64_char_code: "n < 64 \<Longrightarrow> char_code (b64_char n) =
    (if n < 26 then 65 + n else if n < 52 then 71 + n else if n < 62 then n - 4 else if n = 62 then 43 else 47)"
  by (simp add: b64_char_def code_char_of sign_codes)

lemma char_eq_code: "c = d \<longleftrightarrow> char_code c = char_code d"
  by simp

lemmas char_classes = is_upper_def is_lower_def is_digit_def

lemma b64_val_char: "n < 64 \<Longrightarrow> b64_val (b64_char n) = Some n"
  unfolding b64_val_def char_classes char_eq_code sign_codes by (simp add: b64_char_code) linarith

lemma b64_char_urlsafe:
  assumes "n < 64"
  shows "b64url_char (to_urlsafe (b64_char n))" "from_urlsafe (to_urlsafe (b64_char n)) = b64_char n"
    "to_urlsafe (b64_char n) \<noteq> CHR ''=''" "to_urlsafe (b64_char n) \<noteq> CHR 0x0A" "b64_char n \<noteq> CHR ''=''"
  using assms unfolding b64url_char_def char_classes from_urlsafe_def to_urlsafe_def char_eq_code sign_codes
  by (auto simp: b64_char_code sign_codes split: if_splits)

text \<open>The digits of the text in base 64, and how many pads complete it.\<close>

fun b64_digits :: "string \<Rightarrow> nat list" where
  "b64_digits [] = []"
| "b64_digits [a] = [char_code a div 4, char_code a mod 4 * 16]"
| "b64_digits [a, b] = [char_code a div 4, char_code a mod 4 * 16 + char_code b div 16, char_code b mod 16 * 4]"
| "b64_digits (a # b # c # r) =
     char_code a div 4 # (char_code a mod 4 * 16 + char_code b div 16) # (char_code b mod 16 * 4 + char_code c div 64)
       # char_code c mod 64 # b64_digits r"

definition pads :: "string \<Rightarrow> string" where
  "pads s = replicate ((3 - length s mod 3) mod 3) (CHR ''='')"

lemma digit_bounds: "char_code a div 4 < 64" "char_code a mod 4 * 16 + char_code b div 16 < 64"
  "char_code b mod 16 * 4 + char_code c div 64 < 64" "char_code c mod 64 < 64"
  using code_less [of a] code_less [of b] code_less [of c] by linarith+

lemma b64_digits_less: "d \<in> set (b64_digits s) \<Longrightarrow> d < 64"
  using digit_bounds code_less by (induction s rule: b64_digits.induct) (fastforce simp: code_less)+

lemma b64encode_digits: "b64encode s = map b64_char (b64_digits s) @ pads s"
  by (induction s rule: b64encode.induct) (auto simp: pads_def numeral_2_eq_2)

lemma b64_digits_length: "(4 - length (b64_digits s) mod 4) mod 4 = (3 - length s mod 3) mod 3"
  by (induction s rule: b64_digits.induct) auto

lemma a2b_char: "n < 64 \<Longrightarrow> a2b q l p (b64_char n # cs) =
    (if q = 0 then a2b 1 n 0 cs else if q = 1 then map_option ((#) (char_of (l * 4 + n div 16))) (a2b 2 (n mod 16) 0 cs)
     else if q = 2 then map_option ((#) (char_of (l * 16 + n div 4))) (a2b 3 (n mod 4) 0 cs)
     else map_option ((#) (char_of (l * 64 + n))) (a2b 0 0 0 cs))"
  by (simp add: b64_val_char b64_char_urlsafe(5))

lemma regroup:
  fixes a b c x y :: nat
  shows "x < 16 \<Longrightarrow> a div 4 * 4 + (a mod 4 * 16 + x) div 16 = a"
    and "b < 256 \<Longrightarrow> y < 4 \<Longrightarrow> (a mod 4 * 16 + b div 16) mod 16 * 16 + (b mod 16 * 4 + y) div 4 = b"
    and "c < 256 \<Longrightarrow> (b mod 16 * 4 + c div 64) mod 4 * 64 + c mod 64 = c"
proof -
  show "a div 4 * 4 + (a mod 4 * 16 + x) div 16 = a" if "x < 16" using that by simp
  have "(a mod 4 * 16 + b div 16) mod 16 = b div 16" if "b < 256" using that by (simp add: mod_mult_self3)
  then show "(a mod 4 * 16 + b div 16) mod 16 * 16 + (b mod 16 * 4 + y) div 4 = b" if "b < 256" "y < 4" using that by simp
  have "(b mod 16 * 4 + c div 64) mod 4 = c div 64" if "c < 256" using that by (simp add: mod_mult_self3)
  then show "(b mod 16 * 4 + c div 64) mod 4 * 64 + c mod 64 = c" if "c < 256" using that by simp
qed

lemma regroup_chars:
  "x < 16 \<Longrightarrow> char_of (char_code a div 4 * 4 + (char_code a mod 4 * 16 + x) div 16) = a"
  "y < 4 \<Longrightarrow> char_of ((char_code a mod 4 * 16 + char_code b div 16) mod 16 * 16 + (char_code b mod 16 * 4 + y) div 4) = b"
  "char_of ((char_code b mod 16 * 4 + char_code c div 64) mod 4 * 64 + char_code c mod 64) = c"
  using regroup(1) [of x "char_code a"] regroup(2) [of "char_code b" y "char_code a"] regroup(3) [of "char_code c" "char_code b"]
  by (simp_all only: code_less char_of_code)

lemma a2b_group:
  assumes "d1 < 64" "d2 < 64"
  shows "a2b 0 0 0 (b64_char d1 # b64_char d2 # cs) = map_option ((#) (char_of (d1 * 4 + d2 div 16))) (a2b 2 (d2 mod 16) 0 cs)"
  using assms by (simp add: a2b_char del: a2b.simps(2))

lemma a2b_digits: "a2b 0 0 0 (map b64_char (b64_digits s) @ pads s) = Some s"
proof (induction s rule: b64_digits.induct)
  case 1
  show ?case by (simp add: pads_def)
next
  case (2 a)
  have "a2b 2 l 0 [CHR ''='', CHR ''=''] = Some []" for l by simp
  moreover have "pads [a] = [CHR ''='', CHR ''='']" by (simp add: pads_def numeral_2_eq_2)
  ultimately show ?case using regroup_chars(1) [of 0 a] digit_bounds(1) [of a] code_less [of a]
    by (simp add: a2b_group del: a2b.simps(2))
next
  case (3 a b)
  have "a2b 3 l 0 [CHR ''=''] = Some []" for l by simp
  moreover have "pads [a, b] = [CHR ''='']" by (simp add: pads_def)
  moreover have "char_code b div 16 < 16" using code_less [of b] by linarith
  moreover have "char_code b mod 16 * 4 < 64" by (metis add.right_neutral digit_bounds(3) le_add1 order.strict_trans1)
  moreover note regroup_chars(1) [of "char_code b div 16" a] regroup_chars(2) [of 0 a b] digit_bounds(1) [of a] digit_bounds(2) [of a b] code_less [of b]
  ultimately show ?case by (simp add: a2b_group a2b_char del: a2b.simps(2))
next
  case (4 a b c r)
  have "pads (a # b # c # r) = pads r" by (simp add: pads_def)
  moreover have "char_code b div 16 < 16" "char_code c div 64 < 4" using code_less [of b] code_less [of c] by linarith+
  moreover note 4 regroup_chars(1) [of "char_code b div 16" a] regroup_chars(2) [of "char_code c div 64" a b] regroup_chars(3) [of b c]
    digit_bounds(1) [of a] digit_bounds(2) [of a b] digit_bounds(3) [of b c] digit_bounds(4) [of c] code_less [of b] code_less [of c]
  ultimately show ?case by (simp add: a2b_group a2b_char del: a2b.simps(2))
qed

lemma b64url_encode_digits: "b64url_encode s = map (\<lambda>n. to_urlsafe (b64_char n)) (b64_digits s)"
proof -
  have body: "map to_urlsafe (b64encode s) = map (\<lambda>n. to_urlsafe (b64_char n)) (b64_digits s) @ pads s"
    by (simp add: b64encode_digits pads_def to_urlsafe_def)
  have "dropWhile (\<lambda>c. c = CHR ''='') (rev (pads s) @ t) = dropWhile (\<lambda>c. c = CHR ''='') t" for t
    by (rule dropWhile_append2) (simp add: pads_def)
  moreover have "dropWhile (\<lambda>c. c = CHR ''='') (rev (map (\<lambda>n. to_urlsafe (b64_char n)) (b64_digits s)))
      = rev (map (\<lambda>n. to_urlsafe (b64_char n)) (b64_digits s))"
    using b64_char_urlsafe(3) [OF b64_digits_less [OF last_in_set], of s]
    by (cases "b64_digits s = []") (simp_all add: dropWhile_eq_self_iff hd_rev last_map)
  ultimately show ?thesis by (simp add: b64url_encode_def rstrip_by_def body)
qed

lemma b64url_encode_chars: "c \<in> set (b64url_encode s) \<Longrightarrow> b64url_char c \<and> c \<noteq> CHR 0x0A"
  using b64_digits_less b64_char_urlsafe by (auto simp: b64url_encode_digits)

lemma b64url_encode_valid: "B64URL (b64url_encode s)"
  using b64url_encode_chars by (auto simp: B64URL_def list_all_iff dest: in_set_butlastD)

lemma decode_encode: "b64url_decode (JStr (b64url_encode s)) = Inr s"
proof -
  have "map from_urlsafe (b64url_encode s) = map b64_char (b64_digits s)"
    using b64_digits_less b64_char_urlsafe(2) by (simp add: b64url_encode_digits)
  moreover have "replicate ((4 - length (b64url_encode s) mod 4) mod 4) (CHR ''='') = pads s"
    using b64_digits_length [of s] by (simp add: b64url_encode_digits pads_def)
  moreover have "map from_urlsafe (pads s) = pads s" by (simp add: pads_def from_urlsafe_def)
  ultimately show ?thesis
    using b64url_encode_valid a2b_digits [of s] by (simp add: b64url_decode_def)
qed

text \<open>C40. The texts \<open>b64url_encode\<close> makes are the canonical ones: decoding gives back every
  byte string, two byte strings never share a text, and a text is longer by a third.
\<close>

theorem base64url_roundtrip:
  "b64url_decode (JStr (b64url_encode s)) = Inr s \<and> (b64url_encode s = b64url_encode t \<longleftrightarrow> s = t)
   \<and> length (b64url_encode s) = (4 * length s + 2) div 3"
proof -
  have "length (b64_digits s) = (4 * length s + 2) div 3" by (induction s rule: b64_digits.induct) auto
  moreover have "b64url_encode s = b64url_encode t \<longleftrightarrow> s = t" by (metis decode_encode sum.inject(2))
  ultimately show ?thesis using decode_encode by (simp add: b64url_encode_digits)
qed

section \<open>Accepted requests\<close>

lemma caught_Inr: "caught p r = Inr x \<longleftrightarrow> r = Inr x"
  by (auto simp: caught_def split: sum.splits b64_failure.splits)

lemma header_ok_Inr: "header_ok h url n = Inr alg \<Longrightarrow>
    jget ''alg'' h = Some (JStr alg) \<and> alg \<in> set ALGS \<and> jget ''url'' h = Some (JStr url) \<and> (n \<longrightarrow> (\<exists>v. jget ''nonce'' h = Some (JStr v) \<and> v \<noteq> []))"
  by (auto simp: header_ok_def split: option.splits json.splits)

lemma request_key_Inr:
  assumes "request_key jo h find_account jwk_of allow_jwk allow_kid = Inr (jwk, kid, account, key)"
  shows "jwk_to_public_key jo jwk = Inr key"
    and "(account = None \<and> kid = None \<and> allow_jwk \<and> jget_some ''jwk'' h = Some jwk)
      \<or> (\<exists>a i. account = Some a \<and> kid = Some i \<and> allow_kid \<and> find_account i = Inr a \<and> jwk = jwk_of a)"
  using assms by (auto simp: request_key_def and_then_Inr split: option.splits json.splits)

lemma member_Inr: "member k body = Inr j \<longleftrightarrow> jget k body = Some j"
  by (simp add: member_def split: option.split)

lemma signing_input_Inr: "signing_input p d = Inr t \<Longrightarrow> \<exists>a b. p = JStr a \<and> d = JStr b \<and> t = a @ CHR ''.'' # b"
  by (auto simp: signing_input_def split: json.splits)

lemma verify_signature_Inr: "verify_signature jo key alg t sig = Inr u \<longleftrightarrow>
    key_for_alg alg key \<and> signature_length_ok alg sig \<and> jo_sig jo key alg t sig"
  by (simp add: verify_signature_def)

text \<open>An accepted request is signed over its header and payload, with the key it names, by an algorithm of that key.\<close>

lemma jws_verify_ok:
  assumes "jws_verify jo body url find_account jwk_of allow_jwk allow_kid require_nonce = Inr v"
  shows "\<exists>alg p d s sig. header_ok (vf_protected v) url require_nonce = Inr alg
    \<and> request_key jo (vf_protected v) find_account jwk_of allow_jwk allow_kid = Inr (vf_jwk v, vf_kid v, vf_account v, vf_key v)
    \<and> jget ''protected'' body = Some (JStr p) \<and> jget ''payload'' body = Some (JStr d) \<and> jget ''signature'' body = Some s
    \<and> b64url_decode s = Inr sig \<and> key_for_alg alg (vf_key v) \<and> jo_sig jo (vf_key v) alg (p @ CHR ''.'' # d) sig
    \<and> decoded_payload (JStr d) = Inr (vf_payload v) \<and> protected_header body = Inr (vf_protected v)"
proof -
  from assms obtain h alg jwk kid account key d p t s sig payload where steps: "protected_header body = Inr h"
    "header_ok h url require_nonce = Inr alg"
    "request_key jo h find_account jwk_of allow_jwk allow_kid = Inr (jwk, kid, account, key)"
    "jget ''payload'' body = Some d" "jget ''protected'' body = Some p" "signing_input p d = Inr t" "jget ''signature'' body = Some s"
    "b64url_decode s = Inr sig" "verify_signature jo key alg t sig = Inr ()" "decoded_payload d = Inr payload"
    "v = \<lparr>vf_protected = h, vf_payload = payload, vf_jwk = jwk, vf_kid = kid, vf_key = key, vf_account = account\<rparr>"
    unfolding jws_verify_def and_then_Inr member_Inr caught_Inr by (auto simp: and_then_Inr member_Inr caught_Inr)
  with signing_input_Inr [OF steps(6)] show ?thesis by (auto simp: verify_signature_Inr)
qed

lemma eab_needs_mac:
  assumes "verify_eab jo eab mac_key url jwk = Inr ()"
  shows "\<exists>p d s mac h alg raw inner. jget ''protected'' eab = Some (JStr p) \<and> jget ''payload'' eab = Some (JStr d) \<and> jget ''signature'' eab = Some s
    \<and> b64url_decode s = Inr mac \<and> jo_hmac jo alg mac_key (p @ CHR ''.'' # d) = mac
    \<and> jget ''alg'' h = Some (JStr alg) \<and> jget ''url'' h = Some (JStr url) \<and> eab_header eab = Inr h
    \<and> b64url_decode (JStr d) = Inr raw \<and> loads_bytes raw = Some inner \<and> json_equal inner jwk"
proof -
  from assms obtain h where h: "eab_header eab = Inr h" "is_obj h" by (auto simp: verify_eab_def and_then_Inr)
  obtain alg where alg: "jget ''alg'' h = Some (JStr alg)"
    using assms h by (cases "jget ''alg'' h"; cases "the (jget ''alg'' h)") (simp_all add: verify_eab_def)
  from assms h alg have url: "jget ''url'' h = Some (JStr url)" and mac: "eab_mac_ok jo eab mac_key alg jwk = Inr ()"
    by (simp_all add: verify_eab_def)
  from mac obtain d raw inner p t s mac where r: "jget ''payload'' eab = Some d" "b64url_decode d = Inr raw" "loads_bytes raw = Some inner"
    "json_equal inner jwk" "jget ''protected'' eab = Some p" "signing_input p d = Inr t" "jget ''signature'' eab = Some s"
    "b64url_decode s = Inr mac" "jo_hmac jo alg mac_key t = mac"
    unfolding eab_mac_ok_def and_then_Inr member_Inr caught_Inr by (auto simp: and_then_Inr member_Inr caught_Inr split: option.splits)
  obtain a b where ab: "p = JStr a" "d = JStr b" "t = a @ CHR ''.'' # b" using signing_input_Inr [OF r(6)] by blast
  show ?thesis by (intro exI conjI) (rule r(5) [unfolded ab] r(1) [unfolded ab] r(7) r(8) r(9) [unfolded ab] alg url h(1) r(2) [unfolded ab] r(3) r(4))+
qed

section \<open>What a client signs\<close>

lemma utf8_ascii: "list_all (\<lambda>c. char_code c < 128) s \<Longrightarrow> utf8_decode s = Some s"
  by (induction s) auto

lemma escape_ascii: "list_all (\<lambda>c. char_code c < 128) (escape_char c)"
proof -
  have "char_code (hex_digit d) < 128" if "d < 16" for d using that by (simp add: hex_digit_def code_char_of)
  moreover have "char_code c div 16 < 16" using code_less [of c] by linarith
  ultimately show ?thesis by (auto simp: escape_char_def code_consts)
qed

lemma dumps_str_ascii: "list_all (\<lambda>c. char_code c < 128) (dumps_str s)"
  using escape_ascii by (induction s) (auto simp: dumps_str_def code_consts)

lemma show_nat_ascii: "list_all (\<lambda>c. char_code c < 128) (show_nat n)"
  using show_nat_digits [of _ n] by (fastforce simp: list_all_iff is_digit_def)

lemma dumps_ascii:
  "list_all (\<lambda>c. char_code c < 128) (dumps l j)"
  "list_all (\<lambda>c. char_code c < 128) (dumps_items l js)"
  "list_all (\<lambda>c. char_code c < 128) (dumps_members l kvs)"
proof (induction l j and l js and l kvs rule: dumps_dumps_items_dumps_members.induct)
  case (3 l i)
  then show ?case using show_nat_ascii by (auto simp: show_int_def char_code_def)
next
  case (8 l x xs)
  then show ?case by (cases l) (auto simp: char_code_def)
next
  case (10 l k v kvs)
  then show ?case using dumps_str_ascii by (cases l) (auto simp: char_code_def)
qed (use dumps_str_ascii in \<open>auto simp: char_code_def\<close>)

lemma loads_bytes_dumps [simp]: "loads_bytes (dumps l j) = Some j"
  by (simp add: loads_bytes_def utf8_ascii dumps_ascii)

lemma encoded_ascii: "list_all (\<lambda>c. char_code c < 128) (b64url_encode s)"
proof -
  have "char_code c < 128" if "b64url_char c" for c
    using that by (auto simp: b64url_char_def is_upper_def is_lower_def is_digit_def char_code_def)
  then show ?thesis using b64url_encode_chars by (auto simp: list_all_iff)
qed

lemma binding_verifies:
  assumes "alg \<in> set HMAC_ALGS" "json_equal bound outer_jwk"
  shows "verify_eab jo (sign_hmac jo mac_key (JObj [(''alg'', JStr alg), (''kid'', JStr kid), (''url'', JStr url)]) bound alg) mac_key url outer_jwk = Inr ()"
proof -
  let ?h = "JObj [(''alg'', JStr alg), (''kid'', JStr kid), (''url'', JStr url)]"
  let ?e = "sign_hmac jo mac_key ?h bound alg"
  have parts: "jget ''protected'' ?e = Some (JStr (b64url_encode (dumps Compact ?h)))" "jget ''payload'' ?e = Some (JStr (b64url_encode (dumps Compact bound)))"
    "jget ''signature'' ?e = Some (JStr (b64url_encode (jo_hmac jo alg mac_key (b64url_encode (dumps Compact ?h) @ CHR ''.'' # b64url_encode (dumps Compact bound)))))"
    "is_obj ?e"
    by (simp_all add: sign_hmac_def Let_def jget_def is_obj_def del: dumps.simps)
  have header: "eab_header ?e = Inr ?h"
    by (simp add: eab_header_def parts str_member_def member_def decode_encode caught_def and_then_def del: dumps.simps)
  have mac: "eab_mac_ok jo ?e mac_key alg outer_jwk = Inr ()"
    using assms(2) encoded_ascii
    by (simp add: eab_mac_ok_def parts member_def decode_encode caught_def and_then_def signing_input_def del: dumps.simps)
  show ?thesis using assms(1) mac
    by (simp add: verify_eab_def header and_then_def is_obj_def jget_def)
qed

text \<open>
  A binding made with the MAC key verifies under that key, for the URL and the
  account key it names; any order of the members of the JWK will do.
\<close>

theorem eab_roundtrip:
  assumes "alg \<in> set HMAC_ALGS" "json_equal bound outer_jwk"
  shows "verify_eab jo (sign_hmac jo mac_key (JObj [(''alg'', JStr alg), (''kid'', JStr kid), (''url'', JStr url)]) bound alg) mac_key url outer_jwk = Inr ()"
  by (rule binding_verifies [OF assms])

theorem eab_roundtrip_witness:
  "verify_eab jo (sign_hmac jo mac_key (JObj [(''alg'', JStr ''HS256''), (''kid'', JStr ''k''), (''url'', JStr ''u'')])
     (JObj [(''kty'', JStr ''RSA''), (''n'', JStr ''AQ''), (''e'', JStr ''Aw'')]) ''HS256'') mac_key ''u''
     (JObj [(''e'', JStr ''Aw''), (''kty'', JStr ''RSA''), (''n'', JStr ''AQ'')]) = Inr ()"
proof -
  have "json_equal (JObj [(''kty'', JStr ''RSA''), (''n'', JStr ''AQ''), (''e'', JStr ''Aw'')])
      (JObj [(''e'', JStr ''Aw''), (''kty'', JStr ''RSA''), (''n'', JStr ''AQ'')])"
    unfolding json_equal_def by code_simp
  then show ?thesis by (intro eab_roundtrip) (simp_all add: HMAC_ALGS_def)
qed

end
