(* ===== verification/Acme_Refines.thy ===== *)
theory Acme_Refines
  imports Acme_Requests Acme_Protocol Acme_Jws_Claims Issuance_Facts
begin

text \<open>
  The tables of the ACME server as a state of the abstract protocol, the
  invariant of the tables, and the proof that every operation keeps the
  invariant and moves the abstract state by steps of the protocol.
\<close>

section \<open>The form in which names are compared\<close>

text \<open>Names are equal up to letter case, surrounding white space and dots at the end.\<close>

definition dot_or_space :: "char \<Rightarrow> bool" where
  "dot_or_space c \<longleftrightarrow> c = CHR ''.'' \<or> is_space c"

definition canonical_name :: "string \<Rightarrow> string" where
  "canonical_name v = lstrip_by is_space (rstrip_by dot_or_space (lower_str v))"

lemma rstrip_rstrip:
  assumes "\<And>c. q c \<Longrightarrow> p c"
  shows "rstrip_by p (rstrip_by q s) = rstrip_by p s"
proof -
  have "dropWhile p (dropWhile q t) = dropWhile p t" for t by (induction t) (auto simp: assms)
  then show ?thesis by (simp add: rstrip_by_def)
qed

lemma rstrip_by_Nil: "rstrip_by p s = [] \<longleftrightarrow> list_all p s"
  by (auto simp: rstrip_by_def dropWhile_eq_Nil_conv list_all_iff)

lemma rstrip_by_append: "rstrip_by p (s @ t) = (if list_all p t then rstrip_by p s else s @ rstrip_by p t)"
  by (auto simp: rstrip_by_def list_all_iff dropWhile_append)

lemma lstrip_split: "\<exists>s. list_all p s \<and> w = s @ lstrip_by p w"
  by (intro exI [of _ "takeWhile p w"]) (auto simp: lstrip_by_def list_all_iff dest: set_takeWhileD)

lemma lstrip_rstrip_lstrip:
  assumes "\<And>c. p c \<Longrightarrow> q c"
  shows "lstrip_by p (rstrip_by q (lstrip_by p w)) = lstrip_by p (rstrip_by q w)"
proof -
  obtain s where s: "list_all p s" "w = s @ lstrip_by p w" using lstrip_split by blast
  have drop: "lstrip_by p (s @ t) = lstrip_by p t" for t using s(1) by (simp add: lstrip_by_def list_all_iff dropWhile_append2)
  show ?thesis
  proof (cases "list_all q (lstrip_by p w)")
    case True
    with s assms have "list_all q w" by (metis list_all_append list_all_iff)
    with True show ?thesis by (simp add: rstrip_by_Nil [THEN iffD2])
  next
    case False
    then have "rstrip_by q w = s @ rstrip_by q (lstrip_by p w)" by (metis s(2) rstrip_by_append)
    then show ?thesis by (simp add: drop)
  qed
qed

lemma lower_char_class: "is_space (lower_char c) = is_space c" "lower_char c = CHR ''.'' \<longleftrightarrow> c = CHR ''.''"
proof -
  show "is_space (lower_char c) = is_space c"
    by (auto simp: lower_char_def is_upper_def is_space_def code_char_of)
  have "char_code (CHR ''.'') = 46" by (simp add: char_code_def)
  then show "lower_char c = CHR ''.'' \<longleftrightarrow> c = CHR ''.''"
    unfolding char_eq_code by (auto simp: lower_char_def is_upper_def code_char_of)
qed

lemma strip_map:
  assumes "\<And>c. p (f c) = p c"
  shows "lstrip_by p (map f s) = map f (lstrip_by p s)" "rstrip_by p (map f s) = map f (rstrip_by p s)"
proof -
  have drop: "dropWhile p (map f t) = map f (dropWhile p t)" for t using assms by (induction t) auto
  then show "lstrip_by p (map f s) = map f (lstrip_by p s)" by (simp add: lstrip_by_def)
  show "rstrip_by p (map f s) = map f (rstrip_by p s)" by (simp add: rstrip_by_def drop rev_map)
qed

lemma lower_strip_by:
  assumes "\<And>c. p (lower_char c) = p c"
  shows "lower_str (rstrip_by p s) = rstrip_by p (lower_str s)" "lower_str (lstrip_by p s) = lstrip_by p (lower_str s)"
  using assms by (simp_all add: lower_str_def strip_map)

lemma canonical_name_dots: "canonical_name (rstrip_dots (lower_str v)) = canonical_name v"
  by (simp add: canonical_name_def rstrip_dots_def lower_strip_by lower_char_class rstrip_rstrip dot_or_space_def)

lemma canonical_name_strip: "canonical_name (strip_str v) = canonical_name v"
  by (simp add: canonical_name_def strip_str_def lower_strip_by lower_char_class rstrip_rstrip dot_or_space_def lstrip_rstrip_lstrip)

section \<open>The abstract state\<close>

definition order_state :: "string \<Rightarrow> order_state" where
  "order_state s = (if s = ''pending'' then Order_pending else if s = ''ready'' then Order_ready
     else if s = ''processing'' then Order_processing else if s = ''valid'' then Order_valid else Order_invalid)"

definition authz_state :: "string \<Rightarrow> authz_state" where
  "authz_state s = (if s = ''pending'' then Authz_open else if s = ''valid'' then Authz_valid else Authz_closed)"

definition order_view :: "acme_order \<Rightarrow> nat \<times> string set \<times> order_state" where
  "order_view r = (ao_account r, set (ao_identifiers r), order_state (ao_status r))"

definition authz_view :: "acme_authz \<Rightarrow> nat \<times> string \<times> authz_state" where
  "authz_view z = (az_order z, display_identifier z, authz_state (az_status z))"

text \<open>The certificates issued through ACME: the account and the names.\<close>

definition cert_view :: "cert_row \<Rightarrow> (nat \<times> (string \<times> string) set) option" where
  "cert_view c = (if ct_source c = Some ''acme'' then map_option (\<lambda>a. (a, set (x_san (ct_cert c)))) (ct_acme_account c) else None)"

definition acme_certs :: "pki \<Rightarrow> nat \<Rightarrow> (nat \<times> (string \<times> string) set) option" where
  "acme_certs p n = Option.bind (get_row ct_id n (p_certs p)) cert_view"

definition protocol_of :: "(nat \<times> string) set \<Rightarrow> acme \<Rightarrow> protocol" where
  "protocol_of proved st =
     \<lparr>pr_orders = \<lambda>i. map_option order_view (get_order i st), pr_authzs = \<lambda>i. map_option authz_view (get_authz i st),
      pr_certs = acme_certs (ac_pki st), pr_proved = proved\<rparr>"

text \<open>
  What counts as a proof: with the key of the account and a token of the tables,
  the network answers the lookup of the TXT record, or, for a name that is no
  wildcard, the request for the file.
\<close>

definition controls :: "acme_env \<Rightarrow> json \<Rightarrow> string \<Rightarrow> string \<Rightarrow> bool" where
  "controls ae jwk token name \<longleftrightarrow>
     (case key_authorization (ae_jose ae) token jwk of
        Inl _ \<Rightarrow> False
      | Inr ka \<Rightarrow>
          if startswith name ''*.'' then dns01_validate ae (drop 2 name) (txt_value (ae_jose ae) ka) = None
          else dns01_validate ae name (txt_value (ae_jose ae) ka) = None \<or> fetch_http01 ae name token ka = Inr None)"

definition proved_by :: "acme_env \<Rightarrow> acme \<Rightarrow> nat \<Rightarrow> string \<Rightarrow> bool" where
  "proved_by ae st a name \<longleftrightarrow>
     (\<exists>acct \<in> set (ac_accounts st). aa_id acct = a \<and> (\<exists>c \<in> set (ac_challs st). controls ae (aa_jwk acct) (ch_token c) name))"

section \<open>The invariant of the tables\<close>

definition ORDER_STATES :: "string set" where
  "ORDER_STATES = {''pending'', ''ready'', ''processing'', ''valid'', ''invalid''}"

definition AUTHZ_STATES :: "string set" where
  "AUTHZ_STATES = {''pending'', ''valid'', ''invalid'', ''deactivated'', ''expired''}"

definition CHALL_STATES :: "string set" where
  "CHALL_STATES = {''pending'', ''processing'', ''valid'', ''invalid''}"

definition ACCOUNT_STATES :: "string set" where
  "ACCOUNT_STATES = {''valid'', ''deactivated''}"

lemmas vocabulary = ORDER_STATES_def AUTHZ_STATES_def CHALL_STATES_def ACCOUNT_STATES_def

text \<open>The references of each table: which keys its rows may name.\<close>

definition account_key :: "acme_account \<Rightarrow> nat \<times> nat" where
  "account_key a = (aa_id a, aa_ca a)"

definition order_key :: "acme_order \<Rightarrow> nat \<times> nat \<times> nat" where
  "order_key r = (ao_id r, ao_account r, ao_ca r)"

definition authz_key :: "acme_authz \<Rightarrow> nat \<times> bool" where
  "authz_key z = (az_id z, az_wildcard z)"

definition account_ok :: "acme_account \<Rightarrow> bool" where
  "account_ok a \<longleftrightarrow> aa_status a \<in> ACCOUNT_STATES"

definition order_ok :: "(nat \<times> nat) set \<Rightarrow> acme_order \<Rightarrow> bool" where
  "order_ok accounts r \<longleftrightarrow> ao_status r \<in> ORDER_STATES \<and> (ao_account r, ao_ca r) \<in> accounts"

definition authz_ok :: "(nat \<times> nat \<times> nat) set \<Rightarrow> acme_authz \<Rightarrow> bool" where
  "authz_ok orders z \<longleftrightarrow> az_status z \<in> AUTHZ_STATES \<and> az_wildcard z = startswith (display_identifier z) ''*.''
     \<and> (az_order z, az_account z, az_ca z) \<in> orders"

definition chall_ok :: "(nat \<times> bool) set \<Rightarrow> acme_challenge \<Rightarrow> bool" where
  "chall_ok authzs c \<longleftrightarrow> ch_status c \<in> CHALL_STATES \<and> (\<exists>w. (ch_authz c, w) \<in> authzs \<and> (w \<longrightarrow> ch_type c = ''dns-01''))"

lemmas row_ok_defs = account_ok_def order_ok_def authz_ok_def chall_ok_def account_key_def order_key_def authz_key_def

definition keys_unique :: "acme \<Rightarrow> bool" where
  "keys_unique st \<longleftrightarrow> wf_table ek_id (ac_eabs st) \<and> wf_table aa_id (ac_accounts st) \<and> wf_table ao_id (ac_orders st)
     \<and> wf_table az_id (ac_authzs st) \<and> wf_table ch_id (ac_challs st) \<and> distinct (map fst (ac_nonces st)) \<and> wf_csrs (ac_pki st)"

definition rows_ok :: "acme \<Rightarrow> bool" where
  "rows_ok st \<longleftrightarrow> list_all account_ok (ac_accounts st)
     \<and> list_all (order_ok (account_key ` set (ac_accounts st))) (ac_orders st)
     \<and> list_all (authz_ok (order_key ` set (ac_orders st))) (ac_authzs st)
     \<and> list_all (chall_ok (authz_key ` set (ac_authzs st))) (ac_challs st)"

definition wf_acme :: "acme \<Rightarrow> bool" where
  "wf_acme st \<longleftrightarrow> keys_unique st \<and> rows_ok st"

section \<open>Tables under updates\<close>

lemma wf_table_map:
  assumes "\<And>x. x \<in> set t \<Longrightarrow> k (f x) = k x"
  shows "wf_table k (map f t) = wf_table k t"
proof -
  have "map (k \<circ> f) t = map k t" using assms by (intro map_cong) simp_all
  then show ?thesis by (simp only: wf_table_def map_map)
qed

lemma wf_table_unique: "wf_table k t \<Longrightarrow> get_row k i t = Some r \<Longrightarrow> x \<in> set t \<Longrightarrow> k x = i \<Longrightarrow> x = r"
  using get_row_in [of k t x] by simp

lemma put_row_as_map:
  assumes "wf_table k t" "get_row k i t = Some old" "k r = i"
  shows "put_row k r t = map (\<lambda>x. if x = old then r else x) t"
proof -
  have "k x = k r \<longleftrightarrow> x = old" if "x \<in> set t" for x
    using wf_table_unique [OF assms(1,2) that] get_row_key [OF assms(2)] assms(3) by auto
  then show ?thesis unfolding put_row_def by simp
qed

lemma image_keys: "(\<And>x. x \<in> set t \<Longrightarrow> k (f x) = k x) \<Longrightarrow> k ` f ` set t = k ` set t"
  by (simp add: image_image)

lemma list_all_map_keep: "list_all P t \<Longrightarrow> (\<And>x. x \<in> set t \<Longrightarrow> P x \<Longrightarrow> Q (f x)) \<Longrightarrow> list_all Q (map f t)"
  by (simp add: list_all_iff)

definition order_edit :: "(acme_order \<Rightarrow> acme_order) \<Rightarrow> acme_order \<Rightarrow> bool" where
  "order_edit f r \<longleftrightarrow> order_key (f r) = order_key r \<and> ao_identifiers (f r) = ao_identifiers r \<and> ao_status (f r) \<in> ORDER_STATES"

definition authz_edit :: "(acme_authz \<Rightarrow> acme_authz) \<Rightarrow> acme_authz \<Rightarrow> bool" where
  "authz_edit f z \<longleftrightarrow> authz_key (f z) = authz_key z \<and> az_order (f z) = az_order z \<and> az_account (f z) = az_account z \<and> az_ca (f z) = az_ca z
     \<and> az_value (f z) = az_value z \<and> az_status (f z) \<in> AUTHZ_STATES"

definition chall_edit :: "(acme_challenge \<Rightarrow> acme_challenge) \<Rightarrow> acme_challenge \<Rightarrow> bool" where
  "chall_edit f c \<longleftrightarrow> ch_id (f c) = ch_id c \<and> ch_authz (f c) = ch_authz c \<and> ch_type (f c) = ch_type c \<and> ch_token (f c) = ch_token c
     \<and> ch_status (f c) \<in> CHALL_STATES"

definition account_edit :: "(acme_account \<Rightarrow> acme_account) \<Rightarrow> acme_account \<Rightarrow> bool" where
  "account_edit f a \<longleftrightarrow> account_key (f a) = account_key a \<and> aa_status (f a) \<in> ACCOUNT_STATES"

lemmas edit_defs = order_edit_def authz_edit_def chall_edit_def account_edit_def

lemma rows_vocabulary:
  assumes "wf_acme st"
  shows "r \<in> set (ac_orders st) \<Longrightarrow> ao_status r \<in> ORDER_STATES" "z \<in> set (ac_authzs st) \<Longrightarrow> az_status z \<in> AUTHZ_STATES"
    "c \<in> set (ac_challs st) \<Longrightarrow> ch_status c \<in> CHALL_STATES" "a \<in> set (ac_accounts st) \<Longrightarrow> aa_status a \<in> ACCOUNT_STATES"
  using assms by (auto simp: wf_acme_def rows_ok_def list_all_iff order_ok_def authz_ok_def chall_ok_def account_ok_def)

lemma wf_map_orders:
  assumes "wf_acme st" "\<And>r. r \<in> set (ac_orders st) \<Longrightarrow> order_edit f r"
  shows "wf_acme (st\<lparr>ac_orders := map f (ac_orders st)\<rparr>)"
proof -
  have k: "ao_id (f r) = ao_id r" "order_key (f r) = order_key r" "ao_account (f r) = ao_account r" "ao_ca (f r) = ao_ca r"
    "ao_status (f r) \<in> ORDER_STATES" if "r \<in> set (ac_orders st)" for r
    using assms(2) [OF that] by (auto simp: order_edit_def order_key_def)
  have img: "order_key ` f ` set (ac_orders st) = order_key ` set (ac_orders st)" by (rule image_keys) (rule k(2))
  show ?thesis using assms(1) k(1) k(3-5)
    by (auto simp: wf_acme_def keys_unique_def rows_ok_def wf_table_map img list_all_iff order_ok_def)
qed

lemma wf_map_authzs:
  assumes "wf_acme st" "\<And>z. z \<in> set (ac_authzs st) \<Longrightarrow> authz_edit f z"
  shows "wf_acme (st\<lparr>ac_authzs := map f (ac_authzs st)\<rparr>)"
proof -
  have k: "az_id (f z) = az_id z" "authz_key (f z) = authz_key z" "az_order (f z) = az_order z" "az_account (f z) = az_account z"
    "az_ca (f z) = az_ca z" "az_wildcard (f z) = az_wildcard z" "display_identifier (f z) = display_identifier z" "az_status (f z) \<in> AUTHZ_STATES"
    if "z \<in> set (ac_authzs st)" for z
    using assms(2) [OF that] by (auto simp: authz_edit_def authz_key_def display_identifier_def)
  have img: "authz_key ` f ` set (ac_authzs st) = authz_key ` set (ac_authzs st)" by (rule image_keys) (rule k(2))
  show ?thesis using assms(1) k(1) k(3-8)
    by (auto simp: wf_acme_def keys_unique_def rows_ok_def wf_table_map img list_all_iff authz_ok_def)
qed

lemma wf_map_challs:
  assumes "wf_acme st" "\<And>c. c \<in> set (ac_challs st) \<Longrightarrow> chall_edit f c"
  shows "wf_acme (st\<lparr>ac_challs := map f (ac_challs st)\<rparr>)"
proof -
  have k: "ch_id (f c) = ch_id c" "ch_authz (f c) = ch_authz c" "ch_type (f c) = ch_type c" "ch_status (f c) \<in> CHALL_STATES"
    if "c \<in> set (ac_challs st)" for c
    using assms(2) [OF that] by (auto simp: chall_edit_def)
  show ?thesis using assms(1) k
    by (auto simp: wf_acme_def keys_unique_def rows_ok_def wf_table_map list_all_iff chall_ok_def)
qed

lemma wf_map_accounts:
  assumes "wf_acme st" "\<And>a. a \<in> set (ac_accounts st) \<Longrightarrow> account_edit f a"
  shows "wf_acme (st\<lparr>ac_accounts := map f (ac_accounts st)\<rparr>)"
proof -
  have k: "aa_id (f a) = aa_id a" "account_key (f a) = account_key a" "aa_status (f a) \<in> ACCOUNT_STATES"
    if "a \<in> set (ac_accounts st)" for a
    using assms(2) [OF that] by (auto simp: account_edit_def account_key_def)
  have img: "account_key ` f ` set (ac_accounts st) = account_key ` set (ac_accounts st)" by (rule image_keys) (rule k(2))
  show ?thesis using assms(1) k(1,3)
    by (auto simp: wf_acme_def keys_unique_def rows_ok_def wf_table_map img list_all_iff account_ok_def)
qed

text \<open>The tables outside the protocol.\<close>

lemma wf_other_tables:
  "wf_acme st \<Longrightarrow> wf_csrs p \<Longrightarrow> wf_acme (st\<lparr>ac_pki := p\<rparr>)"
  "wf_acme st \<Longrightarrow> distinct (map fst ns) \<Longrightarrow> wf_acme (st\<lparr>ac_nonces := ns\<rparr>)"
  "wf_acme st \<Longrightarrow> wf_table ek_id es \<Longrightarrow> wf_acme (st\<lparr>ac_eabs := es\<rparr>)"
  by (simp_all add: wf_acme_def keys_unique_def rows_ok_def)

section \<open>Steps of the protocol\<close>

text \<open>From \<open>st\<close>, the state \<open>st'\<close> is well formed and reached by steps of the protocol under the proofs \<open>C\<close>.\<close>

definition refines :: "(nat \<Rightarrow> string \<Rightarrow> bool) \<Rightarrow> acme \<Rightarrow> acme \<Rightarrow> bool" where
  "refines C st st' \<longleftrightarrow> wf_acme st' \<and> (\<forall>P. \<exists>Q. rfc_steps canonical_name C (protocol_of P st) (protocol_of Q st'))"

lemma refines_wf: "refines C st st' \<Longrightarrow> wf_acme st'"
  by (simp add: refines_def)

lemma refines_trans: "refines C a b \<Longrightarrow> refines C b c \<Longrightarrow> refines C a c"
  unfolding refines_def by (meson rtranclp_trans)

lemma refines_same:
  assumes "wf_acme st'" "\<And>i. map_option order_view (get_order i st') = map_option order_view (get_order i st)"
    "\<And>i. map_option authz_view (get_authz i st') = map_option authz_view (get_authz i st)" "acme_certs (ac_pki st') = acme_certs (ac_pki st)"
  shows "refines C st st'"
  using assms by (auto simp: refines_def protocol_of_def)

lemma refines_refl: "wf_acme st \<Longrightarrow> refines C st st"
  by (rule refines_same) simp_all

lemma refines_step:
  assumes "wf_acme st'" "\<And>P. \<exists>Q. rfc_step canonical_name C (protocol_of P st) (protocol_of Q st')"
  shows "refines C st st'"
  using assms unfolding refines_def by (meson r_into_rtranclp)

lemma get_order_map:
  assumes "\<And>r. r \<in> set (ac_orders st) \<Longrightarrow> order_edit f r"
  shows "get_order i (st\<lparr>ac_orders := map f (ac_orders st)\<rparr>) = map_option f (get_order i st)"
  unfolding get_order_def by (simp, rule get_row_map) (use assms in \<open>simp add: order_edit_def order_key_def\<close>)

lemma get_authz_map:
  assumes "\<And>z. z \<in> set (ac_authzs st) \<Longrightarrow> authz_edit f z"
  shows "get_authz i (st\<lparr>ac_authzs := map f (ac_authzs st)\<rparr>) = map_option f (get_authz i st)"
  unfolding get_authz_def by (simp, rule get_row_map) (use assms in \<open>simp add: authz_edit_def authz_key_def\<close>)

lemma get_mem:
  "get_order i st = Some r \<Longrightarrow> r \<in> set (ac_orders st) \<and> ao_id r = i"
  "get_authz i st = Some z \<Longrightarrow> z \<in> set (ac_authzs st) \<and> az_id z = i"
  "get_chall i st = Some c \<Longrightarrow> c \<in> set (ac_challs st) \<and> ch_id c = i"
  "get_account i st = Some a \<Longrightarrow> a \<in> set (ac_accounts st) \<and> aa_id a = i"
  by (simp_all add: get_order_def get_authz_def get_chall_def get_account_def get_row_Some)

lemma put_as_map:
  assumes "wf_acme st"
  shows "get_order i st = Some r \<Longrightarrow> ao_id r' = i \<Longrightarrow> put_order r' st = st\<lparr>ac_orders := map (\<lambda>x. if x = r then r' else x) (ac_orders st)\<rparr>"
    "get_authz i st = Some z \<Longrightarrow> az_id z' = i \<Longrightarrow> put_authz z' st = st\<lparr>ac_authzs := map (\<lambda>x. if x = z then z' else x) (ac_authzs st)\<rparr>"
    "get_chall i st = Some c \<Longrightarrow> ch_id c' = i \<Longrightarrow> put_chall c' st = st\<lparr>ac_challs := map (\<lambda>x. if x = c then c' else x) (ac_challs st)\<rparr>"
    "get_account i st = Some a \<Longrightarrow> aa_id a' = i \<Longrightarrow> put_account a' st = st\<lparr>ac_accounts := map (\<lambda>x. if x = a then a' else x) (ac_accounts st)\<rparr>"
  using assms by (auto simp: put_order_def put_authz_def put_chall_def put_account_def get_order_def get_authz_def get_chall_def
      get_account_def wf_acme_def keys_unique_def intro!: arg_cong2 [where f = "\<lambda>x y. y\<lparr>ac_orders := x\<rparr>"] dest: put_row_as_map)

text \<open>Cancelling orders and closing authorizations nobody has proved.\<close>

definition order_cancelled :: "acme_order \<Rightarrow> acme_order \<Rightarrow> bool" where
  "order_cancelled r r' \<longleftrightarrow> order_view r' = order_view r
     \<or> (ao_status r \<in> {''pending'', ''ready'', ''processing''} \<and> ao_status r' = ''invalid'')"

definition authz_lapsed :: "acme_authz \<Rightarrow> acme_authz \<Rightarrow> bool" where
  "authz_lapsed z z' \<longleftrightarrow> authz_view z' = authz_view z \<or> (az_status z = ''pending'' \<and> authz_state (az_status z') = Authz_closed)"

lemma refines_orders:
  assumes "wf_acme st" "\<And>r. r \<in> set (ac_orders st) \<Longrightarrow> order_edit f r \<and> order_cancelled r (f r)"
  shows "refines C st (st\<lparr>ac_orders := map f (ac_orders st)\<rparr>)"
proof (rule refines_step)
  let ?st = "st\<lparr>ac_orders := map f (ac_orders st)\<rparr>"
  show "wf_acme ?st" using assms by (auto intro: wf_map_orders)
  fix P
  have get: "get_order i ?st = map_option f (get_order i st)" for i using assms(2) by (auto intro: get_order_map)
  have view: "order_view (f r) = order_view r \<or> (\<exists>a ns s. order_view r = (a, ns, s) \<and> \<not> final_state s \<and> order_view (f r) = (a, ns, Order_invalid))"
    if "get_order i st = Some r" for i r
  proof (cases "order_view (f r) = order_view r")
    case False
    then show ?thesis using assms(2) [of r] get_mem(1) [OF that]
      by (auto simp: order_cancelled_def order_view_def order_edit_def order_key_def final_state_def order_state_def)
  qed simp
  have "cancelled (pr_orders (protocol_of P st)) (\<lambda>i. map_option order_view (get_order i ?st))"
    unfolding cancelled_def
  proof
    fix i
    show "map_option order_view (get_order i ?st) = pr_orders (protocol_of P st) i \<or>
      (\<exists>a ns s. pr_orders (protocol_of P st) i = Some (a, ns, s) \<and> \<not> final_state s \<and> map_option order_view (get_order i ?st) = Some (a, ns, Order_invalid))"
      using view [of i] by (cases "get_order i st") (auto simp: get protocol_of_def)
  qed
  then have "rfc_step canonical_name C (protocol_of P st) ((protocol_of P st)\<lparr>pr_orders := \<lambda>i. map_option order_view (get_order i ?st)\<rparr>)"
    by (rule rfc_step.cancel)
  moreover have "(protocol_of P st)\<lparr>pr_orders := \<lambda>i. map_option order_view (get_order i ?st)\<rparr> = protocol_of P ?st"
    by (simp add: protocol_of_def get_authz_def)
  ultimately show "\<exists>Q. rfc_step canonical_name C (protocol_of P st) (protocol_of Q ?st)" by metis
qed

lemma refines_authzs:
  assumes "wf_acme st" "\<And>z. z \<in> set (ac_authzs st) \<Longrightarrow> authz_edit f z \<and> authz_lapsed z (f z)"
  shows "refines C st (st\<lparr>ac_authzs := map f (ac_authzs st)\<rparr>)"
proof (rule refines_step)
  let ?st = "st\<lparr>ac_authzs := map f (ac_authzs st)\<rparr>"
  show "wf_acme ?st" using assms by (auto intro: wf_map_authzs)
  fix P
  have get: "get_authz i ?st = map_option f (get_authz i st)" for i using assms(2) by (auto intro: get_authz_map)
  have view: "authz_view (f z) = authz_view z \<or> (\<exists>j n. authz_view z = (j, n, Authz_open) \<and> authz_view (f z) = (j, n, Authz_closed))"
    if "get_authz i st = Some z" for i z
  proof (cases "authz_view (f z) = authz_view z")
    case False
    then have "az_status z = ''pending''" "authz_state (az_status (f z)) = Authz_closed" "authz_edit f z"
      using assms(2) [of z] get_mem(2) [OF that] by (auto simp: authz_lapsed_def)
    then have "authz_view z = (az_order z, display_identifier z, Authz_open)" "authz_view (f z) = (az_order z, display_identifier z, Authz_closed)"
      by (simp_all add: authz_view_def authz_edit_def authz_key_def authz_state_def display_identifier_def)
    then show ?thesis by blast
  qed simp
  have "lapsed (pr_authzs (protocol_of P st)) (\<lambda>i. map_option authz_view (get_authz i ?st))"
    unfolding lapsed_def
  proof
    fix i
    show "map_option authz_view (get_authz i ?st) = pr_authzs (protocol_of P st) i \<or>
      (\<exists>j n. pr_authzs (protocol_of P st) i = Some (j, n, Authz_open) \<and> map_option authz_view (get_authz i ?st) = Some (j, n, Authz_closed))"
      using view [of i] by (cases "get_authz i st") (auto simp: get protocol_of_def)
  qed
  then have "rfc_step canonical_name C (protocol_of P st) ((protocol_of P st)\<lparr>pr_authzs := \<lambda>i. map_option authz_view (get_authz i ?st)\<rparr>)"
    by (rule rfc_step.lapse)
  moreover have "(protocol_of P st)\<lparr>pr_authzs := \<lambda>i. map_option authz_view (get_authz i ?st)\<rparr> = protocol_of P ?st"
    by (simp add: protocol_of_def get_order_def)
  ultimately show "\<exists>Q. rfc_step canonical_name C (protocol_of P st) (protocol_of Q ?st)" by metis
qed

text \<open>Changes of one row.\<close>

lemma refines_put_order:
  assumes "wf_acme st" "get_order i st = Some r" "order_key r' = order_key r" "ao_identifiers r' = ao_identifiers r"
    "ao_status r' \<in> ORDER_STATES" "order_cancelled r r'"
  shows "refines C st (put_order r' st)"
proof -
  have "ao_id r' = i" using assms(3) get_mem(1) [OF assms(2)] by (simp add: order_key_def)
  note eq = put_as_map(1) [OF assms(1,2) this]
  have "order_edit (\<lambda>x. if x = r then r' else x) x \<and> order_cancelled x (if x = r then r' else x)" if "x \<in> set (ac_orders st)" for x
    using assms(3-6) rows_vocabulary(1) [OF assms(1) that] by (simp add: order_edit_def order_cancelled_def)
  then show ?thesis unfolding eq by (rule refines_orders [OF assms(1)])
qed

lemma refines_put_authz:
  assumes "wf_acme st" "get_authz i st = Some z" "z' = z\<lparr>az_status := s\<rparr>" "s \<in> AUTHZ_STATES" "authz_lapsed z z'"
  shows "refines C st (put_authz z' st)"
proof -
  have "az_id z' = i" using assms(3) get_mem(2) [OF assms(2)] by simp
  note eq = put_as_map(2) [OF assms(1,2) this]
  have "authz_edit (\<lambda>x. if x = z then z' else x) x \<and> authz_lapsed x (if x = z then z' else x)" if "x \<in> set (ac_authzs st)" for x
    using assms(3-5) rows_vocabulary(2) [OF assms(1) that] by (simp add: authz_edit_def authz_lapsed_def authz_key_def)
  then show ?thesis unfolding eq by (rule refines_authzs [OF assms(1)])
qed

lemma refines_put_chall:
  assumes "wf_acme st" "get_chall i st = Some c" "chall_edit (\<lambda>_. c') c"
  shows "refines C st (put_chall c' st)"
proof -
  have "ch_id c' = i" using assms(3) get_mem(3) [OF assms(2)] by (simp add: chall_edit_def)
  note eq = put_as_map(3) [OF assms(1,2) this]
  have "chall_edit (\<lambda>x. if x = c then c' else x) x" if "x \<in> set (ac_challs st)" for x
    using assms(3) rows_vocabulary(3) [OF assms(1) that] by (simp add: chall_edit_def)
  then show ?thesis unfolding eq by (intro refines_same wf_map_challs [OF assms(1)]) (auto simp: get_order_def get_authz_def)
qed

lemma refines_put_account:
  assumes "wf_acme st" "get_account i st = Some a" "account_edit (\<lambda>_. a') a"
  shows "refines C st (put_account a' st)"
proof -
  have "aa_id a' = i" using assms(3) get_mem(4) [OF assms(2)] by (simp add: account_edit_def account_key_def)
  note eq = put_as_map(4) [OF assms(1,2) this]
  have "account_edit (\<lambda>x. if x = a then a' else x) x" if "x \<in> set (ac_accounts st)" for x
    using assms(3) rows_vocabulary(4) [OF assms(1) that] by (simp add: account_edit_def)
  then show ?thesis unfolding eq by (intro refines_same wf_map_accounts [OF assms(1)]) (auto simp: get_order_def get_authz_def)
qed

lemma refines_pki:
  assumes "wf_acme st" "wf_csrs p" "acme_certs p = acme_certs (ac_pki st)"
  shows "refines C st (st\<lparr>ac_pki := p\<rparr>)"
  using assms by (intro refines_same wf_other_tables) (auto simp: get_order_def get_authz_def)

lemma acme_certs_cong: "p_certs p = p_certs q \<Longrightarrow> acme_certs p = acme_certs q"
  by (simp add: acme_certs_def fun_eq_iff)

lemma wf_csrs_of: "wf_acme st \<Longrightarrow> wf_csrs (ac_pki st)"
  by (simp add: wf_acme_def keys_unique_def)

lemma refines_log:
  assumes "refines C st st'"
  shows "refines C st (acme_log ae action tt i details st')"
proof (rule refines_trans [OF assms])
  show "refines C st' (acme_log ae action tt i details st')"
    unfolding acme_log_def using wf_csrs_of [OF refines_wf [OF assms]]
    by (intro refines_pki refines_wf [OF assms] acme_certs_cong) (simp_all add: wf_csrs_def)
qed

text \<open>The move of an order along the protocol; the row may also record its CSR, certificate or error.\<close>

lemma move_order:
  assumes "wf_acme st" "get_order i st = Some r" "order_key r' = order_key r" "ao_identifiers r' = ao_identifiers r" "ao_status r' \<in> ORDER_STATES"
  shows "wf_acme (put_order r' st)"
    "protocol_of P (put_order r' st) = (protocol_of P st)\<lparr>pr_orders := (pr_orders (protocol_of P st))(i \<mapsto> order_view r')\<rparr>"
proof -
  have i: "ao_id r' = i" using assms(3) get_mem(1) [OF assms(2)] by (simp add: order_key_def)
  note eq = put_as_map(1) [OF assms(1,2) i]
  show "wf_acme (put_order r' st)" unfolding eq
    using assms(3-5) rows_vocabulary(1) [OF assms(1)] by (intro wf_map_orders [OF assms(1)]) (auto simp: order_edit_def)
  have "get_order j (put_order r' st) = (if j = i then Some r' else get_order j st)" for j
    using i assms(2) by (auto simp: put_order_def get_order_def get_put_same get_put_other)
  then show "protocol_of P (put_order r' st) = (protocol_of P st)\<lparr>pr_orders := (pr_orders (protocol_of P st))(i \<mapsto> order_view r')\<rparr>"
    by (auto simp: protocol_of_def fun_eq_iff) (simp_all add: put_order_def get_authz_def)
qed

lemma refines_ready:
  assumes "wf_acme st" "get_order i st = Some r" "ao_status r = ''pending''" "list_all (\<lambda>s. s = ''valid'') (map az_status (authzs_of i st))"
  shows "refines C st (put_order (r\<lparr>ao_status := ''ready''\<rparr>) st)"
proof (rule refines_step)
  let ?r = "r\<lparr>ao_status := ''ready''\<rparr>"
  have r: "order_key ?r = order_key r" "ao_identifiers ?r = ao_identifiers r" "ao_status ?r \<in> ORDER_STATES"
    by (simp_all add: order_key_def ORDER_STATES_def)
  note m = move_order [OF assms(1,2) r]
  show "wf_acme (put_order ?r st)" by (rule m(1))
  fix P
  have "rfc_step canonical_name C (protocol_of P st) (protocol_of P (put_order ?r st))"
    unfolding m(2) order_view_def
  proof (simp add: order_state_def, rule rfc_step.ready)
    show "pr_orders (protocol_of P st) i = Some (ao_account r, set (ao_identifiers r), Order_pending)"
      using assms(2,3) by (simp add: protocol_of_def order_view_def order_state_def)
    show "\<forall>j n s. pr_authzs (protocol_of P st) j = Some (i, n, s) \<longrightarrow> s = Authz_valid"
    proof (intro allI impI)
      fix j n s
      assume "pr_authzs (protocol_of P st) j = Some (i, n, s)"
      then obtain z where z: "get_authz j st = Some z" "az_order z = i" "s = authz_state (az_status z)"
        by (auto simp: protocol_of_def authz_view_def)
      then have "z \<in> set (authzs_of i st)" using get_mem(2) by (simp add: authzs_of_def)
      with assms(4) z(3) show "s = Authz_valid" by (simp add: list_all_iff authz_state_def)
    qed
  qed
  then show "\<exists>Q. rfc_step canonical_name C (protocol_of P st) (protocol_of Q (put_order ?r st))" by blast
qed

lemma refines_start:
  assumes "wf_acme st" "get_order i st = Some r" "ao_status r = ''ready''" "order_key r' = order_key r" "ao_identifiers r' = ao_identifiers r"
    "ao_status r' = ''processing''"
  shows "refines C st (put_order r' st)"
proof (rule refines_step)
  have s: "ao_status r' \<in> ORDER_STATES" using assms(6) by (simp add: ORDER_STATES_def)
  note m = move_order [OF assms(1,2,4,5) s]
  show "wf_acme (put_order r' st)" by (rule m(1))
  fix P
  have "order_view r' = (ao_account r, set (ao_identifiers r), Order_processing)"
    using assms(4-6) by (simp add: order_view_def order_key_def order_state_def)
  moreover have "pr_orders (protocol_of P st) i = Some (ao_account r, set (ao_identifiers r), Order_ready)"
    using assms(2,3) by (simp add: protocol_of_def order_view_def order_state_def)
  ultimately have "rfc_step canonical_name C (protocol_of P st) (protocol_of P (put_order r' st))"
    unfolding m(2) by (simp add: rfc_step.start)
  then show "\<exists>Q. rfc_step canonical_name C (protocol_of P st) (protocol_of Q (put_order r' st))" by blast
qed

lemma refines_prove:
  assumes "wf_acme st" "get_authz j st = Some z" "az_status z = ''pending''" "C (az_account z) (display_identifier z)"
  shows "refines C st (put_authz (z\<lparr>az_status := ''valid''\<rparr>) st)"
proof (rule refines_step)
  let ?z = "z\<lparr>az_status := ''valid''\<rparr>"
  have j: "az_id ?z = j" using get_mem(2) [OF assms(2)] by simp
  note eq = put_as_map(2) [OF assms(1,2) j]
  show "wf_acme (put_authz ?z st)" unfolding eq
    using rows_vocabulary(2) [OF assms(1)] by (intro wf_map_authzs [OF assms(1)]) (auto simp: authz_edit_def authz_key_def AUTHZ_STATES_def)
  fix P
  obtain r where r: "r \<in> set (ac_orders st)" "ao_id r = az_order z" "ao_account r = az_account z"
    using assms(1) get_mem(2) [OF assms(2)] by (auto simp: wf_acme_def rows_ok_def list_all_iff authz_ok_def order_key_def)
  then have o: "get_order (az_order z) st = Some r"
    using assms(1) get_row_in [of ao_id "ac_orders st" r] by (simp add: wf_acme_def keys_unique_def get_order_def)
  have "get_authz i (put_authz ?z st) = (if i = j then Some ?z else get_authz i st)" for i
    using j assms(2) by (auto simp: put_authz_def get_authz_def get_put_same get_put_other)
  then have "protocol_of (insert (az_account z, display_identifier z) P) (put_authz ?z st) = (protocol_of P st)
      \<lparr>pr_authzs := (pr_authzs (protocol_of P st))(j \<mapsto> (az_order z, display_identifier z, Authz_valid)),
       pr_proved := insert (az_account z, display_identifier z) (pr_proved (protocol_of P st))\<rparr>"
    by (auto simp: protocol_of_def fun_eq_iff authz_view_def authz_state_def display_identifier_def) (simp_all add: put_authz_def get_order_def)
  moreover have "pr_authzs (protocol_of P st) j = Some (az_order z, display_identifier z, Authz_open)"
    using assms(2,3) by (simp add: protocol_of_def authz_view_def authz_state_def)
  moreover have "pr_orders (protocol_of P st) (az_order z) = Some (az_account z, set (ao_identifiers r), order_state (ao_status r))"
    using o r by (simp add: protocol_of_def order_view_def)
  ultimately have "rfc_step canonical_name C (protocol_of P st) (protocol_of (insert (az_account z, display_identifier z) P) (put_authz ?z st))"
    using assms(4) by (simp add: rfc_step.prove)
  then show "\<exists>Q. rfc_step canonical_name C (protocol_of P st) (protocol_of Q (put_authz ?z st))" by blast
qed

end
