(* ===== verification/Acme_Simulation.thy ===== *)
theory Acme_Simulation
  imports Acme_Refines
begin

text \<open>
  Every operation of the ACME server moves the tables by steps of the abstract
  protocol.
\<close>

section \<open>What the operations on orders leave alone\<close>

definition frame :: "acme \<Rightarrow> acme \<Rightarrow> bool" where
  "frame st st' \<longleftrightarrow> ac_accounts st' = ac_accounts st \<and> ac_eabs st' = ac_eabs st
     \<and> map (\<lambda>r. (ao_id r, ao_account r)) (ac_orders st') = map (\<lambda>r. (ao_id r, ao_account r)) (ac_orders st)
     \<and> map (\<lambda>z. (az_id z, az_account z)) (ac_authzs st') = map (\<lambda>z. (az_id z, az_account z)) (ac_authzs st)
     \<and> map (\<lambda>c. (ch_id c, ch_authz c, ch_token c)) (ac_challs st') = map (\<lambda>c. (ch_id c, ch_authz c, ch_token c)) (ac_challs st)"

definition evolves :: "(nat \<Rightarrow> string \<Rightarrow> bool) \<Rightarrow> acme \<Rightarrow> acme \<Rightarrow> bool" where
  "evolves C st st' \<longleftrightarrow> refines C st st' \<and> frame st st'"

lemma evolves_trans: "evolves C a b \<Longrightarrow> evolves C b c \<Longrightarrow> evolves C a c"
  by (auto simp: evolves_def frame_def intro: refines_trans)

lemma evolves_refl: "wf_acme st \<Longrightarrow> evolves C st st"
  by (simp add: evolves_def frame_def refines_refl)

lemma evolves_refines: "evolves C st st' \<Longrightarrow> refines C st st'"
  by (simp add: evolves_def)

lemma evolves_wf: "evolves C st st' \<Longrightarrow> wf_acme st'"
  by (auto simp: evolves_def intro: refines_wf)

lemma get_row_frame:
  assumes "map (\<lambda>x. (k x, g x)) t' = map (\<lambda>x. (k x, g x)) t"
  shows "map_option g (get_row k i t') = map_option g (get_row k i t)"
proof -
  have "list_all2 (\<lambda>x y. k x = k y \<and> g x = g y) t' t" using assms by (simp add: list_all2_map1 list_all2_map2 flip: list.rel_eq)
  then show ?thesis by (induction rule: list_all2_induct) (auto simp: get_row_def)
qed

lemma frame_rows:
  assumes "frame st st'"
  shows "get_order i st' = Some r' \<Longrightarrow> \<exists>r. get_order i st = Some r \<and> ao_account r' = ao_account r"
    "get_authz i st' = Some z' \<Longrightarrow> \<exists>z. get_authz i st = Some z \<and> az_account z' = az_account z"
    "get_chall i st' = Some c' \<Longrightarrow> \<exists>c. get_chall i st = Some c \<and> ch_authz c' = ch_authz c"
    "get_account i st' = get_account i st"
proof -
  have o: "map_option ao_account (get_order i st') = map_option ao_account (get_order i st)"
    using assms get_row_frame [of ao_id ao_account "ac_orders st'" "ac_orders st"] by (simp add: frame_def get_order_def)
  then show "get_order i st' = Some r' \<Longrightarrow> \<exists>r. get_order i st = Some r \<and> ao_account r' = ao_account r" by (cases "get_order i st") auto
  have z: "map_option az_account (get_authz i st') = map_option az_account (get_authz i st)"
    using assms get_row_frame [of az_id az_account "ac_authzs st'" "ac_authzs st"] by (simp add: frame_def get_authz_def)
  then show "get_authz i st' = Some z' \<Longrightarrow> \<exists>z. get_authz i st = Some z \<and> az_account z' = az_account z" by (cases "get_authz i st") auto
  have c: "map_option (\<lambda>c. (ch_authz c, ch_token c)) (get_chall i st') = map_option (\<lambda>c. (ch_authz c, ch_token c)) (get_chall i st)"
    using assms get_row_frame [of ch_id "\<lambda>c. (ch_authz c, ch_token c)" "ac_challs st'" "ac_challs st"] by (simp add: frame_def get_chall_def)
  then show "get_chall i st' = Some c' \<Longrightarrow> \<exists>c. get_chall i st = Some c \<and> ch_authz c' = ch_authz c" by (cases "get_chall i st") auto
  show "get_account i st' = get_account i st" using assms by (simp add: frame_def get_account_def)
qed

lemma frame_proved: "frame st st' \<Longrightarrow> proved_by ae st' = proved_by ae st"
proof -
  assume f: "frame st st'"
  then have "map (\<lambda>x. snd (snd x)) (map (\<lambda>c. (ch_id c, ch_authz c, ch_token c)) (ac_challs st'))
      = map (\<lambda>x. snd (snd x)) (map (\<lambda>c. (ch_id c, ch_authz c, ch_token c)) (ac_challs st))" by (simp add: frame_def)
  then have "map ch_token (ac_challs st') = map ch_token (ac_challs st)" by (simp add: comp_def)
  then have "ch_token ` set (ac_challs st') = ch_token ` set (ac_challs st)" by (metis list.set_map)
  then have "(\<exists>c \<in> set (ac_challs st'). controls ae j (ch_token c) n) \<longleftrightarrow> (\<exists>c \<in> set (ac_challs st). controls ae j (ch_token c) n)" for j n
    by (metis (no_types, lifting) imageE image_eqI)
  then show ?thesis using f by (simp add: proved_by_def fun_eq_iff frame_def)
qed

lemma frame_map:
  "(\<And>r. r \<in> set (ac_orders st) \<Longrightarrow> order_key (f r) = order_key r) \<Longrightarrow> frame st (st\<lparr>ac_orders := map f (ac_orders st)\<rparr>)"
  "(\<And>z. z \<in> set (ac_authzs st) \<Longrightarrow> az_id (g z) = az_id z \<and> az_account (g z) = az_account z) \<Longrightarrow> frame st (st\<lparr>ac_authzs := map g (ac_authzs st)\<rparr>)"
  "(\<And>c. c \<in> set (ac_challs st) \<Longrightarrow> chall_edit h c) \<Longrightarrow> frame st (st\<lparr>ac_challs := map h (ac_challs st)\<rparr>)"
  by (auto simp: frame_def order_key_def chall_edit_def)

lemma evolves_orders:
  assumes "wf_acme st" "\<And>r. r \<in> set (ac_orders st) \<Longrightarrow> order_edit f r \<and> order_cancelled r (f r)"
  shows "evolves C st (st\<lparr>ac_orders := map f (ac_orders st)\<rparr>)"
  using refines_orders [OF assms] frame_map(1) [of st f] assms(2) by (simp add: evolves_def order_edit_def)

lemma evolves_authzs:
  assumes "wf_acme st" "\<And>z. z \<in> set (ac_authzs st) \<Longrightarrow> authz_edit f z \<and> authz_lapsed z (f z)"
  shows "evolves C st (st\<lparr>ac_authzs := map f (ac_authzs st)\<rparr>)"
  using refines_authzs [OF assms] frame_map(2) [of st f] assms(2) by (simp add: evolves_def authz_edit_def authz_key_def)

lemma frame_put_order: "wf_acme st \<Longrightarrow> get_order i st = Some r \<Longrightarrow> order_key r' = order_key r \<Longrightarrow> frame st (put_order r' st)"
  using put_as_map(1) [of st i r r'] get_mem(1) [of i st r] frame_map(1) [of st "\<lambda>x. if x = r then r' else x"] by (simp add: order_key_def)

lemma frame_put_authz: "wf_acme st \<Longrightarrow> get_authz i st = Some z \<Longrightarrow> frame st (put_authz (z\<lparr>az_status := s\<rparr>) st)"
  using put_as_map(2) [of st i z "z\<lparr>az_status := s\<rparr>"] get_mem(2) [of i st z] frame_map(2) [of st "\<lambda>x. if x = z then z\<lparr>az_status := s\<rparr> else x"]
  by simp

lemma frame_put_chall: "wf_acme st \<Longrightarrow> get_chall i st = Some c \<Longrightarrow> chall_edit (\<lambda>_. c') c \<Longrightarrow> frame st (put_chall c' st)"
  using put_as_map(3) [of st i c c'] get_mem(3) [of i st c] frame_map(3) [of st "\<lambda>x. if x = c then c' else x"] rows_vocabulary(3) [of st]
  by (simp add: chall_edit_def)

lemma frame_log: "frame st st' \<Longrightarrow> frame st (acme_log ae action tt i details st')"
  by (simp add: frame_def acme_log_def)

lemma evolves_put_order: "wf_acme st \<Longrightarrow> get_order i st = Some r \<Longrightarrow> order_key r' = order_key r \<Longrightarrow> ao_identifiers r' = ao_identifiers r
    \<Longrightarrow> ao_status r' \<in> ORDER_STATES \<Longrightarrow> order_cancelled r r' \<Longrightarrow> evolves C st (put_order r' st)"
  by (simp add: evolves_def refines_put_order frame_put_order)

lemma evolves_put_authz: "wf_acme st \<Longrightarrow> get_authz i st = Some z \<Longrightarrow> s \<in> AUTHZ_STATES \<Longrightarrow> authz_lapsed z (z\<lparr>az_status := s\<rparr>)
    \<Longrightarrow> evolves C st (put_authz (z\<lparr>az_status := s\<rparr>) st)"
  by (simp add: evolves_def refines_put_authz frame_put_authz)

lemma evolves_put_chall: "wf_acme st \<Longrightarrow> get_chall i st = Some c \<Longrightarrow> chall_edit (\<lambda>_. c') c \<Longrightarrow> evolves C st (put_chall c' st)"
  by (simp add: evolves_def refines_put_chall frame_put_chall)

lemma evolves_log: "evolves C st st' \<Longrightarrow> evolves C st (acme_log ae action tt i details st')"
  by (simp add: evolves_def refines_log frame_log)

section \<open>Refreshing orders and authorizations\<close>

lemma aged_authz_ok:
  assumes "az_status z \<in> AUTHZ_STATES"
  shows "authz_edit (aged_authz now) z" "authz_lapsed z (aged_authz now z)"
  using assms by (auto simp: aged_authz_def authz_edit_def authz_key_def authz_lapsed_def authz_state_def AUTHZ_STATES_def)

lemma age_authzs_evolves:
  assumes "wf_acme st"
  shows "evolves C st (age_authzs_of now i st)"
  unfolding age_authzs_of_def
proof (rule evolves_authzs [OF assms])
  fix z
  assume "z \<in> set (ac_authzs st)"
  from rows_vocabulary(2) [OF assms this]
  show "authz_edit (\<lambda>z. if az_order z = i then aged_authz now z else z) z
      \<and> authz_lapsed z (if az_order z = i then aged_authz now z else z)"
    using aged_authz_ok [of z now] by (simp add: authz_edit_def authz_lapsed_def)
qed

lemma refresh_authz_evolves:
  assumes "wf_acme st"
  shows "evolves C st (refresh_authz now i st)"
proof (cases "get_authz i st")
  case None
  then show ?thesis using evolves_refl [OF assms] by (simp add: refresh_authz_def)
next
  case (Some z)
  have s: "az_status z \<in> AUTHZ_STATES" using get_mem(2) [OF Some] rows_vocabulary(2) [OF assms] by blast
  have z: "aged_authz now z = z\<lparr>az_status := az_status (aged_authz now z)\<rparr>" by (simp add: aged_authz_def)
  show ?thesis using evolves_put_authz [OF assms Some, of "az_status (aged_authz now z)"] aged_authz_ok [OF s, of now] z Some
    by (simp add: refresh_authz_def authz_edit_def)
qed

lemma order_after_cases:
  "order_after ss r = r \<or> order_after ss r = r\<lparr>ao_status := ''invalid'', ao_error := or_error (ao_error r) ''unauthorized''\<rparr>
    \<or> (order_after ss r = r\<lparr>ao_status := ''ready''\<rparr> \<and> ao_status r = ''pending'' \<and> list_all (\<lambda>s. s = ''valid'') ss)"
  by (simp add: order_after_def)

lemma refresh_order_evolves:
  assumes "wf_acme st"
  shows "evolves C st (refresh_order now i st)"
proof (cases "get_order i st")
  case None
  then show ?thesis using evolves_refl [OF assms] by (simp add: refresh_order_def)
next
  case (Some r)
  consider "ao_status r \<in> {''valid'', ''invalid''}" | "ao_status r \<in> {''pending'', ''ready'', ''processing''}"
    using rows_vocabulary(1) [OF assms, of r] get_mem(1) [OF Some] by (auto simp: ORDER_STATES_def)
  then show ?thesis
  proof cases
    case 1
    with Some show ?thesis using evolves_refl [OF assms] by (simp add: refresh_order_def)
  next
    case 2
    then have active: "ao_status r \<notin> {''valid'', ''invalid''}" by auto
    let ?invalid = "\<lambda>t. r\<lparr>ao_status := ''invalid'', ao_error := or_error (ao_error r) t\<rparr>"
    have cancel: "evolves C s (put_order (?invalid t) s)" if "wf_acme s" "get_order i s = Some r" for s t
      using 2 by (intro evolves_put_order [OF that]) (simp_all add: order_key_def ORDER_STATES_def order_cancelled_def)
    show ?thesis
    proof (cases "ao_expires r \<le> now")
      case True
      then show ?thesis using cancel [OF assms Some] Some active by (simp add: refresh_order_def)
    next
      case False
      let ?s = "age_authzs_of now i st"
      have aged: "evolves C st ?s" by (rule age_authzs_evolves [OF assms])
      have s: "wf_acme ?s" "get_order i ?s = Some r" using evolves_wf [OF aged] Some by (simp_all add: age_authzs_of_def get_order_def)
      have same: "evolves C ?s (put_order r ?s)"
        using rows_vocabulary(1) [OF s(1)] get_mem(1) [OF s(2)] by (intro evolves_put_order [OF s]) (simp_all add: order_cancelled_def)
      have ready: "evolves C ?s (put_order (r\<lparr>ao_status := ''ready''\<rparr>) ?s)"
        if "ao_status r = ''pending''" "list_all (\<lambda>x. x = ''valid'') (map az_status (authzs_of i ?s))"
        using refines_ready [OF s that] frame_put_order [OF s] by (simp add: evolves_def order_key_def)
      have "evolves C ?s (put_order (order_after (map az_status (authzs_of i ?s)) r) ?s)"
        using order_after_cases [of "map az_status (authzs_of i ?s)" r] same ready cancel [OF s] by (elim disjE) simp_all
      with aged have "evolves C st (put_order (order_after (map az_status (authzs_of i ?s)) r) ?s)" by (rule evolves_trans)
      with Some active False show ?thesis by (simp add: refresh_order_def Let_def)
    qed
  qed
qed

section \<open>Validation\<close>

lemma authz_row_ok: "wf_acme st \<Longrightarrow> z \<in> set (ac_authzs st) \<Longrightarrow> az_wildcard z = startswith (display_identifier z) ''*.''"
  by (simp add: wf_acme_def rows_ok_def list_all_iff authz_ok_def)

lemma controls_dns01:
  assumes "wf_acme st" "z \<in> set (ac_authzs st)" "key_authorization (ae_jose ae) t jwk = Inr ka"
    "dns01_validate ae (az_value z) (txt_value (ae_jose ae) ka) = None"
  shows "controls ae jwk t (display_identifier z)"
proof (cases "az_wildcard z")
  case True
  then have d: "display_identifier z = ''*.'' @ az_value z" by (simp add: display_identifier_def)
  show ?thesis unfolding controls_def assms(3) d using assms(4) by (simp add: startswith_def)
next
  case False
  then have d: "display_identifier z = az_value z" by (simp add: display_identifier_def) 
  have "\<not> startswith (az_value z) ''*.''" using authz_row_ok [OF assms(1,2)] False by (simp add: d)
  note d = d this
  show ?thesis unfolding controls_def assms(3) d(1) using d(2) assms(4) by simp
qed

lemma controls_http01:
  assumes "wf_acme st" "z \<in> set (ac_authzs st)" "\<not> az_wildcard z" "key_authorization (ae_jose ae) t jwk = Inr ka"
    "fetch_http01 ae (az_value z) t ka = Inr None"
  shows "controls ae jwk t (display_identifier z)"
proof -
  have d: "display_identifier z = az_value z" using assms(3) by (simp add: display_identifier_def)
  have "\<not> startswith (az_value z) ''*.''" using authz_row_ok [OF assms(1,2)] assms(3) by (simp add: d)
  note d = d this
  show ?thesis unfolding controls_def assms(4) d(1) using d(2) assms(5) by simp
qed

lemma wildcard_needs_dns01:
  assumes "wf_acme st" "c \<in> set (ac_challs st)" "z \<in> set (ac_authzs st)" "ch_authz c = az_id z" "az_wildcard z"
  shows "ch_type c = ''dns-01''"
proof -
  have "chall_ok (authz_key ` set (ac_authzs st)) c" using assms(1,2) by (simp add: wf_acme_def rows_ok_def list_all_iff)
  then obtain w where w: "(ch_authz c, w) \<in> authz_key ` set (ac_authzs st)" "w \<longrightarrow> ch_type c = ''dns-01''"
    unfolding chall_ok_def by blast
  then obtain y where y: "y \<in> set (ac_authzs st)" "az_id y = az_id z" "w = az_wildcard y" using assms(4) by (auto simp: authz_key_def)
  have "y = z" using assms(1,3) y(1,2) get_row_in [of az_id "ac_authzs st"] by (metis keys_unique_def option.inject wf_acme_def)
  with w y assms(5) show ?thesis by simp
qed

lemma settle_evolves:
  assumes "wf_acme st" "get_authz j st = Some z" "az_status z = ''pending''" "get_chall i st = Some c0" "chall_edit (\<lambda>_. c) c0"
    "err = None \<Longrightarrow> C (az_account z) (display_identifier z)"
  shows "evolves C st (settle ae z c err st)"
proof (cases err)
  case None
  let ?c = "c\<lparr>ch_status := ''valid'', ch_validated := Some (ae_now ae), ch_error := None\<rparr>" and ?z = "z\<lparr>az_status := ''valid''\<rparr>"
  have c: "evolves C st (put_chall ?c st)"
    using assms(5) by (intro evolves_put_chall [OF assms(1,4)]) (simp add: chall_edit_def CHALL_STATES_def)
  have z: "get_authz j (put_chall ?c st) = Some z" using assms(2) by (simp add: put_chall_def get_authz_def)
  have "evolves C (put_chall ?c st) (put_authz ?z (put_chall ?c st))"
    using refines_prove [OF evolves_wf [OF c] z assms(3)] frame_put_authz [OF evolves_wf [OF c] z] assms(6) [OF None] by (simp add: evolves_def)
  with c have "evolves C st (put_authz ?z (put_chall ?c st))" by (rule evolves_trans)
  then show ?thesis by (simp add: settle_def None evolves_log)
next
  case (Some t)
  let ?c = "c\<lparr>ch_status := ''invalid'', ch_error := Some t\<rparr>" and ?z = "z\<lparr>az_status := ''invalid''\<rparr>"
  have c: "evolves C st (put_chall ?c st)"
    using assms(5) by (intro evolves_put_chall [OF assms(1,4)]) (simp add: chall_edit_def CHALL_STATES_def)
  have z: "get_authz j (put_chall ?c st) = Some z" using assms(2) by (simp add: put_chall_def get_authz_def)
  have "evolves C (put_chall ?c st) (put_authz ?z (put_chall ?c st))"
    using assms(3) by (intro evolves_put_authz [OF evolves_wf [OF c] z]) (simp_all add: AUTHZ_STATES_def authz_lapsed_def authz_state_def)
  with c have "evolves C st (put_authz ?z (put_chall ?c st))" by (rule evolves_trans)
  then show ?thesis by (simp add: settle_def Some evolves_log)
qed

lemma attempt_dns01_evolves:
  assumes "wf_acme st" "get_authz j st = Some z" "az_status z = ''pending''" "get_chall i st = Some c0" "chall_edit (\<lambda>_. c) c0"
    "controls ae jwk (ch_token c) (display_identifier z) \<Longrightarrow> C (az_account z) (display_identifier z)"
  shows "evolves C st (fst (attempt_dns01 ae jwk z c st))"
proof (cases "key_authorization (ae_jose ae) (ch_token c) jwk")
  case (Inl x)
  then show ?thesis using evolves_refl [OF assms(1)] by (simp add: attempt_dns01_def)
next
  case (Inr ka)
  let ?err = "dns01_validate ae (az_value z) (txt_value (ae_jose ae) ka)"
  have ctl: "C (az_account z) (display_identifier z)" if "?err = None"
    using controls_dns01 [OF assms(1) _ Inr that] get_mem(2) [OF assms(2)] assms(6) by blast
  have set: "evolves C st (settle ae z (c\<lparr>ch_attempts := n, ch_next := None\<rparr>) ?err st)" for n
    using assms(5) ctl by (intro settle_evolves [OF assms(1-4)]) (simp_all add: chall_edit_def)
  have wait: "evolves C st (put_chall (c\<lparr>ch_attempts := n, ch_next := x, ch_error := e\<rparr>) st)" for n x e
    using assms(5) by (intro evolves_put_chall [OF assms(1,4)]) (simp add: chall_edit_def)
  show ?thesis
  proof (cases ?err)
    case None
    then show ?thesis using set by (simp add: attempt_dns01_def Inr)
  next
    case (Some t)
    then show ?thesis using set wait by (simp add: attempt_dns01_def Inr Let_def)
  qed
qed

lemma due_chall_Some:
  assumes "wf_acme st" "due_chall now i st = Some c"
  shows "get_chall (ch_id c) st = Some c" "ch_authz c = i" "chall_edit (\<lambda>_. c) c" "c \<in> set (ac_challs st)"
proof -
  have c: "c \<in> set (ac_challs st)" "ch_authz c = i"
    using find_Some_mem assms(2) by (fastforce simp: due_chall_def first_row_def challs_of_def)+
  then show "ch_authz c = i" "c \<in> set (ac_challs st)" by simp_all
  show "get_chall (ch_id c) st = Some c" using assms(1) c(1) get_row_in by (simp add: wf_acme_def keys_unique_def get_chall_def get_row_in)
  show "chall_edit (\<lambda>_. c) c" using rows_vocabulary(3) [OF assms(1) c(1)] by (simp add: chall_edit_def)
qed

lemma proved_byI: "a \<in> set (ac_accounts st) \<Longrightarrow> c \<in> set (ac_challs st) \<Longrightarrow> controls ae (aa_jwk a) (ch_token c) n \<Longrightarrow> proved_by ae st (aa_id a) n"
  unfolding proved_by_def by blast

lemma poll_authz_evolves:
  assumes "wf_acme st"
  shows "evolves (proved_by ae st) st (fst (poll_authz ae i st))"
proof (cases "get_authz i st")
  case None
  then show ?thesis using evolves_refl [OF assms] by (simp add: poll_authz_def)
next
  case (Some z)
  have expire: "evolves (proved_by ae st) st (put_authz (z\<lparr>az_status := ''expired''\<rparr>) st)" if "az_status z = ''pending''"
    using that by (intro evolves_put_authz [OF assms Some]) (simp_all add: AUTHZ_STATES_def authz_lapsed_def authz_state_def)
  have attempted: "evolves (proved_by ae st) st (fst (attempt_dns01 ae (aa_jwk a) z c st))"
    if "az_status z = ''pending''" "due_chall now i st = Some c" "get_account (az_account z) st = Some a" for c a now
  proof (rule attempt_dns01_evolves [OF assms Some that(1) due_chall_Some(1,3) [OF assms that(2)]])
    assume "controls ae (aa_jwk a) (ch_token c) (display_identifier z)"
    then have "proved_by ae st (aa_id a) (display_identifier z)"
      by (rule proved_byI [of a st c, rotated 2]) (use get_mem(4) [OF that(3)] due_chall_Some(4) [OF assms that(2)] in simp_all)
    then show "proved_by ae st (az_account z) (display_identifier z)" using get_mem(4) [OF that(3)] by simp
  qed
  have poll: "evolves (proved_by ae st) st (fst (case attempt_dns01 ae (aa_jwk a) z c st of
        (st1, Inl x) \<Rightarrow> (st1, Inl x) | (st1, Inr _) \<Rightarrow> (refresh_order (ae_now ae) k st1, Inr ())))"
    if t: "az_status z = ''pending''" "due_chall now i st = Some c" "get_account (az_account z) st = Some a" for c a now k
  proof (cases "attempt_dns01 ae (aa_jwk a) z c st")
    case (Pair st1 res)
    then have "evolves (proved_by ae st) st st1" using attempted [OF t] by simp
    then show ?thesis using evolves_trans [OF _ refresh_order_evolves [OF evolves_wf]] by (cases res) (auto simp: Pair)
  qed
  show ?thesis using expire poll evolves_refl [OF assms] Some
    by (cases "due_chall (ae_now ae) i st"; cases "get_account (az_account z) st") (simp_all add: poll_authz_def)
qed

lemma respond_challenge_evolves:
  assumes "wf_acme st" "a \<in> set (ac_accounts st)"
    "\<And>c z. get_chall i st = Some c \<Longrightarrow> get_authz (ch_authz c) st = Some z \<Longrightarrow> az_account z = aa_id a"
  shows "evolves (proved_by ae st) st (fst (respond_challenge ae a i st))"
proof (cases "get_chall i st")
  case None
  then show ?thesis using evolves_refl [OF assms(1)] by (simp add: respond_challenge_def)
next
  case (Some c0)
  let ?s = "refresh_authz (ae_now ae) (ch_authz c0) st" and ?C = "proved_by ae st"
  have s: "evolves ?C st ?s" by (rule refresh_authz_evolves [OF assms(1)])
  note wf = evolves_wf [OF s]
  have c: "get_chall i ?s = Some c0" using Some by (auto simp: refresh_authz_def get_chall_def put_authz_def split: option.split)
  show ?thesis
  proof (cases "get_authz (ch_authz c0) ?s")
    case None
    then show ?thesis using s Some by (simp add: respond_challenge_def Let_def)
  next
    case z: (Some z)
    show ?thesis
    proof (cases "ch_status c0 \<noteq> ''pending'' \<or> az_status z \<noteq> ''pending''")
      case True
      then show ?thesis using s Some z by (simp add: respond_challenge_def Let_def)
    next
      case False
      then have pending: "az_status z = ''pending''" "ch_status c0 = ''pending''" by simp_all
      show ?thesis
      proof (cases "get_order (az_order z) ?s")
        case None
        then show ?thesis using s Some z pending by (simp add: respond_challenge_def Let_def)
      next
        case r: (Some r)
        have late: "evolves ?C st (refresh_order (ae_now ae) (ao_id r) ?s)" by (rule evolves_trans [OF s refresh_order_evolves [OF wf]])
        let ?c = "c0\<lparr>ch_status := ''processing''\<rparr>"
        have edit: "chall_edit (\<lambda>_. ?c) c0" by (simp add: chall_edit_def CHALL_STATES_def)
        have acct: "az_account z = aa_id a"
        proof -
          have "frame st ?s" using s by (simp add: evolves_def)
          from frame_rows(2) [OF this z] show ?thesis using assms(3) [OF Some] by auto
        qed
        have ctl: "?C (az_account z) (display_identifier z)" if "controls ae (aa_jwk a) (ch_token ?c) (display_identifier z)"
          using proved_byI [OF assms(2), of c0 ae] get_mem(3) [OF Some] that by (simp add: acct)
        have dns: "evolves ?C ?s (fst (attempt_dns01 ae (aa_jwk a) z ?c ?s))"
          by (rule attempt_dns01_evolves [OF wf z pending(1) c edit]) (rule ctl)
        have http: "evolves ?C ?s (settle ae z ?c err ?s)"
          if "ch_type c0 \<noteq> ''dns-01''" "key_authorization (ae_jose ae) (ch_token ?c) (aa_jwk a) = Inr ka"
            "fetch_http01 ae (az_value z) (ch_token ?c) ka = Inr err" for ka err
        proof (rule settle_evolves [OF wf z pending(1) c edit])
          assume "err = None"
          moreover have "\<not> az_wildcard z" using wildcard_needs_dns01 [OF wf _ _ _, of c0 z] get_mem(2) [OF z] get_mem(3) [OF c] that(1) by metis
          ultimately show "?C (az_account z) (display_identifier z)"
            using controls_http01 [OF wf _ _ that(2), of z] that(3) get_mem(2) [OF z] by (intro ctl) simp
        qed
        let ?res = "if ch_type ?c = ''dns-01'' then attempt_dns01 ae (aa_jwk a) z ?c ?s
           else (case and_then (key_authorization (ae_jose ae) (ch_token ?c) (aa_jwk a)) (fetch_http01 ae (az_value z) (ch_token ?c)) of
                   Inl x \<Rightarrow> (?s, Inl x) | Inr err \<Rightarrow> (settle ae z ?c err ?s, Inr ()))"
        have res: "evolves ?C st (fst ?res)"
        proof -
          have "evolves ?C ?s (fst ?res)"
            using dns http evolves_refl [OF wf]
            by (cases "and_then (key_authorization (ae_jose ae) (ch_token ?c) (aa_jwk a)) (fetch_http01 ae (az_value z) (ch_token ?c))")
              (auto simp: and_then_Inr)
          with s show ?thesis by (rule evolves_trans)
        qed
        have tail: "evolves ?C st (fst (case q of (st1, Inl x) \<Rightarrow> (st1, Inl x) | (st1, Inr _) \<Rightarrow> (refresh_order now k st1, Inr ())))"
          if "evolves ?C st (fst q)" for q :: "acme \<times> (acme_problem + unit)" and now k
          using that evolves_trans [OF _ refresh_order_evolves [OF evolves_wf]]
          by (cases q; cases "snd q") auto
        show ?thesis using late tail [OF res] Some z r pending by (simp add: respond_challenge_def Let_def)
      qed
    qed
  qed
qed

lemma deactivate_authz_evolves:
  assumes "wf_acme st"
  shows "evolves C st (deactivate_authz ae i st)"
proof (cases "get_authz i st")
  case None
  then show ?thesis using evolves_refl [OF assms] by (simp add: deactivate_authz_def)
next
  case (Some z)
  show ?thesis
  proof (cases "az_status z = ''pending''")
    case True
    let ?s = "put_authz (z\<lparr>az_status := ''deactivated''\<rparr>) st"
    have "evolves C st ?s" using True
      by (intro evolves_put_authz [OF assms Some]) (simp_all add: AUTHZ_STATES_def authz_lapsed_def authz_state_def)
    then show ?thesis using evolves_trans [OF _ refresh_order_evolves [OF evolves_wf]] True Some by (auto simp: deactivate_authz_def)
  qed (use evolves_refl [OF assms] Some in \<open>simp add: deactivate_authz_def\<close>)
qed

end
