(* ===== verification/Acme_Server.thy ===== *)
theory Acme_Server
  imports Acme_Simulation
begin

text \<open>
  The operations that add rows: accounts, orders and certificates; and whole
  requests of the ACME server as steps of the abstract protocol.
\<close>

section \<open>New rows\<close>

lemma wf_append_account:
  assumes "wf_acme st" "aa_id a = fresh_id aa_id (ac_accounts st)" "aa_status a \<in> ACCOUNT_STATES"
  shows "wf_acme (st\<lparr>ac_accounts := ac_accounts st @ [a]\<rparr>)"
  using assms wf_table_snoc [of aa_id "ac_accounts st" a]
  by (auto simp: wf_acme_def keys_unique_def rows_ok_def list_all_iff account_ok_def order_ok_def)

lemma wf_append_order:
  assumes "wf_acme st" "ao_id r = fresh_id ao_id (ac_orders st)" "ao_status r \<in> ORDER_STATES" "(ao_account r, ao_ca r) \<in> account_key ` set (ac_accounts st)"
  shows "wf_acme (st\<lparr>ac_orders := ac_orders st @ [r]\<rparr>)"
  using assms wf_table_snoc [of ao_id "ac_orders st" r]
  by (auto simp: wf_acme_def keys_unique_def rows_ok_def list_all_iff authz_ok_def order_ok_def)

lemma chall_ok_mono: "chall_ok A c \<Longrightarrow> A \<subseteq> B \<Longrightarrow> chall_ok B c"
  unfolding chall_ok_def by blast

lemma wf_append_authz:
  assumes "wf_acme st" "az_id z = fresh_id az_id (ac_authzs st)" "authz_ok (order_key ` set (ac_orders st)) z"
  shows "wf_acme (st\<lparr>ac_authzs := ac_authzs st @ [z]\<rparr>)"
proof -
  have "list_all (chall_ok (authz_key ` set (ac_authzs st @ [z]))) (ac_challs st)"
    using assms(1) by (auto simp: wf_acme_def rows_ok_def list_all_iff elim!: chall_ok_mono)
  then show ?thesis using assms wf_table_snoc [of az_id "ac_authzs st" z]
    by (simp add: wf_acme_def keys_unique_def rows_ok_def)
qed

lemma wf_append_chall:
  assumes "wf_acme st" "ch_id c = fresh_id ch_id (ac_challs st)" "chall_ok (authz_key ` set (ac_authzs st)) c"
  shows "wf_acme (st\<lparr>ac_challs := ac_challs st @ [c]\<rparr>)"
  using assms wf_table_snoc [of ch_id "ac_challs st" c] by (simp add: wf_acme_def keys_unique_def rows_ok_def)

lemma wf_new_challs:
  assumes "wf_acme st" "(az_id z, az_wildcard z) \<in> authz_key ` set (ac_authzs st)" "\<forall>t \<in> set types. az_wildcard z \<longrightarrow> t = ''dns-01''"
  shows "wf_acme (st\<lparr>ac_challs := new_challs ae z types (ac_challs st)\<rparr>)"
  using assms
proof (induction types arbitrary: st)
  case Nil
  then show ?case by (simp add: new_challs_def)
next
  case (Cons t ts)
  let ?c = "\<lparr>ch_id = fresh_id ch_id (ac_challs st), ch_authz = az_id z, ch_type = t,
        ch_token = b64url_encode (ae_random ae (fresh_id ch_id (ac_challs st))), ch_status = ''pending'', ch_validated = None, ch_error = None,
        ch_attempts = 0, ch_next = None\<rparr>"
  let ?s = "st\<lparr>ac_challs := ac_challs st @ [?c]\<rparr>"
  have "chall_ok (authz_key ` set (ac_authzs st)) ?c"
    unfolding chall_ok_def by (intro conjI exI [of _ "az_wildcard z"]) (use Cons.prems(2,3) in \<open>simp_all add: CHALL_STATES_def\<close>)
  then have "wf_acme ?s" using Cons.prems(1) by (intro wf_append_chall) simp_all
  from Cons.IH [OF this] Cons.prems have "wf_acme (?s\<lparr>ac_challs := new_challs ae z ts (ac_challs ?s)\<rparr>)" by simp
  moreover have "new_challs ae z ts (ac_challs ?s) = new_challs ae z (t # ts) (ac_challs st)" by (simp add: new_challs_def)
  ultimately show ?case by simp
qed

lemma fold_new_authz:
  assumes "wf_acme st" "r \<in> set (ac_orders st)"
    and "s' = fold (new_authz ae r) names st"
  shows "wf_acme s' \<and> ac_orders s' = ac_orders st \<and> ac_accounts s' = ac_accounts st \<and> ac_pki s' = ac_pki st
    \<and> (\<exists>zs. ac_authzs s' = ac_authzs st @ zs \<and> map authz_view zs = map (\<lambda>n. (ao_id r, n, Authz_open)) names)"
  using assms(1,2) unfolding assms(3)
proof (induction names arbitrary: st)
  case Nil
  then show ?case by simp
next
  case (Cons n ns)
  let ?wild = "startswith n ''*.''"
  let ?z = "\<lparr>az_id = fresh_id az_id (ac_authzs st), az_order = ao_id r, az_account = ao_account r, az_ca = ao_ca r,
            az_value = (if ?wild then drop 2 n else n), az_wildcard = ?wild, az_status = ''pending'', az_expires = ao_expires r\<rparr>"
  let ?s1 = "st\<lparr>ac_authzs := ac_authzs st @ [?z]\<rparr>"
  let ?s2 = "?s1\<lparr>ac_challs := new_challs ae ?z (if ?wild then [''dns-01''] else ae_types ae) (ac_challs ?s1)\<rparr>"
  have step: "new_authz ae r n st = ?s2" by (simp add: new_authz_def Let_def)
  have shown: "display_identifier ?z = n"
    using append_take_drop_id [of "length ''*.''" n] by (auto simp: display_identifier_def startswith_def numeral_2_eq_2 simp del: append_take_drop_id)
  have "authz_ok (order_key ` set (ac_orders st)) ?z"
    unfolding authz_ok_def shown using Cons.prems(2) by (auto simp: AUTHZ_STATES_def order_key_def intro!: image_eqI [of _ _ r])
  then have s1: "wf_acme ?s1" using Cons.prems(1) by (intro wf_append_authz) simp_all
  have s2: "wf_acme ?s2" by (rule wf_new_challs [OF s1]) (auto simp: authz_key_def)
  have "authz_view ?z = (ao_id r, n, Authz_open)" by (simp add: authz_view_def authz_state_def shown)
  then show ?case using Cons.IH [OF s2] Cons.prems(2) unfolding fold_simps step by auto
qed

lemma get_row_app:
  "get_row k i (xs @ ys) = (case get_row k i xs of None \<Rightarrow> get_row k i ys | Some x \<Rightarrow> Some x)"
  by (induction xs) (auto simp: get_row_def)

lemma get_row_snoc:
  "get_row k i (t @ [x]) = (case get_row k i t of None \<Rightarrow> if k x = i then Some x else None | Some y \<Rightarrow> Some y)"
  unfolding get_row_app by (simp add: get_row_def split: option.split)

lemma new_order_refines:
  assumes "wf_acme st" "a \<in> set (ac_accounts st)" "aa_ca a = ca_id ca"
  shows "refines C st (fst (new_order ae ca a payload st))"
proof (cases "parse_identifiers ae ca (case payload of None \<Rightarrow> None | Some j \<Rightarrow> jget ''identifiers'' j) st")
  case (Inl x)
  then show ?thesis using refines_refl [OF assms(1)] by (simp add: new_order_def)
next
  case (Inr names)
  let ?r = "\<lparr>ao_id = fresh_id ao_id (ac_orders st), ao_account = aa_id a, ao_ca = ca_id ca, ao_status = ''pending'',
                ao_identifiers = names, ao_expires = ae_now ae + hours (ae_order_hours ae), ao_csr = None, ao_certificate = None,
                ao_error = None, ao_finalized = None\<rparr>"
  let ?s = "st\<lparr>ac_orders := ac_orders st @ [?r]\<rparr>" and ?i = "fresh_id ao_id (ac_orders st)"
  define s' where "s' = fold (new_authz ae ?r) names ?s"
  have key: "(aa_id a, aa_ca a) \<in> account_key ` set (ac_accounts st)" using assms(2) by (force simp: account_key_def)
  have "wf_acme ?s" using assms(3) key by (intro wf_append_order [OF assms(1)]) (simp_all add: ORDER_STATES_def)
  from fold_new_authz [OF this _ s'_def] obtain zs where s': "wf_acme s'" "ac_orders s' = ac_orders st @ [?r]" "ac_accounts s' = ac_accounts st"
    "ac_pki s' = ac_pki st" "ac_authzs s' = ac_authzs st @ zs" "map authz_view zs = map (\<lambda>n. (?i, n, Authz_open)) names"
    by auto
  define new where "new = (\<lambda>j. map_option authz_view (get_row az_id j zs))"
  have ids: "distinct (map az_id (ac_authzs st @ zs))" using s'(1,5) by (simp add: wf_acme_def keys_unique_def wf_table_def)
  have "refines C st s'"
  proof (rule refines_step)
    show "wf_acme s'" by (rule s'(1))
    fix P
    have fresh: "get_row ao_id ?i (ac_orders st) = None" using fresh_id_notin by (simp add: get_row_None)
    then have "pr_orders (protocol_of P st) ?i = None" by (simp add: protocol_of_def get_order_def)
    moreover have "\<forall>j. new j \<noteq> None \<longrightarrow> pr_authzs (protocol_of P st) j = None"
    proof (intro allI impI)
      fix j
      assume "new j \<noteq> None"
      then obtain z where "get_row az_id j zs = Some z" unfolding new_def by (cases "get_row az_id j zs") simp_all
      then have "j \<in> az_id ` set zs" using get_row_Some by fast
      with ids have "get_row az_id j (ac_authzs st) = None" by (auto simp: get_row_None)
      then show "pr_authzs (protocol_of P st) j = None" by (simp add: protocol_of_def get_authz_def)
    qed
    moreover have "ran new = (\<lambda>n. (?i, n, Authz_open)) ` set names"
    proof -
      have wf: "wf_table az_id zs" using ids by (simp add: wf_table_def)
      have "ran new = authz_view ` set zs"
      proof
        have "b \<in> authz_view ` set zs" if "new j = Some b" for j b
          using that get_row_mem [of az_id j zs] by (auto simp: new_def)
        then show "ran new \<subseteq> authz_view ` set zs" by (auto simp: ran_def)
        have "new (az_id z) = Some (authz_view z)" if "z \<in> set zs" for z using get_row_in [OF wf that] by (simp add: new_def)
        then show "authz_view ` set zs \<subseteq> ran new" unfolding ran_def by blast
      qed
      also have "\<dots> = set (map authz_view zs)" by simp
      finally show ?thesis by (simp add: s'(6))
    qed
    ultimately have "rfc_step canonical_name C (protocol_of P st) ((protocol_of P st)
        \<lparr>pr_orders := (pr_orders (protocol_of P st))(?i \<mapsto> (aa_id a, set names, Order_pending)), pr_authzs := pr_authzs (protocol_of P st) ++ new\<rparr>)"
      by (rule rfc_step.order)
    moreover have "(protocol_of P st)\<lparr>pr_orders := (pr_orders (protocol_of P st))(?i \<mapsto> (aa_id a, set names, Order_pending)),
        pr_authzs := pr_authzs (protocol_of P st) ++ new\<rparr> = protocol_of P s'"
    proof -
      have "get_order j s' = (if j = ?i then Some ?r else get_order j st)" for j
        using fresh by (auto simp: get_order_def s'(2) get_row_snoc split: option.split)
      then have o: "map_option order_view (get_order j s') = ((\<lambda>j. map_option order_view (get_order j st))(?i \<mapsto> (aa_id a, set names, Order_pending))) j" for j
        by (simp add: order_view_def order_state_def)
      have disj: "get_authz j st = None \<or> get_row az_id j zs = None" for j using ids by (auto simp: get_authz_def get_row_None)
      have "get_authz j s' = (case get_authz j st of None \<Rightarrow> get_row az_id j zs | Some z \<Rightarrow> Some z)" for j
        by (simp add: get_authz_def s'(5) get_row_app)
      then have z: "map_option authz_view (get_authz j s') = ((\<lambda>j. map_option authz_view (get_authz j st)) ++ new) j" for j
        using disj [of j] by (auto simp: new_def map_add_def split: option.splits)
      show ?thesis by (simp add: protocol_of_def o z s'(4) fun_eq_iff)
    qed
    ultimately have "rfc_step canonical_name C (protocol_of P st) (protocol_of P s')" by simp
    then show "\<exists>Q. rfc_step canonical_name C (protocol_of P st) (protocol_of Q s')" by blast
  qed
  moreover have "get_account (aa_id a) s' = Some a"
    using get_row_in [of aa_id "ac_accounts st" a] assms(1,2) by (simp add: get_account_def s'(3) wf_acme_def keys_unique_def)
  then have "refines C s' (put_account (a\<lparr>aa_seen := Some (ae_now ae)\<rparr>) s')"
    using rows_vocabulary(4) [OF assms(1,2)] by (intro refines_put_account [OF s'(1)]) (simp_all add: account_edit_def account_key_def)
  ultimately have "refines C st (put_account (a\<lparr>aa_seen := Some (ae_now ae)\<rparr>) s')" by (rule refines_trans)
  then show ?thesis by (simp add: new_order_def Inr Let_def s'_def refines_log)
qed

section \<open>Accounts\<close>

lemma wf_tables:
  "wf_acme st \<Longrightarrow> wf_table ek_id (ac_eabs st)" "wf_acme st \<Longrightarrow> wf_table aa_id (ac_accounts st)"
  "wf_acme st \<Longrightarrow> wf_table ao_id (ac_orders st)" "wf_acme st \<Longrightarrow> wf_table az_id (ac_authzs st)"
  "wf_acme st \<Longrightarrow> wf_table ch_id (ac_challs st)" "wf_acme st \<Longrightarrow> distinct (map fst (ac_nonces st))"
  by (simp_all add: wf_acme_def keys_unique_def)

lemma first_row_Some: "first_row p t = Some r \<Longrightarrow> r \<in> set t \<and> p r"
  by (simp add: first_row_def find_Some_mem)

lemma get_account_in: "wf_acme st \<Longrightarrow> a \<in> set (ac_accounts st) \<Longrightarrow> get_account (aa_id a) st = Some a"
  using get_row_in wf_tables(2) by (fastforce simp: get_account_def)

lemma touch_account_refines:
  assumes "wf_acme st" "a \<in> set (ac_accounts st)" "account_key a' = account_key a" "aa_status a' \<in> ACCOUNT_STATES"
  shows "refines C st (put_account a' st)"
  using refines_put_account [OF assms(1) get_account_in [OF assms(1,2)]] assms(3,4) by (simp add: account_edit_def)

lemma refines_same_tables:
  assumes "wf_acme st'" "ac_orders st' = ac_orders st" "ac_authzs st' = ac_authzs st" "acme_certs (ac_pki st') = acme_certs (ac_pki st)"
  shows "refines C st st'"
  using assms by (intro refines_same) (simp_all add: get_order_def get_authz_def)

lemma use_eab_refines:
  assumes "wf_acme st"
  shows "refines C st (use_eab now eab st)"
proof (cases eab)
  case None
  then show ?thesis using refines_refl [OF assms] by (simp add: use_eab_def)
next
  case (Some r)
  then show ?thesis using wf_other_tables(3) [OF assms] wf_tables(1) [OF assms]
    by (intro refines_same_tables) (simp_all add: use_eab_def put_row_wf)
qed

lemma new_account_refines:
  assumes "wf_acme st"
  shows "refines C st (fst (new_account ae ca v st))"
proof (cases "thumbprint (ae_jose ae) (vf_jwk v)")
  case (Inl x)
  then show ?thesis using refines_refl [OF assms] by (simp add: new_account_def Let_def)
next
  case tp: (Inr tp)
  let ?p = "case vf_payload v of None \<Rightarrow> JObj [] | Some j \<Rightarrow> j"
  let ?found = "first_row (\<lambda>a. aa_ca a = ca_id ca \<and> aa_thumbprint a = tp) (ac_accounts st)"
  let ?checks = "and_then (validate_contacts (jget ''contact'' ?p)) (\<lambda>cs.
      and_then (check_eab ae ca (vf_jwk v) (jget_some ''externalAccountBinding'' ?p) st) (\<lambda>r. Inr (cs, r)))"
  show ?thesis
  proof (cases ?found)
    case (Some a)
    have a: "a \<in> set (ac_accounts st)" using first_row_Some [OF Some] by simp
    have "refines C st (put_account (a\<lparr>aa_seen := Some (ae_now ae)\<rparr>) st)"
      using rows_vocabulary(4) [OF assms a] by (intro touch_account_refines [OF assms a]) (simp_all add: account_key_def)
    then show ?thesis using refines_refl [OF assms] by (simp add: new_account_def Let_def tp Some)
  next
    case None
    show ?thesis
    proof (cases "jtruthy (jget ''onlyReturnExisting'' ?p)")
      case True
      then show ?thesis using refines_refl [OF assms] by (simp add: new_account_def Let_def tp None)
    next
      case False
      show ?thesis
      proof (cases ?checks)
        case (Inl x)
        then show ?thesis using refines_refl [OF assms] False by (simp add: new_account_def Let_def tp None)
      next
        case (Inr q)
        obtain cs r where q: "q = (cs, r)" by (cases q)
        let ?a = "fresh_account ae ca (vf_jwk v) tp cs r st" and ?s = "\<lambda>a. st\<lparr>ac_accounts := ac_accounts st @ [a]\<rparr>"
        have "wf_acme (?s ?a)" by (rule wf_append_account [OF assms]) (simp_all add: fresh_account_def ACCOUNT_STATES_def)
        then have "refines C st (?s ?a)" by (rule refines_same_tables) simp_all
        then have "refines C st (use_eab (ae_now ae) r (?s ?a))" using refines_trans use_eab_refines refines_wf by metis
        then show ?thesis using False by (simp add: new_account_def Let_def tp None Inr q refines_log)
      qed
    qed
  qed
qed

lemma deactivate_orders_refines:
  assumes "wf_acme st"
  shows "refines C st (deactivate_orders i st)"
  unfolding deactivate_orders_def
  by (rule refines_orders [OF assms]) (auto simp: order_edit_def order_key_def order_cancelled_def ORDER_STATES_def dest: rows_vocabulary(1) [OF assms])

lemma update_account_refines:
  assumes "wf_acme st" "a \<in> set (ac_accounts st)"
  shows "refines C st (fst (update_account ae ca a payload st))"
proof -
  have touch: "refines C st (put_account (a\<lparr>aa_contact := cs, aa_seen := t\<rparr>) st)" for cs t
    using rows_vocabulary(4) [OF assms] by (intro touch_account_refines [OF assms]) (simp_all add: account_key_def)
  have seen: "refines C st (put_account (a\<lparr>aa_seen := t\<rparr>) st)" for t
    using rows_vocabulary(4) [OF assms] by (intro touch_account_refines [OF assms]) (simp_all add: account_key_def)
  have "refines C st (put_account (a\<lparr>aa_status := ''deactivated''\<rparr>) st)"
    by (intro touch_account_refines [OF assms]) (simp_all add: account_key_def ACCOUNT_STATES_def)
  then have off: "refines C st (deactivate_orders i (put_account (a\<lparr>aa_status := ''deactivated''\<rparr>) st))" for i
    using refines_trans deactivate_orders_refines refines_wf by metis
  show ?thesis
  proof (cases "jget ''status'' payload = Some (JStr ''deactivated'')")
    case True
    then show ?thesis using off by (simp add: update_account_def refines_log)
  next
    case False
    then show ?thesis using seen touch refines_refl [OF assms(1)]
      by (cases "jget ''contact'' payload"; cases "validate_contacts (jget ''contact'' payload)") (simp_all add: update_account_def)
  qed
qed

lemma change_key_refines:
  assumes "wf_acme st" "a \<in> set (ac_accounts st)"
  shows "refines C st (fst (change_key ae ca a inner url st))"
proof (cases "change_key_checks ae ca a inner url st")
  case (Inl x)
  then show ?thesis using refines_refl [OF assms(1)] by (simp add: change_key_def)
next
  case (Inr q)
  obtain jwk tp where q: "q = (jwk, tp)" by (cases q)
  have "refines C st (put_account (a\<lparr>aa_jwk := sort_json (jnormal jwk), aa_thumbprint := tp\<rparr>) st)"
    using rows_vocabulary(4) [OF assms] by (intro touch_account_refines [OF assms]) (simp_all add: account_key_def)
  then show ?thesis by (simp add: change_key_def Inr q refines_log)
qed

section \<open>Nonces, bindings and maintenance\<close>

lemma issue_nonce_refines: "wf_acme st \<Longrightarrow> refines C st (issue_nonce ae st)"
  using wf_other_tables(2) [of st "ac_nonces st @ [(ae_nonce ae, ae_now ae)]"] wf_tables(6) [of st]
  by (auto simp: issue_nonce_def refines_refl intro!: refines_same_tables)

lemma consume_nonce_tables: "\<exists>p. fst (consume_nonce ae v st) = st\<lparr>ac_nonces := filter p (ac_nonces st)\<rparr>"
proof -
  have "fst (consume_nonce ae v st) = st \<or> (\<exists>n. fst (consume_nonce ae v st) = st\<lparr>ac_nonces := filter (\<lambda>x. fst x \<noteq> n) (ac_nonces st)\<rparr>)"
    unfolding consume_nonce_def by (simp split: option.split json.split) blast
  moreover have "st = st\<lparr>ac_nonces := filter (\<lambda>_. True) (ac_nonces st)\<rparr>" by simp
  ultimately show ?thesis by metis
qed

lemma distinct_nonces: "distinct (map fst ns) \<Longrightarrow> distinct (map fst (filter p ns))"
  by (induction ns) auto

lemma consume_nonce_refines: "wf_acme st \<Longrightarrow> refines C st (fst (consume_nonce ae v st))"
  using consume_nonce_tables [of ae v st] wf_tables(6) [of st]
  by (auto intro!: refines_same_tables wf_other_tables(2) distinct_nonces)

lemma create_eab_refines: "wf_acme st \<Longrightarrow> refines C st (fst (create_eab_key ae kid ca name u st))"
  using wf_tables(1) [of st] wf_table_snoc [of ek_id "ac_eabs st"]
  by (auto simp: create_eab_key_def Let_def intro!: refines_same_tables wf_other_tables(3))

lemma revoke_eab_refines: "wf_acme st \<Longrightarrow> refines C st (revoke_eab_key i st)"
  using wf_tables(1) [of st] wf_table_map [of "ac_eabs st" ek_id "\<lambda>r. if ek_id r = i then r\<lparr>ek_revoked := True\<rparr> else r"]
  by (auto simp: revoke_eab_key_def intro!: refines_same_tables wf_other_tables(3))

lemma acme_maintain_refines:
  assumes "wf_acme st"
  shows "refines C st (acme_maintain ae st)"
proof -
  let ?f = "\<lambda>r. if ao_status r \<in> {''pending'', ''ready'', ''processing''} \<and> ao_expires r \<le> ae_now ae
            then r\<lparr>ao_status := ''invalid'', ao_error := or_error (ao_error r) ''malformed''\<rparr> else r"
  let ?a = "st\<lparr>ac_orders := map ?f (ac_orders st)\<rparr>"
  let ?b = "?a\<lparr>ac_authzs := map (aged_authz (ae_now ae)) (ac_authzs ?a)\<rparr>"
  have a: "refines C st ?a"
    by (rule refines_orders [OF assms]) (auto simp: order_edit_def order_key_def order_cancelled_def ORDER_STATES_def dest: rows_vocabulary(1) [OF assms])
  have b: "refines C ?a ?b"
    using aged_authz_ok rows_vocabulary(2) [OF refines_wf [OF a]] by (intro refines_authzs [OF refines_wf [OF a]]) blast
  have "refines C ?b (acme_maintain ae st)"
    using distinct_nonces [OF wf_tables(6) [OF assms]] wf_other_tables(2) [OF refines_wf [OF b]]
    by (intro refines_same_tables) (simp_all add: acme_maintain_def)
  then show ?thesis using refines_trans a b by blast
qed

section \<open>Issuance\<close>

lemma is_space_dns: "\<not> is_space (CHR ''D'')" "\<not> is_space (CHR '':'')"
  by code_simp+

lemma strip_dns_entry: "strip_str (''DNS:'' @ v) = ''DNS:'' @ rstrip_by is_space v"
proof -
  have "lstrip_by is_space (''DNS:'' @ v) = ''DNS:'' @ v" by (simp add: lstrip_by_def is_space_dns)
  moreover have "rstrip_by is_space ''DNS:'' = ''DNS:''" by (simp add: rstrip_by_def is_space_dns)
  ultimately show ?thesis by (simp add: strip_str_def rstrip_by_append rstrip_by_Nil [THEN iffD2] del: append_Cons)
qed

lemma dns_kind: "map_of san_kinds (upper_str (strip_str ''DNS'')) = Some ''dns''"
  by code_simp

lemma dns_label_of: "label_of ''dns'' = Some ''DNS''"
  by code_simp

lemma parse_dns_entry:
  assumes "san_parse_entry (''DNS:'' @ v) = Inr p"
  shows "p = Some (''dns'', strip_str (rstrip_by is_space v))"
proof -
  have "partition_at (CHR '':'') (''DNS:'' @ rstrip_by is_space v) = Some (''DNS'', rstrip_by is_space v)" by simp
  with assms show ?thesis
    unfolding san_parse_entry_def Let_def strip_dns_entry by (simp add: dns_kind split: if_splits del: append_Cons)
qed

lemma canonical_entry: "canonical_name (strip_str (rstrip_by is_space v)) = canonical_name v"
  unfolding canonical_name_strip by (simp add: canonical_name_def lower_strip_by lower_char_class rstrip_rstrip dot_or_space_def)

lemma general_names_of_dns:
  assumes "build_general_names gn (map (\<lambda>n. ''DNS:'' @ n) vs) = Inr ns" "(k, v) \<in> set ns"
  shows "k = ''dns'' \<and> (\<exists>n \<in> set vs. canonical_name v = canonical_name n)"
  using assms
proof (induction vs arbitrary: ns)
  case (Cons n vs)
  from Cons.prems(1) obtain p where p: "san_parse_entry (''DNS:'' @ n) = Inr p" by (auto simp: and_then_Inr simp del: append_Cons)
  note e = parse_dns_entry [OF p]
  from Cons.prems(1) p e obtain x xs where x: "to_general_name gn ''dns'' (strip_str (rstrip_by is_space n)) = Inr x"
    "build_general_names gn (map (\<lambda>n. ''DNS:'' @ n) vs) = Inr xs" "ns = x # xs" by (auto simp: and_then_Inr simp del: append_Cons)
  from x(1) have "x = (''dns'', strip_str (rstrip_by is_space n))" by (simp add: to_general_name_def split: if_splits)
  with Cons.IH [OF x(2)] Cons.prems(2) x(3) show ?case using canonical_entry by auto
qed simp

lemma extension_of_dns:
  assumes "\<forall>n \<in> set san. fst n = ''dns''"
  shows "extension_to_strings san = map (\<lambda>n. ''DNS:'' @ n) (map snd san)"
  using assms by (induction san) (auto simp: extension_to_strings_def dns_label_of)

lemma check_csr_names:
  assumes "check_csr csr wanted = Inr ()"
  shows "\<forall>n \<in> set (rq_san csr). fst n = ''dns'' \<and> rstrip_dots (lower_str (snd n)) \<in> set wanted"
proof -
  have kinds: "\<forall>n \<in> set (rq_san csr). fst n = ''dns''"
    and eq: "(if csr_dns csr = {} \<and> truthy_str (csr_cn csr) then {the (csr_cn csr)} else csr_dns csr) = set wanted"
    using assms by (simp_all add: check_csr_def Let_def split: if_splits)
  have "csr_dns csr = {} \<or> csr_dns csr = set wanted" using eq by (simp split: if_splits)
  then show ?thesis using kinds by (auto simp: csr_dns_def)
qed

lemma import_csr_row:
  assumes "import_csr e csr u prof p = Inr (p1, i)" "wf_csrs p"
  shows "p_certs p1 = p_certs p" "wf_csrs p1" "\<exists>row. csr_of i p1 = Some row \<and> cs_san row = some_nonempty (extension_to_strings (rq_san csr))"
proof -
  define cn where "cn = (case map_of (dict_of (rq_subject csr)) ''CN'' of None \<Rightarrow> ''Unknown'' | Some c \<Rightarrow> c)"
  let ?row = "new_csr p cn csr (extension_to_strings (rq_san csr)) u prof"
  have p1: "p1 = p\<lparr>p_csrs := p_csrs p @ [?row]\<rparr>" "i = cs_id ?row"
    using assms(1) by (auto simp: import_csr_def parse_csr_def and_then_Inr Let_def cn_def)
  have id: "cs_id ?row = fresh_id cs_id (p_csrs p)" by (simp add: new_csr_def)
  show "p_certs p1 = p_certs p" by (simp add: p1)
  show "wf_csrs p1" using assms(2) wf_table_snoc [OF _ id] by (simp add: p1 wf_csrs_def)
  have "csr_of i p1 = Some ?row" using get_row_snoc_fresh [OF id] by (simp add: p1 csr_of_def id)
  then show "\<exists>row. csr_of i p1 = Some row \<and> cs_san row = some_nonempty (extension_to_strings (rq_san csr))"
    by (simp add: new_csr_def)
qed

lemma claim_csr_tables: "claim_csr i p = Inr p1 \<Longrightarrow> p_certs p1 = p_certs p"
  by (auto simp: claim_csr_def move_csr_def set_csr_def split: option.splits)

lemma release_csr_tables: "p_certs (release_csr i p) = p_certs p"
  by (auto simp: release_csr_def move_csr_def set_csr_def split: option.splits)

lemma sign_csr_failed:
  assumes "sign_csr e pf rq ca i p = (p', Inl x)" "wf_csrs p"
  shows "p_certs p' = p_certs p" "wf_csrs p'"
proof -
  have "p' = p \<or> (\<exists>p1. claim_csr i p = Inr p1 \<and> p' = release_csr i p1)"
    using assms(1) by (auto simp: sign_csr_def split: option.splits sum.splits)
  then show "p_certs p' = p_certs p" "wf_csrs p'"
    using assms(2) claim_csr_tables release_csr_tables claim_csr_status(1) release_csr_status(1) by metis+
qed

lemma sign_csr_row:
  assumes "sign_csr e pf rq ca i p = (p', Inr n)" "wf_csrs p" "csr_of i p = Some row"
  obtains c where "p_certs p' = p_certs p @ [c]" "ct_id c = n" "n = fresh_id ct_id (p_certs p)"
    "build_general_names (e_gn_ok e) (effective_san rq row) = Inr (x_san (ct_cert c))" "wf_csrs p'"
proof -
  from assms(1) obtain csr usage p1 where s: "csr_of i p = Some csr" "claim_csr i p = Inr p1" "sign_claimed_csr e pf rq usage ca i p1 = Inr (p', n)"
    by (rule sign_csr_ok)
  obtain ku eku aia where "usage = (ku, eku, aia)" by (cases usage)
  with s(3) have s3: "sign_claimed_csr e pf rq (ku, eku, aia) ca i p1 = Inr (p', n)" by simp
  have c1: "csr_of i p1 = Some (csr\<lparr>cs_status := ''signing''\<rparr>)" "p_certs p1 = p_certs p"
    using claim_csr_eq [OF assms(2) s(1,2)] by blast+
  from s3 obtain csr1 cert kt where r: "csr_of i p1 = Some csr1"
    "sign_leaf e ca (rq_subject (cs_csr csr1)) (rq_key (cs_csr csr1)) (ir_validity rq)
       \<lparr>lo_key_usage = ku, lo_ext_key_usage = eku, lo_san = effective_san rq csr1, lo_ocsp = ir_ocsp rq,
        lo_crl_dp = ir_crl_dp rq, lo_include_aia = aia, lo_policies = policies_for ca pf\<rparr> = Inr cert"
    "n = fresh_id ct_id (p_certs p1)"
    "p' = (set_csr (csr1\<lparr>cs_status := ''approved'', cs_certificate := Some n, cs_ca := Some (ca_id ca), cs_signed_by := ir_by rq\<rparr>) p1)
       \<lparr>p_certs := p_certs p1 @ [csr_certificate p1 e pf rq ku eku ca csr1 cert kt]\<rparr>" by (rule sign_claimed_ok)
  have "effective_san rq csr1 = effective_san rq row" using r(1) c1(1) s(1) assms(3) by (auto simp: effective_san_def)
  with sign_leaf_ok(10) [OF r(2)] have san: "build_general_names (e_gn_ok e) (effective_san rq row) = Inr (x_san cert)" by simp
  have "wf_csrs p1" using claim_csr_status(1) [OF assms(2) s(2)] by simp
  then show thesis
    by (intro that [of "csr_certificate p1 e pf rq ku eku ca csr1 cert kt"]) (use r(3,4) c1(2) san in simp_all)
qed

text \<open>Signing for an order: the certificate holds no other names than the CSR.\<close>

lemma acme_sign_tables:
  assumes "acme_sign ae ca f csr names p = (p', res)" "wf_csrs p"
  shows "wf_csrs p'" "res = Inl x \<Longrightarrow> p_certs p' = p_certs p"
    "res = Inr n \<Longrightarrow> check_csr csr wanted = Inr () \<Longrightarrow> \<exists>c. p_certs p' = p_certs p @ [c] \<and> ct_id c = n \<and> n = fresh_id ct_id (p_certs p)
      \<and> (\<forall>(k, v) \<in> set (x_san (ct_cert c)). k = ''dns'' \<and> canonical_name v \<in> canonical_name ` set wanted)"
proof -
  have "wf_csrs p' \<and> (res = Inl x \<longrightarrow> p_certs p' = p_certs p)
      \<and> (res = Inr n \<longrightarrow> check_csr csr wanted = Inr () \<longrightarrow> (\<exists>c. p_certs p' = p_certs p @ [c] \<and> ct_id c = n \<and> n = fresh_id ct_id (p_certs p)
      \<and> (\<forall>(k, v) \<in> set (x_san (ct_cert c)). k = ''dns'' \<and> canonical_name v \<in> canonical_name ` set wanted)))"
  proof (cases "import_csr (ae_env ae) csr None (Some (pf_id f)) p")
    case (Inl y)
    then show ?thesis using assms by (auto simp: acme_sign_def)
  next
    case (Inr q)
    obtain p1 i where q: "q = (p1, i)" by (cases q)
    note im = import_csr_row [OF Inr [unfolded q] assms(2)]
    obtain row where row: "csr_of i p1 = Some row" "cs_san row = some_nonempty (extension_to_strings (rq_san csr))" using im(3) by blast
    let ?g = "\<lambda>c. if cs_id c = i then c\<lparr>cs_common_name := issued_cn csr names, cs_ca := Some (ca_id ca)\<rparr> else c"
    let ?p2 = "p1\<lparr>p_csrs := map ?g (p_csrs p1)\<rparr>"
    have p2: "wf_csrs ?p2" "p_certs ?p2 = p_certs p" using im(1,2) wf_table_map [of "p_csrs p1" cs_id ?g] by (simp_all add: wf_csrs_def)
    have row2: "csr_of i ?p2 = Some (?g row)"
      using row(1) get_row_map [of "p_csrs p1" cs_id ?g i] by (simp add: csr_of_def)
    show ?thesis
    proof (cases "issuance_urls (ae_urls ae) (ca_id ca) None")
      case (Inl y)
      then show ?thesis using assms(1) Inr q p2 by (auto simp: acme_sign_def Let_def)
    next
      case (Inr urls)
      then have sign: "sign_csr (ae_env ae) (Some f) (acme_request_for ae f urls) ca i ?p2 = (p', res)"
        using assms(1) \<open>import_csr (ae_env ae) csr None (Some (pf_id f)) p = Inr q\<close> q by (simp add: acme_sign_def Let_def)
      show ?thesis
      proof (cases res)
        case (Inl y)
        then show ?thesis using sign_csr_failed [OF sign [unfolded Inl] p2(1)] p2(2) by simp
      next
        case (Inr m)
        from sign_csr_row [OF sign [unfolded Inr] p2(1) row2] obtain c where c: "p_certs p' = p_certs ?p2 @ [c]" "ct_id c = m"
          "m = fresh_id ct_id (p_certs ?p2)" "wf_csrs p'"
          "build_general_names (e_gn_ok (ae_env ae)) (effective_san (acme_request_for ae f urls) (?g row)) = Inr (x_san (ct_cert c))" .
        have "effective_san (acme_request_for ae f urls) (?g row) = extension_to_strings (rq_san csr)"
          using row(2) by (simp add: effective_san_def acme_request_for_def some_nonempty_def split: if_splits)
        then have san: "build_general_names (e_gn_ok (ae_env ae)) (extension_to_strings (rq_san csr)) = Inr (x_san (ct_cert c))" using c(5) by simp
        have "\<forall>(k, v) \<in> set (x_san (ct_cert c)). k = ''dns'' \<and> canonical_name v \<in> canonical_name ` set wanted"
          if ok: "check_csr csr wanted = Inr ()"
        proof clarify
          fix k v
          assume kv: "(k, v) \<in> set (x_san (ct_cert c))"
          have dns: "extension_to_strings (rq_san csr) = map (\<lambda>n. ''DNS:'' @ n) (map snd (rq_san csr))"
            using check_csr_names [OF ok] by (intro extension_of_dns) blast
          from general_names_of_dns [OF san [unfolded dns] kv]
          obtain n where n: "k = ''dns''" "n \<in> snd ` set (rq_san csr)" "canonical_name v = canonical_name n" by auto
          then have "rstrip_dots (lower_str n) \<in> set wanted" using check_csr_names [OF ok] by auto
          then show "k = ''dns'' \<and> canonical_name v \<in> canonical_name ` set wanted" using n(1,3) canonical_name_dots by (metis imageI)
        qed
        then show ?thesis using c p2 Inr by auto
      qed
    qed
  qed
  then show "wf_csrs p'" "res = Inl x \<Longrightarrow> p_certs p' = p_certs p"
    "res = Inr n \<Longrightarrow> check_csr csr wanted = Inr () \<Longrightarrow> \<exists>c. p_certs p' = p_certs p @ [c] \<and> ct_id c = n \<and> n = fresh_id ct_id (p_certs p)
      \<and> (\<forall>(k, v) \<in> set (x_san (ct_cert c)). k = ''dns'' \<and> canonical_name v \<in> canonical_name ` set wanted)" by blast+
qed

lemma acme_certs_marked:
  assumes "p_certs p = p_certs q @ [c]" "ct_id c = n" "n = fresh_id ct_id (p_certs q)"
  shows "acme_certs (mark_acme n a p) = (acme_certs q)(n \<mapsto> (a, set (x_san (ct_cert c))))"
proof
  fix j
  let ?f = "\<lambda>c. if ct_id c = n then c\<lparr>ct_source := Some ''acme'', ct_acme_account := Some a\<rparr> else c"
  have none: "get_row ct_id n (p_certs q) = None" using fresh_id_notin assms(3) by (simp add: get_row_None)
  have "get_row ct_id j (p_certs (mark_acme n a p)) = map_option ?f (get_row ct_id j (p_certs q @ [c]))"
    using get_row_map [of "p_certs q @ [c]" ct_id ?f j] by (simp add: mark_acme_def assms(1))
  also have "get_row ct_id j (p_certs q @ [c]) = (if j = n then Some c else get_row ct_id j (p_certs q))"
    using none assms(2) by (auto simp: get_row_snoc split: option.split)
  finally have "get_row ct_id j (p_certs (mark_acme n a p))
      = (if j = n then Some (c\<lparr>ct_source := Some ''acme'', ct_acme_account := Some a\<rparr>) else map_option ?f (get_row ct_id j (p_certs q)))"
    using assms(2) by simp
  moreover have "map_option ?f (get_row ct_id j (p_certs q)) = get_row ct_id j (p_certs q)" if "j \<noteq> n"
    using that get_row_key [of ct_id j "p_certs q"] by (cases "get_row ct_id j (p_certs q)") auto
  ultimately show "acme_certs (mark_acme n a p) j = ((acme_certs q)(n \<mapsto> (a, set (x_san (ct_cert c))))) j"
    by (auto simp: acme_certs_def cert_view_def)
qed

lemma issued_refines:
  assumes "wf_acme st" "get_order i st = Some r" "ao_status r = ''processing''" "order_key r' = order_key r" "ao_identifiers r' = ao_identifiers r"
    "ao_status r' = ''valid''" "wf_csrs q" "acme_certs q = (acme_certs (ac_pki st))(n \<mapsto> (ao_account r, sans))" "acme_certs (ac_pki st) n = None"
    "\<forall>(k, v) \<in> sans. k = ''dns'' \<and> canonical_name v \<in> canonical_name ` set (ao_identifiers r)"
  shows "refines C st (put_order r' (st\<lparr>ac_pki := q\<rparr>))"
proof (rule refines_step)
  let ?s = "st\<lparr>ac_pki := q\<rparr>"
  have s: "wf_acme ?s" "get_order i ?s = Some r" using wf_other_tables(1) [OF assms(1,7)] assms(2) by (simp_all add: get_order_def)
  have v: "ao_status r' \<in> ORDER_STATES" using assms(6) by (simp add: ORDER_STATES_def)
  note m = move_order [OF s assms(4,5) v]
  show "wf_acme (put_order r' ?s)" by (rule m(1))
  fix P
  let ?m = "protocol_of P st"
  have "protocol_of P ?s = ?m\<lparr>pr_certs := (pr_certs ?m)(n \<mapsto> (ao_account r, sans))\<rparr>"
    using assms(8) by (simp add: protocol_of_def get_order_def get_authz_def)
  moreover have "order_view r' = (ao_account r, set (ao_identifiers r), Order_valid)"
    using assms(4-6) by (simp add: order_view_def order_key_def order_state_def)
  ultimately have eq: "protocol_of P (put_order r' ?s) = ?m\<lparr>pr_orders := (pr_orders ?m)(i \<mapsto> (ao_account r, set (ao_identifiers r), Order_valid)),
      pr_certs := (pr_certs ?m)(n \<mapsto> (ao_account r, sans))\<rparr>" unfolding m(2) by simp
  have "pr_orders ?m i = Some (ao_account r, set (ao_identifiers r), Order_processing)"
    using assms(2,3) by (simp add: protocol_of_def order_view_def order_state_def)
  moreover have "pr_certs ?m n = None" using assms(9) by (simp add: protocol_of_def)
  ultimately have "rfc_step canonical_name C ?m (protocol_of P (put_order r' ?s))"
    unfolding eq using assms(10) by (intro rfc_step.issue) auto
  then show "\<exists>Q. rfc_step canonical_name C ?m (protocol_of Q (put_order r' ?s))" by blast
qed

lemma issue_order_refines:
  assumes "wf_acme st" "get_order i st = Some r" "ao_status r = ''ready''" "aa_id a = ao_account r" "check_csr csr (ao_identifiers r) = Inr ()"
  shows "refines C st (fst (issue_order ae ca a r csr f st))"
proof -
  let ?r = "r\<lparr>ao_status := ''processing'', ao_csr := Some csr\<rparr>"
  let ?s = "put_order ?r st"
  have started: "refines C st ?s" by (rule refines_start [OF assms(1-3)]) (simp_all add: order_key_def)
  note wf = refines_wf [OF started]
  have id: "ao_id ?r = i" using get_mem(1) [OF assms(2)] by simp
  have r: "get_order i ?s = Some ?r" using assms(2) id by (simp add: put_order_def get_order_def get_put_same)
  have pki: "ac_pki ?s = ac_pki st" by (simp add: put_order_def)
  obtain p res where sign: "acme_sign ae ca f csr (ao_identifiers r) (ac_pki st) = (p, res)" by fastforce
  note tab = acme_sign_tables [OF sign wf_csrs_of [OF assms(1)]]
  show ?thesis
  proof (cases res)
    case (Inl x)
    have "acme_certs p = acme_certs (ac_pki ?s)" unfolding pki by (rule acme_certs_cong) (rule tab(2) [OF Inl])
    then have kept: "refines C st (?s\<lparr>ac_pki := p\<rparr>)" using refines_trans [OF started refines_pki [OF wf tab(1)]] by simp
    let ?bad = "?r\<lparr>ao_status := ''invalid'', ao_error := Some ''badCSR''\<rparr>"
    have "get_order i (?s\<lparr>ac_pki := p\<rparr>) = Some ?r" using r by (simp add: get_order_def)
    from refines_put_order [OF refines_wf [OF kept] this, of ?bad]
    have "refines C (?s\<lparr>ac_pki := p\<rparr>) (put_order ?bad (?s\<lparr>ac_pki := p\<rparr>))" by (simp add: order_key_def ORDER_STATES_def order_cancelled_def)
    with kept have "refines C st (put_order ?bad (?s\<lparr>ac_pki := p\<rparr>))" by (rule refines_trans)
    with kept show ?thesis using sign Inl pki by (simp add: issue_order_def Let_def refines_log)
  next
    case (Inr n)
    obtain c where c: "p_certs p = p_certs (ac_pki st) @ [c]" "ct_id c = n" "n = fresh_id ct_id (p_certs (ac_pki st))"
      "\<forall>(k, v) \<in> set (x_san (ct_cert c)). k = ''dns'' \<and> canonical_name v \<in> canonical_name ` set (ao_identifiers r)"
      using tab(3) [OF Inr assms(5)] by auto
    let ?q = "mark_acme n (aa_id a) p" and ?ok = "?r\<lparr>ao_status := ''valid'', ao_certificate := Some n, ao_finalized := Some (ae_now ae)\<rparr>"
    have q: "wf_csrs ?q" using tab(1) by (simp add: mark_acme_def wf_csrs_def)
    have certs: "acme_certs ?q = (acme_certs (ac_pki ?s))(n \<mapsto> (ao_account ?r, set (x_san (ct_cert c))))"
      unfolding pki using acme_certs_marked [OF c(1-3), of "aa_id a"] assms(4) by simp
    have fresh: "acme_certs (ac_pki ?s) n = None"
      using c(3) fresh_id_notin [of ct_id "p_certs (ac_pki st)"] by (simp add: pki acme_certs_def get_row_None [THEN iffD2])
    have "refines C ?s (put_order ?ok (?s\<lparr>ac_pki := ?q\<rparr>))"
      by (rule issued_refines [OF wf r _ _ _ _ q certs fresh]) (use c(4) in \<open>simp_all add: order_key_def\<close>)
    with started have "refines C st (put_order ?ok (?s\<lparr>ac_pki := ?q\<rparr>))" by (rule refines_trans)
    then show ?thesis using sign Inr pki by (simp add: issue_order_def Let_def refines_log)
  qed
qed

lemma order_csr_checked: "order_csr ae r payload = Inr csr \<Longrightarrow> check_csr csr (ao_identifiers r) = Inr ()"
  by (auto simp: order_csr_def and_then_Inr split: option.splits json.splits sum.splits)

text \<open>Both results of \<open>finalize\<close>, the committed state and the session, are reached by steps of the protocol.\<close>

lemma finalize_refines:
  assumes "wf_acme st" "\<And>r. get_order i st = Some r \<Longrightarrow> ao_account r = aa_id a" "finalize ae ca a i payload st = (committed, session, res)"
  shows "refines C st session" "committed = Some st1 \<Longrightarrow> refines C st st1"
proof -
  let ?s = "refresh_order (ae_now ae) i st"
  have s: "evolves C st ?s" by (rule refresh_order_evolves [OF assms(1)])
  have "refines C st session \<and> (committed = Some st1 \<longrightarrow> refines C st st1)"
  proof (cases "get_order i ?s")
    case None
    then show ?thesis using assms(3) s by (auto simp: finalize_def Let_def evolves_def)
  next
    case (Some r)
    show ?thesis
    proof (cases "ao_status r = ''ready''")
      case False
      then show ?thesis using assms(3) s Some by (auto simp: finalize_def Let_def evolves_def split: if_splits)
    next
      case True
      have acct: "aa_id a = ao_account r"
        using frame_rows(1) [of st ?s i r] s Some assms(2) by (auto simp: evolves_def)
      show ?thesis
      proof (cases "and_then (order_csr ae r payload) (\<lambda>csr. and_then (acme_profile (ac_pki ?s) ca) (\<lambda>f. Inr (csr, f)))")
        case (Inl x)
        then show ?thesis using assms(3) s Some True by (auto simp: finalize_def Let_def evolves_def)
      next
        case (Inr q)
        obtain csr f where q: "q = (csr, f)" by (cases q)
        then have "order_csr ae r payload = Inr csr" using Inr by (auto simp: and_then_Inr)
        from issue_order_refines [OF evolves_wf [OF s] Some True acct order_csr_checked [OF this]]
        have "refines C st (fst (issue_order ae ca a r csr f ?s))" using evolves_refines [OF s] refines_trans by blast
        then show ?thesis using assms(3) Some True Inr q by (auto simp: finalize_def Let_def split: prod.splits)
      qed
    qed
  qed
  then show "refines C st session" "committed = Some st1 \<Longrightarrow> refines C st st1" by blast+
qed

section \<open>Revocation\<close>

lemma revoke_certificate_certs:
  assumes "revoke_certificate e reason False i p = Inr (p', x)"
  shows "acme_certs p' = acme_certs p" "p_csrs p' = p_csrs p"
proof -
  from assms obtain c where c: "get_row ct_id i (p_certs p) = Some c"
    and p': "p' = p\<lparr>p_certs := put_row ct_id (c\<lparr>ct_revoked := True, ct_revoked_at := Some (e_now e), ct_reason := Some reason\<rparr>) (p_certs p)\<rparr>"
    by (auto simp: revoke_certificate_def Let_def split: option.splits if_splits)
  have "get_row ct_id j (p_certs p') = (if j = i then Some (c\<lparr>ct_revoked := True, ct_revoked_at := Some (e_now e), ct_reason := Some reason\<rparr>)
      else get_row ct_id j (p_certs p))" for j
    using c get_row_key [OF c] by (simp add: p' get_put_same get_put_other)
  then show "acme_certs p' = acme_certs p" using c by (auto simp: acme_certs_def cert_view_def)
  show "p_csrs p' = p_csrs p" by (simp add: p')
qed

lemma refresh_crl_tables: "refresh_crl e i p = Inr p' \<Longrightarrow> p_certs p' = p_certs p \<and> p_csrs p' = p_csrs p"
  by (auto simp: refresh_crl_def generate_crl_def and_then_Inr put_ca_def Let_def split: option.splits if_splits)

lemma acme_revoke_refines:
  assumes "wf_acme st"
  shows "refines C st (fst (acme_revoke ae ca v st))"
proof (cases "revoke_checks ae ca v st")
  case (Inl x)
  then show ?thesis using refines_refl [OF assms] by (simp add: acme_revoke_def)
next
  case (Inr q)
  obtain c reason where q: "q = (c, reason)" by (cases q)
  show ?thesis
  proof (cases "revoke_certificate (ae_env ae) reason False (ct_id c) (ac_pki st)")
    case (Inl x)
    then show ?thesis using refines_refl [OF assms] Inr q by (simp add: acme_revoke_def)
  next
    case r: (Inr y)
    obtain p z where y: "y = (p, z)" by (cases y)
    let ?log = "acme_log ae ''acme_certificate_revoked'' ''certificate'' (ct_id c)
       (JObj [(''ca_id'', JInt (int (ca_id ca))), (''reason'', JStr reason),
          (''by'', JStr (case vf_account v of None \<Rightarrow> ''certificate-key'' | Some _ \<Rightarrow> ''account'')),
          (''account_id'', j_opt_nat (map_option aa_id (vf_account v)))]) (st\<lparr>ac_pki := p\<rparr>)"
    note t = revoke_certificate_certs [OF r [unfolded y]]
    have "refines C st (st\<lparr>ac_pki := p\<rparr>)"
      using wf_csrs_of [OF assms] t by (intro refines_pki [OF assms]) (simp_all add: wf_csrs_def)
    then have log: "refines C st ?log" by (rule refines_log)
    have "refines C ?log (?log\<lparr>ac_pki := p2\<rparr>)" if "refresh_crl (ae_env ae) (Some (ca_id ca)) (ac_pki ?log) = Inr p2" for p2
      using refresh_crl_tables [OF that] wf_csrs_of [OF refines_wf [OF log]]
      by (intro refines_pki [OF refines_wf [OF log]] acme_certs_cong) (simp_all add: wf_csrs_def)
    with log show ?thesis
      using refines_trans [OF log] Inr q r y
      by (cases "refresh_crl (ae_env ae) (Some (ca_id ca)) (ac_pki ?log)") (auto simp: acme_revoke_def Let_def)
  qed
qed

section \<open>Requests\<close>

lemma account_for_kid_Inr:
  assumes "account_for_kid ae st ca kid = Inr a"
  shows "a \<in> set (ac_accounts st)" "aa_ca a = ca_id ca" "aa_status a = ''valid''" "kid = account_url ae (ca_id ca) (aa_id a)"
  using assms get_mem(4) by (auto simp: account_for_kid_def Let_def split: option.splits)

text \<open>A verified request: its nonce is gone, its account is a valid row of the CA.\<close>

lemma acme_verified_ok:
  assumes "acme_verified ae ca hq st = (st', Inr v)"
  shows "\<exists>p. st' = st\<lparr>ac_nonces := filter p (ac_nonces st)\<rparr>"
    "vf_account v = Some a \<Longrightarrow> a \<in> set (ac_accounts st) \<and> aa_ca a = ca_id ca \<and> aa_status a = ''valid'' \<and> vf_jwk v = aa_jwk a"
proof -
  from assms obtain body where b: "jws_verify (ae_jose ae) body (hq_url hq) (account_for_kid ae st ca) aa_jwk (allows_jwk (hq_route hq))
      (hq_route hq \<noteq> New_account) True = Inr v" "st' = fst (consume_nonce ae (jget ''nonce'' (vf_protected v)) st)"
    by (auto simp: acme_verified_def and_then_Inr split: sum.splits prod.splits if_splits)
  show "\<exists>p. st' = st\<lparr>ac_nonces := filter p (ac_nonces st)\<rparr>" unfolding b(2) by (rule consume_nonce_tables)
  assume a: "vf_account v = Some a"
  from jws_verify_ok [OF b(1)] have "request_key (ae_jose ae) (vf_protected v) (account_for_kid ae st ca) aa_jwk (allows_jwk (hq_route hq)) (hq_route hq \<noteq> New_account)
      = Inr (vf_jwk v, vf_kid v, vf_account v, vf_key v)" by blast
  from request_key_Inr(2) [OF this] a obtain i where "account_for_kid ae st ca i = Inr a" "vf_jwk v = aa_jwk a" by auto
  then show "a \<in> set (ac_accounts st) \<and> aa_ca a = ca_id ca \<and> aa_status a = ''valid'' \<and> vf_jwk v = aa_jwk a"
    using account_for_kid_Inr by metis
qed

lemma acme_verified_tables: "\<exists>p. fst (acme_verified ae ca hq st) = st\<lparr>ac_nonces := filter p (ac_nonces st)\<rparr>"
proof -
  have "st = st\<lparr>ac_nonces := filter (\<lambda>_. True) (ac_nonces st)\<rparr>" by simp
  then have "\<exists>p. st = st\<lparr>ac_nonces := filter p (ac_nonces st)\<rparr>" by blast
  then show ?thesis using consume_nonce_tables [of ae _ st]
    by (auto simp: acme_verified_def split: sum.splits prod.splits if_splits) (metis fst_conv)+
qed

lemma load_authz_Inr: "load_authz ca a i st = Inr z \<Longrightarrow> get_authz i st = Some z \<and> az_ca z = ca \<and> az_account z = a"
  by (auto simp: load_authz_def split: option.splits if_splits)

lemma load_challenge_Inr:
  "load_challenge ca a i st = Inr c \<Longrightarrow> get_chall i st = Some c \<and> (\<exists>z. load_authz ca a (ch_authz c) st = Inr z)"
  by (auto simp: load_challenge_def and_then_Inr split: option.splits)

lemma load_order_Inr: "load_order ca a i st = Inr r \<Longrightarrow> get_order i st = Some r \<and> ao_ca r = ca \<and> ao_account r = a"
  by (auto simp: load_order_def split: option.splits if_splits)

lemma view_authz_evolves:
  assumes "wf_acme st"
  shows "evolves (proved_by ae st) st (fst (view_authz ae ca a payload i st))"
proof (cases "load_authz ca a i st")
  case (Inl x)
  then show ?thesis using evolves_refl [OF assms] by (simp add: view_authz_def)
next
  case (Inr z)
  obtain st1 res where p: "poll_authz ae i st = (st1, res)" by fastforce
  then have s1: "evolves (proved_by ae st) st st1" using poll_authz_evolves [OF assms, of ae i] by simp
  have "evolves (proved_by ae st) st (deactivate_authz ae i st1)" by (rule evolves_trans [OF s1 deactivate_authz_evolves [OF evolves_wf [OF s1]]])
  with s1 show ?thesis using Inr p by (cases res) (simp_all add: view_authz_def)
qed

lemma view_chall_evolves:
  assumes "wf_acme st" "a \<in> set (ac_accounts st)"
  shows "evolves (proved_by ae st) st (fst (view_chall ae ca a payload i st))"
proof (cases "load_challenge ca (aa_id a) i st")
  case (Inl x)
  then show ?thesis using evolves_refl [OF assms(1)] by (simp add: view_chall_def)
next
  case (Inr c)
  obtain st1 res where p: "poll_authz ae (ch_authz c) st = (st1, res)" by fastforce
  then have s1: "evolves (proved_by ae st) st st1" using poll_authz_evolves [OF assms(1), of ae "ch_authz c"] by simp
  then have f: "frame st st1" by (simp add: evolves_def)
  have owner: "az_account z = aa_id a" if "get_chall i st1 = Some c1" "get_authz (ch_authz c1) st1 = Some z" for c1 z
    using frame_rows(2) [OF f that(2)] frame_rows(3) [OF f that(1)] load_challenge_Inr [OF Inr] load_authz_Inr by fastforce
  have "a \<in> set (ac_accounts st1)" using f assms(2) by (simp add: frame_def)
  from respond_challenge_evolves [OF evolves_wf [OF s1] this, of i ae] owner
  have "evolves (proved_by ae st) st1 (fst (respond_challenge ae a i st1))" unfolding frame_proved [OF f] by blast
  with s1 have "evolves (proved_by ae st) st (fst (respond_challenge ae a i st1))" by (rule evolves_trans)
  with s1 show ?thesis using Inr p by (cases res) (simp_all add: view_chall_def with_result_def)
qed

lemma view_finalize_refines:
  assumes "wf_acme st" "view_finalize ae ca a payload i st = (committed, session, res)"
  shows "refines C st committed \<and> refines C st session"
proof (cases "load_order (ca_id ca) (aa_id a) i st")
  case (Inl x)
  then show ?thesis using refines_refl [OF assms(1)] assms(2) by (auto simp: view_finalize_def)
next
  case (Inr r)
  let ?s = "refresh_order (ae_now ae) i st"
  have s: "evolves C st ?s" by (rule refresh_order_evolves [OF assms(1)])
  have owner: "ao_account r' = aa_id a" if "get_order i ?s = Some r'" for r'
    using frame_rows(1) [of st ?s i r'] that s load_order_Inr [OF Inr] by (auto simp: evolves_def)
  obtain cm se re where f: "finalize ae ca a i payload ?s = (cm, se, re)" using prod_cases3 by blast
  have fin: "refines C ?s se" "cm = Some st1 \<Longrightarrow> refines C ?s st1" for st1
    using finalize_refines [OF evolves_wf [OF s] owner f] by blast+
  have "refines C st se" "cm = Some st1 \<Longrightarrow> refines C st st1" for st1
    using fin refines_trans [OF evolves_refines [OF s]] by blast+
  then show ?thesis using assms(2) Inr f refines_refl [OF assms(1)] by (cases cm) (auto simp: view_finalize_def)
qed

lemma acme_view_refines:
  assumes "wf_acme st" "acme_view ae ca hq v st = (committed, session, res)"
    "\<And>a. vf_account v = Some a \<Longrightarrow> a \<in> set (ac_accounts st) \<and> aa_ca a = ca_id ca"
  shows "refines (proved_by ae st) st committed \<and> refines (proved_by ae st) st session"
proof -
  let ?C = "proved_by ae st"
  note refl = refines_refl [OF assms(1), of ?C]
  have plain: ?thesis if "acme_view ae ca hq v st = uncommitted st q" "refines ?C st (fst q)" for q
    using that assms(2) refl by (cases q) (auto simp: uncommitted_def)
  show ?thesis
  proof (cases "hq_route hq")
    case New_account
    then show ?thesis using assms(2) refl new_account_refines [OF assms(1), of ?C ae ca v] by (auto simp: acme_view_def split: prod.splits)
  next
    case Revoke_cert
    then show ?thesis using plain [of "acme_revoke ae ca v st"] acme_revoke_refines [OF assms(1)] by (simp add: acme_view_def)
  next
    case (Account i)
    show ?thesis
    proof (cases "vf_account v")
      case (Some a)
      then have a: "a \<in> set (ac_accounts st)" using assms(3) by simp
      have "refines ?C st (fst (view_account ae ca a (vf_payload v) i st))"
        using refl update_account_refines [OF assms(1) a] by (simp add: view_account_def split: option.split)
      then show ?thesis using plain Account Some by (simp add: acme_view_def)
    qed (use assms(2) refl Account in \<open>auto simp: acme_view_def\<close>)
  next
    case (Account_orders i)
    then show ?thesis using assms(2) refl by (cases "vf_account v") (auto simp: acme_view_def)
  next
    case New_order
    show ?thesis
    proof (cases "vf_account v")
      case (Some a)
      then have a: "a \<in> set (ac_accounts st)" "aa_ca a = ca_id ca" using assms(3) by simp_all
      have "refines ?C st (fst (new_order ae ca a (vf_payload v) st))" by (rule new_order_refines [OF assms(1) a])
      then show ?thesis using plain New_order Some by (simp add: acme_view_def)
    qed (use assms(2) refl New_order in \<open>auto simp: acme_view_def\<close>)
  next
    case (Order i)
    show ?thesis
    proof (cases "vf_account v")
      case (Some a)
      then have a: "a \<in> set (ac_accounts st)" "aa_ca a = ca_id ca" using assms(3) by simp_all
      have "refines ?C st (fst (view_order ae (ca_id ca) (aa_id a) i st))" using refl evolves_refines [OF refresh_order_evolves [OF assms(1)]] by (simp add: view_order_def split: sum.split)
      then show ?thesis using plain Order Some by (simp add: acme_view_def)
    qed (use assms(2) refl Order in \<open>auto simp: acme_view_def\<close>)
  next
    case (Finalize i)
    then show ?thesis using assms(2) refl view_finalize_refines [OF assms(1)]
      by (cases "vf_account v") (auto simp: acme_view_def)
  next
    case (Authz i)
    show ?thesis
    proof (cases "vf_account v")
      case (Some a)
      then have a: "a \<in> set (ac_accounts st)" "aa_ca a = ca_id ca" using assms(3) by simp_all
      have "refines ?C st (fst (view_authz ae (ca_id ca) (aa_id a) (vf_payload v) i st))" by (rule evolves_refines [OF view_authz_evolves [OF assms(1)]])
      then show ?thesis using plain Authz Some by (simp add: acme_view_def)
    qed (use assms(2) refl Authz in \<open>auto simp: acme_view_def\<close>)
  next
    case (Chall i)
    show ?thesis
    proof (cases "vf_account v")
      case (Some a)
      then have a: "a \<in> set (ac_accounts st)" "aa_ca a = ca_id ca" using assms(3) by simp_all
      have "refines ?C st (fst (view_chall ae (ca_id ca) a (vf_payload v) i st))" by (rule evolves_refines [OF view_chall_evolves [OF assms(1) a(1)]])
      then show ?thesis using plain Chall Some by (simp add: acme_view_def)
    qed (use assms(2) refl Chall in \<open>auto simp: acme_view_def\<close>)
  next
    case (Cert i)
    then show ?thesis using assms(2) refl by (cases "vf_account v") (auto simp: acme_view_def)
  next
    case Key_change
    show ?thesis
    proof (cases "vf_account v")
      case (Some a)
      then have a: "a \<in> set (ac_accounts st)" "aa_ca a = ca_id ca" using assms(3) by simp_all
      have "refines ?C st (fst (case vf_payload v of None \<Rightarrow> (st, Inl malformed) | Some inner \<Rightarrow> change_key ae ca a inner (ae_base ae @ ''/acme/'' @ show_nat (ca_id ca) @ ''/key-change'') st))" using refl change_key_refines [OF assms(1) a(1)] by (simp split: option.split)
      then show ?thesis using plain Key_change Some by (simp add: acme_view_def)
    qed (use assms(2) refl Key_change in \<open>auto simp: acme_view_def\<close>)
  qed
qed

lemma nonces_proved: "proved_by ae (st\<lparr>ac_nonces := ns\<rparr>) = proved_by ae st"
  by (simp add: proved_by_def fun_eq_iff)

lemma acme_post_simulated:
  assumes "wf_acme st"
  shows "refines (proved_by ae st) st (fst (acme_post ae hq st))"
proof -
  let ?C = "proved_by ae st"
  have nonce: "refines ?C st (issue_nonce ae s)" if "refines ?C st s" for s
    using refines_trans [OF that issue_nonce_refines [OF refines_wf [OF that]]] .
  show ?thesis
  proof (cases "load_ca ae hq st")
    case (Inl x)
    then show ?thesis using nonce [OF refines_refl [OF assms]] by (simp add: acme_post_def)
  next
    case (Inr ca)
    obtain st1 res where v: "acme_verified ae ca hq st = (st1, res)" by fastforce
    then obtain p where st1: "st1 = st\<lparr>ac_nonces := filter p (ac_nonces st)\<rparr>" using acme_verified_tables [of ae ca hq st] by auto
    have s1: "refines ?C st st1" unfolding st1
      using distinct_nonces [OF wf_tables(6) [OF assms]] by (intro refines_same_tables wf_other_tables(2) [OF assms]) simp_all
    show ?thesis
    proof (cases res)
      case (Inl x)
      then show ?thesis using nonce [OF s1] Inr v by (simp add: acme_post_def)
    next
      case r: (Inr w)
      obtain cm se re where w: "acme_view ae ca hq w st1 = (cm, se, re)" using prod_cases3 by blast
      have acct: "a \<in> set (ac_accounts st1) \<and> aa_ca a = ca_id ca" if "vf_account w = Some a" for a
        using acme_verified_ok(2) [OF v [unfolded r] that] by (simp add: st1)
      have "refines (proved_by ae st1) st1 cm \<and> refines (proved_by ae st1) st1 se"
        by (rule acme_view_refines [OF refines_wf [OF s1] w acct])
      then have "refines ?C st1 cm \<and> refines ?C st1 se" by (simp add: st1 nonces_proved)
      then have "refines ?C st cm" "refines ?C st se" using refines_trans [OF s1] by blast+
      then have "refines ?C st (fst (settle_session (acme_view ae ca hq w st1)))"
        unfolding w by (cases re) (auto simp: settle_session_def split: acme_problem.splits)
      then show ?thesis using nonce Inr v r by (cases "settle_session (acme_view ae ca hq w st1)") (simp add: acme_post_def)
    qed
  qed
qed

section \<open>The server over time\<close>

text \<open>
  What changes the tables: a request, the maintenance job, an administrator who
  creates or revokes a key for external accounts, and the rest of the program,
  which may do what it likes with the other certificates, authorities and rows,
  but neither adds nor takes away a certificate issued through ACME.
\<close>

inductive server_step :: "acme_env \<Rightarrow> acme \<Rightarrow> acme \<Rightarrow> bool" for ae where
  post: "server_step ae st (fst (acme_post ae hq st))"
| maintain: "server_step ae st (acme_maintain ae st)"
| create_eab: "server_step ae st (fst (create_eab_key ae kid ca name u st))"
| revoke_eab: "server_step ae st (revoke_eab_key i st)"
| elsewhere: "wf_csrs p \<Longrightarrow> acme_certs p = acme_certs (ac_pki st) \<Longrightarrow> server_step ae st (st\<lparr>ac_pki := p\<rparr>)"

inductive_cases server_stepE: "server_step ae st st'"

lemma server_step_refines: "server_step ae st st' \<Longrightarrow> wf_acme st \<Longrightarrow> refines (proved_by ae st) st st'"
  by (erule server_stepE)
    (simp_all add: acme_post_simulated acme_maintain_refines create_eab_refines revoke_eab_refines refines_pki)

definition empty_acme :: "pki \<Rightarrow> acme" where
  "empty_acme p = \<lparr>ac_pki = p, ac_nonces = [], ac_eabs = [], ac_accounts = [], ac_orders = [], ac_authzs = [], ac_challs = []\<rparr>"

text \<open>
  The states of a server that started with empty tables. The second argument
  collects what could be proved at the moments of its history: which account,
  with the key and the tokens it had then, could show which name.
\<close>

inductive acme_history :: "acme \<Rightarrow> (nat \<times> string) set \<Rightarrow> bool" where
  start: "wf_csrs p \<Longrightarrow> acme_certs p = Map.empty \<Longrightarrow> acme_history (empty_acme p) {}"
| step: "acme_history st P \<Longrightarrow> server_step ae st st' \<Longrightarrow> acme_history st' (P \<union> {(a, name). proved_by ae st a name})"

lemma empty_acme_ok:
  assumes "wf_csrs p" "acme_certs p = Map.empty"
  shows "wf_acme (empty_acme p)" "protocol_inv canonical_name (protocol_of {} (empty_acme p))"
  using assms by (simp_all add: empty_acme_def wf_acme_def keys_unique_def rows_ok_def wf_table_def protocol_inv_def names_backed_def
      authzs_proved_def completed_proved_def certs_proved_def protocol_of_def get_order_def get_authz_def get_row_def)

lemma acme_history_inv:
  assumes "acme_history st P"
  shows "wf_acme st \<and> (\<exists>Q \<subseteq> P. protocol_inv canonical_name (protocol_of Q st))"
  using assms
proof (induction rule: acme_history.induct)
  case (start p)
  then show ?case using empty_acme_ok by blast
next
  case (step st P ae st')
  then obtain Q where Q: "wf_acme st" "Q \<subseteq> P" "protocol_inv canonical_name (protocol_of Q st)" by blast
  from server_step_refines [OF step(2) Q(1)] obtain R where R: "wf_acme st'"
    "rfc_steps canonical_name (proved_by ae st) (protocol_of Q st) (protocol_of R st')" unfolding refines_def by blast
  have "R \<subseteq> P \<union> {(a, name). proved_by ae st a name}"
  proof (rule subsetI)
    fix x
    assume "x \<in> R"
    then have "(fst x, snd x) \<in> pr_proved (protocol_of R st')" by (simp add: protocol_of_def)
    from proved_by_ctrl [OF R(2) this] have "(fst x, snd x) \<in> Q \<or> proved_by ae st (fst x) (snd x)" by (simp add: protocol_of_def)
    then show "x \<in> P \<union> {(a, name). proved_by ae st a name}" using Q(2) by auto
  qed
  with R(1) protocol_inv_steps [OF R(2) Q(3)] show ?case by blast
qed

text \<open>Every name of a certificate issued through ACME was proved by its account.\<close>

lemma issued_names_proved:
  assumes "acme_history st P" "acme_certs (ac_pki st) n = Some (a, names)" "(k, v) \<in> names"
  shows "k = ''dns'' \<and> (\<exists>name. (a, name) \<in> P \<and> canonical_name name = canonical_name v)"
proof -
  obtain Q where Q: "Q \<subseteq> P" "protocol_inv canonical_name (protocol_of Q st)" using acme_history_inv [OF assms(1)] by blast
  have "pr_certs (protocol_of Q st) n = Some (a, names)" using assms(2) by (simp add: protocol_of_def)
  then have "\<forall>(k, v) \<in> names. k = ''dns'' \<and> (\<exists>name. (a, name) \<in> pr_proved (protocol_of Q st) \<and> canonical_name name = canonical_name v)"
    using Q(2) unfolding protocol_inv_def certs_proved_def by blast
  then have "k = ''dns'' \<and> (\<exists>name. (a, name) \<in> pr_proved (protocol_of Q st) \<and> canonical_name name = canonical_name v)"
    using assms(3) by blast
  then show ?thesis using Q(1) by (auto simp: protocol_of_def)
qed

end
