(* ===== verification/Acme_Bindings.thy ===== *)
theory Acme_Bindings
  imports Acme_Server "HOL-Library.Multiset"
begin

text \<open>
  What may be used once: the nonces of the ACME server and the keys of external
  accounts. Both are instances of a budget: what has been spent never exceeds
  what was issued.
\<close>

section \<open>The contract\<close>

text \<open>
  \<open>live\<close> are the tokens the store would still accept, \<open>step s es ss s'\<close> one step of the
  program, in which it issues \<open>es\<close> and accepts \<open>ss\<close>.
\<close>

inductive token_run :: "('s \<Rightarrow> 'k multiset \<Rightarrow> 'k multiset \<Rightarrow> 's \<Rightarrow> bool) \<Rightarrow> 's \<Rightarrow> 'k multiset \<Rightarrow> 'k multiset \<Rightarrow> 's \<Rightarrow> bool"
  for step s where
  none: "token_run step s {#} {#} s"
| more: "token_run step s es ss t \<Longrightarrow> step t es' ss' u \<Longrightarrow> token_run step s (es + es') (ss + ss') u"

locale single_use =
  fixes live :: "'s \<Rightarrow> 'k multiset"
    and step :: "'s \<Rightarrow> 'k multiset \<Rightarrow> 'k multiset \<Rightarrow> 's \<Rightarrow> bool"
  assumes balance: "step s es ss s' \<Longrightarrow> live s' + ss \<subseteq># live s + es"
begin

lemma run_balance: "token_run step s es ss t \<Longrightarrow> live t + ss \<subseteq># live s + es"
proof (induction rule: token_run.induct)
  case (more es ss t es' ss' u)
  from balance [OF more(2)] have "live u + ss' + ss \<subseteq># live t + es' + ss" by simp
  also have "\<dots> = (live t + ss) + es'" by (simp add: ac_simps)
  also have "\<dots> \<subseteq># live s + es + es'" using more(3) by simp
  finally show ?case by (simp add: ac_simps)
qed simp

lemma spent_was_issued: "token_run step s es ss t \<Longrightarrow> ss \<subseteq># live s + es"
  using run_balance by (meson mset_subset_eq_add_right subset_mset.order_trans)

lemma not_live_after_spending:
  assumes "token_run step s es ss t" "count (live s + es) k \<le> 1" "k \<in># ss"
  shows "k \<notin># live t"
proof
  assume "k \<in># live t"
  with assms(3) have "2 \<le> count (live t + ss) k" by (simp add: count_greater_zero_iff [symmetric] del: count_greater_zero_iff)
  with mset_subset_eq_count [OF run_balance [OF assms(1)], of k] assms(2) show False by simp
qed

end

section \<open>Nonces\<close>

definition live_nonces :: "acme \<Rightarrow> string multiset" where
  "live_nonces st = mset (map fst (ac_nonces st))"

text \<open>The nonce a request spends successfully, and the one its answer issues.\<close>

definition accepted_nonce :: "acme_env \<Rightarrow> acme_request \<Rightarrow> acme \<Rightarrow> string option" where
  "accepted_nonce ae hq st =
     (case load_ca ae hq st of
        Inl _ \<Rightarrow> None
      | Inr ca \<Rightarrow>
          (case acme_verified ae ca hq st of
             (_, Inl _) \<Rightarrow> None
           | (_, Inr v) \<Rightarrow> (case jget ''nonce'' (vf_protected v) of Some (JStr n) \<Rightarrow> Some n | _ \<Rightarrow> None)))"

definition option_mset :: "'a option \<Rightarrow> 'a multiset" where
  "option_mset x = (case x of None \<Rightarrow> {#} | Some a \<Rightarrow> {#a#})"

inductive nonce_step :: "acme \<Rightarrow> string multiset \<Rightarrow> string multiset \<Rightarrow> acme \<Rightarrow> bool" where
  post: "wf_acme st \<Longrightarrow> nonce_step st {#ae_nonce ae#} (option_mset (accepted_nonce ae hq st)) (fst (acme_post ae hq st))"
| other: "live_nonces st' \<subseteq># live_nonces st \<Longrightarrow> nonce_step st {#} {#} st'"

lemma consume_nonce_spends:
  assumes "consume_nonce ae (Some (JStr n)) st = (st', True)"
  shows "n \<in> fst ` set (ac_nonces st)" "st' = st\<lparr>ac_nonces := filter (\<lambda>x. fst x \<noteq> n) (ac_nonces st)\<rparr>"
    "\<exists>t. map_of (ac_nonces st) n = Some t \<and> ae_now ae - minutes (ae_nonce_minutes ae) \<le> t"
  using assms by (auto simp: consume_nonce_def split: if_splits option.splits dest: map_of_SomeD intro: rev_image_eqI)

lemma spent_nonce_balance:
  assumes "n \<in> fst ` set ns" "distinct (map fst ns)"
  shows "mset (map fst (filter (\<lambda>x. fst x \<noteq> n) ns)) + {#n#} = mset (map fst ns)"
proof -
  have "map fst (filter (\<lambda>x. fst x \<noteq> n) ns) = filter (\<lambda>k. k \<noteq> n) (map fst ns)" by (simp add: filter_map comp_def)
  moreover have "mset (filter (\<lambda>k. k \<noteq> n) ks) + {#n#} = mset ks" if "n \<in> set ks" "distinct ks" for ks :: "'a list"
  proof -
    have "filter (\<lambda>k. k \<noteq> n) ks = ks" if "n \<notin> set ks" for ks :: "'a list" using that by (induction ks) auto
    with that show ?thesis by (induction ks) (auto simp del: mset_filter)
  qed
  ultimately show ?thesis using assms by (metis set_map)
qed

text \<open>A request leaves the nonces alone but for the one it spends and the one of its answer.\<close>

definition same_nonces :: "acme \<Rightarrow> acme \<Rightarrow> bool" where
  "same_nonces st st' \<longleftrightarrow> ac_nonces st' = ac_nonces st"

lemma nonces_put [simp]:
  "ac_nonces (put_order r st) = ac_nonces st" "ac_nonces (put_authz z st) = ac_nonces st" "ac_nonces (put_chall c st) = ac_nonces st"
  "ac_nonces (put_account a st) = ac_nonces st" "ac_nonces (acme_log ae x tt i d st) = ac_nonces st"
  "ac_nonces (use_eab now e st) = ac_nonces st" "ac_nonces (deactivate_orders k st) = ac_nonces st" "ac_nonces (age_authzs_of now k st) = ac_nonces st"
  by (simp_all add: put_order_def put_authz_def put_chall_def put_account_def acme_log_def use_eab_def deactivate_orders_def age_authzs_of_def split: option.split)

lemma nonces_refresh [simp]: "ac_nonces (refresh_order now i st) = ac_nonces st" "ac_nonces (refresh_authz now i st) = ac_nonces st"
  by (simp_all add: refresh_order_def refresh_authz_def Let_def split: option.split)

lemma nonces_settle [simp]: "ac_nonces (settle ae z c e st) = ac_nonces st"
  by (simp add: settle_def split: option.split)

lemma nonces_attempt [simp]: "ac_nonces (fst (attempt_dns01 ae jwk z c st)) = ac_nonces st"
  by (simp add: attempt_dns01_def Let_def split: sum.split option.split)

lemma nonces_after_attempt [simp]: "attempt_dns01 ae jwk z c st = (st', r) \<Longrightarrow> ac_nonces st' = ac_nonces st"
  using nonces_attempt by (metis fst_conv)

lemma nonces_poll [simp]: "ac_nonces (fst (poll_authz ae i st)) = ac_nonces st"
  by (auto simp: poll_authz_def split: option.split sum.split prod.split)

lemma nonces_after_poll [simp]: "poll_authz ae i st = (st', r) \<Longrightarrow> ac_nonces st' = ac_nonces st"
  using nonces_poll by (metis fst_conv)

lemma nonces_respond [simp]: "ac_nonces (fst (respond_challenge ae a i st)) = ac_nonces st"
  by (auto simp: respond_challenge_def Let_def split: option.split sum.split prod.split)

lemma nonces_deactivate [simp]: "ac_nonces (deactivate_authz ae i st) = ac_nonces st"
  by (simp add: deactivate_authz_def split: option.split)

lemma nonces_new_authz: "ac_nonces (fold (new_authz ae r) names st) = ac_nonces st"
  by (induction names arbitrary: st) (simp_all add: new_authz_def Let_def)

lemma nonces_issue: "ac_nonces (fst (issue_order ae ca a r csr f st)) = ac_nonces st"
  by (simp add: issue_order_def Let_def split: sum.split prod.split)

lemma nonces_finalize:
  assumes "finalize ae ca a i payload st = (c, s, r)"
  shows "ac_nonces s = ac_nonces st \<and> (\<forall>t. c = Some t \<longrightarrow> ac_nonces t = ac_nonces st)"
proof -
  let ?s = "refresh_order (ae_now ae) i st"
  show ?thesis
  proof (cases "get_order i ?s")
    case (Some w)
    show ?thesis
    proof (cases "and_then (order_csr ae w payload) (\<lambda>csr. and_then (acme_profile (ac_pki ?s) ca) (\<lambda>f. Inr (csr, f)))")
      case (Inr q)
      then show ?thesis using assms Some nonces_issue [of ae ca a w "fst q" "snd q" ?s]
        by (cases q) (auto simp: finalize_def Let_def split: if_splits prod.splits)
    qed (use assms Some in \<open>auto simp: finalize_def Let_def split: if_splits\<close>)
  qed (use assms in \<open>auto simp: finalize_def Let_def\<close>)
qed

lemma nonces_new_account: "ac_nonces (fst (new_account ae ca v st)) = ac_nonces st"
  by (simp add: new_account_def Let_def split: sum.split option.split prod.split)

lemma nonces_revoke: "ac_nonces (fst (acme_revoke ae ca v st)) = ac_nonces st"
  by (auto simp: acme_revoke_def Let_def split: sum.split prod.split)

lemma nonces_view:
  assumes "acme_view ae ca hq v st = (c, s, r)"
  shows "ac_nonces c = ac_nonces st \<and> ac_nonces s = ac_nonces st"
proof -
  have plain: ?thesis if "acme_view ae ca hq v st = uncommitted st q" "ac_nonces (fst q) = ac_nonces st" for q
    using that assms by (cases q) (auto simp: uncommitted_def)
  have none: ?thesis if "acme_view ae ca hq v st = (st, st, x)" for x using that assms by simp
  show ?thesis
  proof (cases "hq_route hq")
    case New_account
    then show ?thesis using assms nonces_new_account [of ae ca v st] by (auto simp: acme_view_def split: prod.splits)
  next
    case Revoke_cert
    then show ?thesis using plain nonces_revoke by (simp add: acme_view_def)
  next
    case (Finalize i)
    show ?thesis
    proof (cases "vf_account v")
      case (Some a)
      obtain c1 s1 r1 where f: "finalize ae ca a i (vf_payload v) (refresh_order (ae_now ae) i st) = (c1, s1, r1)" using prod_cases3 by blast
      show ?thesis using assms Finalize Some f nonces_finalize [OF f]
        by (auto simp: acme_view_def view_finalize_def split: sum.splits option.splits)
    qed (use none Finalize in \<open>simp add: acme_view_def\<close>)
  next
    case (Account i)
    have "ac_nonces (fst (view_account ae ca a p i st)) = ac_nonces st" for a p
      by (simp add: view_account_def update_account_def split: option.split sum.split)
    then show ?thesis using plain none Account by (cases "vf_account v") (simp_all add: acme_view_def)
  next
    case (Account_orders i)
    then show ?thesis using none by (cases "vf_account v") (simp_all add: acme_view_def)
  next
    case New_order
    have "ac_nonces (fst (new_order ae ca a p st)) = ac_nonces st" for a p
      by (simp add: new_order_def Let_def nonces_new_authz split: sum.split)
    then show ?thesis using plain none New_order by (cases "vf_account v") (simp_all add: acme_view_def)
  next
    case (Order i)
    have "ac_nonces (fst (view_order ae k a i st)) = ac_nonces st" for k a by (simp add: view_order_def split: sum.split)
    then show ?thesis using plain none Order by (cases "vf_account v") (simp_all add: acme_view_def)
  next
    case (Authz i)
    have "ac_nonces (fst (view_authz ae k a p i st)) = ac_nonces st" for k a p
      by (auto simp: view_authz_def split: sum.split prod.split)
    then show ?thesis using plain none Authz by (cases "vf_account v") (simp_all add: acme_view_def)
  next
    case (Chall i)
    have "ac_nonces (fst (view_chall ae k a p i st)) = ac_nonces st" for k a p
      by (auto simp: view_chall_def with_result_def split: sum.split prod.split)
    then show ?thesis using plain none Chall by (cases "vf_account v") (simp_all add: acme_view_def)
  next
    case (Cert i)
    then show ?thesis using none by (cases "vf_account v") (simp_all add: acme_view_def)
  next
    case Key_change
    have "ac_nonces (fst (change_key ae ca a j u st)) = ac_nonces st" for a j u
      by (auto simp: change_key_def split: sum.split prod.split)
    then show ?thesis using plain none Key_change by (cases "vf_account v"; cases "vf_payload v") (simp_all add: acme_view_def)
  qed
qed

lemma live_issue: "live_nonces (issue_nonce ae st) \<subseteq># live_nonces st + {#ae_nonce ae#}"
  by (simp add: issue_nonce_def live_nonces_def)

lemma verified_balance:
  assumes "wf_acme st" "load_ca ae hq st = Inr ca"
  shows "live_nonces (fst (acme_verified ae ca hq st)) + option_mset (accepted_nonce ae hq st) \<subseteq># live_nonces st"
proof (cases "snd (acme_verified ae ca hq st)")
  case (Inl x)
  then obtain st1 where v: "acme_verified ae ca hq st = (st1, Inl x)" by (metis prod.collapse)
  obtain p where "st1 = st\<lparr>ac_nonces := filter p (ac_nonces st)\<rparr>" using acme_verified_tables [of ae ca hq st] v by auto
  moreover have "mset (map fst (filter p ns)) \<subseteq># mset (map fst ns)" for ns :: "(string \<times> time) list"
    by (simp add: image_mset_subseteq_mono)
  ultimately show ?thesis using assms(2) v by (simp add: accepted_nonce_def option_mset_def live_nonces_def)
next
  case (Inr v)
  then obtain st1 where v: "acme_verified ae ca hq st = (st1, Inr v)" by (metis prod.collapse)
  then obtain body where b: "jws_verify (ae_jose ae) body (hq_url hq) (account_for_kid ae st ca) aa_jwk (allows_jwk (hq_route hq))
      (hq_route hq \<noteq> New_account) True = Inr v" and c: "consume_nonce ae (jget ''nonce'' (vf_protected v)) st = (st1, True)"
    by (auto simp: acme_verified_def and_then_Inr split: sum.splits prod.splits if_splits)
  from jws_verify_ok [OF b] obtain alg where "header_ok (vf_protected v) (hq_url hq) True = Inr alg" by blast
  then obtain n where n: "jget ''nonce'' (vf_protected v) = Some (JStr n)" using header_ok_Inr by blast
  note spent = consume_nonce_spends [OF c [unfolded n]]
  have "live_nonces st1 + {#n#} = live_nonces st"
    using spent_nonce_balance [OF spent(1) wf_tables(6) [OF assms(1)]] by (simp add: spent(2) live_nonces_def)
  then show ?thesis using assms(2) v n by (simp add: accepted_nonce_def option_mset_def)
qed

lemma nonces_settled:
  assumes "acme_view ae ca hq v st = (c, s, r)"
  shows "live_nonces (fst (settle_session (c, s, r))) = live_nonces st"
  using nonces_view [OF assms] by (cases r) (auto simp: settle_session_def live_nonces_def split: acme_problem.split)

lemma post_balance:
  assumes "wf_acme st"
  shows "live_nonces (fst (acme_post ae hq st)) + option_mset (accepted_nonce ae hq st) \<subseteq># live_nonces st + {#ae_nonce ae#}"
proof -
  have nonce: "live_nonces (issue_nonce ae s) + x \<subseteq># live_nonces st + {#ae_nonce ae#}" if "live_nonces s + x \<subseteq># live_nonces st" for s x
  proof -
    have "live_nonces (issue_nonce ae s) + x \<subseteq># live_nonces s + {#ae_nonce ae#} + x" using live_issue by simp
    also have "\<dots> = (live_nonces s + x) + {#ae_nonce ae#}" by simp
    also have "\<dots> \<subseteq># live_nonces st + {#ae_nonce ae#}" using that by simp
    finally show ?thesis .
  qed
  show ?thesis
  proof (cases "load_ca ae hq st")
    case (Inl x)
    then show ?thesis using nonce [of st "{#}"] by (simp add: acme_post_def accepted_nonce_def option_mset_def)
  next
    case (Inr ca)
    note b = verified_balance [OF assms Inr]
    obtain st1 res where v: "acme_verified ae ca hq st = (st1, res)" by fastforce
    show ?thesis
    proof (cases res)
      case (Inl x)
      then show ?thesis using nonce [OF b] Inr v by (simp add: acme_post_def)
    next
      case r: (Inr w)
      obtain c s re where w: "acme_view ae ca hq w st1 = (c, s, re)" using prod_cases3 by blast
      obtain st2 q where t: "settle_session (c, s, re) = (st2, q)" by fastforce
      then have "live_nonces st2 = live_nonces st1" using nonces_settled [OF w] by simp
      then show ?thesis using nonce [of st2] b Inr v r w t by (simp add: acme_post_def)
    qed
  qed
qed

interpretation acme_nonces: single_use live_nonces nonce_step
proof
  fix s es ss s'
  assume "nonce_step s es ss s'"
  then show "live_nonces s' + ss \<subseteq># live_nonces s + es"
    using post_balance by (cases rule: nonce_step.cases) auto
qed

section \<open>Keys of external accounts\<close>

definition bound_keys :: "acme \<Rightarrow> nat list" where
  "bound_keys st = concat (map (\<lambda>a. case aa_eab a of None \<Rightarrow> [] | Some k \<Rightarrow> [k]) (ac_accounts st))"

text \<open>Either nothing happens to the bindings, or a key that was free is now the key of one new account at its CA.\<close>

definition binds :: "acme \<Rightarrow> acme \<Rightarrow> bool" where
  "binds st st' \<longleftrightarrow>
     (map (\<lambda>a. (aa_id a, aa_ca a, aa_eab a)) (ac_accounts st') = map (\<lambda>a. (aa_id a, aa_ca a, aa_eab a)) (ac_accounts st) \<and> ac_eabs st' = ac_eabs st)
     \<or> (\<exists>a. ac_accounts st' = ac_accounts st @ [a] \<and> aa_eab a = None \<and> ac_eabs st' = ac_eabs st)
     \<or> (\<exists>a r t. ac_accounts st' = ac_accounts st @ [a] \<and> aa_eab a = Some (ek_id r) \<and> aa_ca a = ek_ca r \<and> r \<in> set (ac_eabs st)
          \<and> ek_used_at r = None \<and> \<not> ek_revoked r \<and> ac_eabs st' = put_row ek_id (r\<lparr>ek_used_at := Some t\<rparr>) (ac_eabs st))"

lemma binds_same: "ac_accounts st' = ac_accounts st \<Longrightarrow> ac_eabs st' = ac_eabs st \<Longrightarrow> binds st st'"
  by (simp add: binds_def)

lemma frame_binds: "frame st st' \<Longrightarrow> binds st st'"
  by (simp add: frame_def binds_same)

lemma log_tables [simp]: "ac_accounts (acme_log ae x tt i d st) = ac_accounts st" "ac_eabs (acme_log ae x tt i d st) = ac_eabs st"
  by (simp_all add: acme_log_def)

lemma put_account_binds:
  assumes "wf_acme st" "a \<in> set (ac_accounts st)" "aa_id a' = aa_id a" "aa_ca a' = aa_ca a" "aa_eab a' = aa_eab a"
    "ac_accounts st' = ac_accounts (put_account a' st)" "ac_eabs st' = ac_eabs st"
  shows "binds st st'"
proof -
  have put: "ac_accounts (put_account a' st) = map (\<lambda>x. if x = a then a' else x) (ac_accounts st)"
    unfolding put_as_map(4) [OF assms(1) get_account_in [OF assms(1,2)] assms(3)] by simp
  have same: "map (\<lambda>a. (aa_id a, aa_ca a, aa_eab a)) (map (\<lambda>x. if x = a then a' else x) xs) = map (\<lambda>a. (aa_id a, aa_ca a, aa_eab a)) xs" for xs
    using assms(3-5) by (induction xs) auto
  have "map (\<lambda>a. (aa_id a, aa_ca a, aa_eab a)) (ac_accounts st') = map (\<lambda>a. (aa_id a, aa_ca a, aa_eab a)) (ac_accounts st)"
    unfolding assms(6) put by (rule same)
  with assms(7) show ?thesis unfolding binds_def by blast
qed

lemma check_eab_Inr:
  assumes "check_eab ae ca jwk eab st = Inr (Some r)"
  shows "r \<in> set (ac_eabs st)" "ek_ca r = ca_id ca" "\<not> ek_revoked r" "ek_used_at r = None"
proof -
  obtain j where j: "eab = Some j" using assms by (cases eab) (auto simp: check_eab_def)
  obtain kid where kid: "eab_kid j = Inr kid" using assms by (auto simp: check_eab_def j and_then_Inr)
  obtain r' where r': "first_row (\<lambda>r. ek_kid r = kid) (ac_eabs st) = Some r'"
    using assms by (cases "first_row (\<lambda>r. ek_kid r = kid) (ac_eabs st)") (simp_all add: check_eab_def j kid and_then_def)
  have "r' = r \<and> ek_ca r' = ca_id ca \<and> \<not> ek_revoked r' \<and> ek_used_at r' = None"
    using assms by (auto simp: check_eab_def j kid r' and_then_Inr)
  then show "r \<in> set (ac_eabs st)" "ek_ca r = ca_id ca" "\<not> ek_revoked r" "ek_used_at r = None"
    using first_row_Some [OF r'] by auto
qed

lemma new_account_binds:
  assumes "wf_acme st"
  shows "binds st (fst (new_account ae ca v st))"
proof (cases "thumbprint (ae_jose ae) (vf_jwk v)")
  case (Inl x)
  then show ?thesis by (simp add: new_account_def Let_def binds_same)
next
  case tp: (Inr tp)
  let ?p = "case vf_payload v of None \<Rightarrow> JObj [] | Some j \<Rightarrow> j"
  show ?thesis
  proof (cases "first_row (\<lambda>a. aa_ca a = ca_id ca \<and> aa_thumbprint a = tp) (ac_accounts st)")
    case (Some a)
    have a: "a \<in> set (ac_accounts st)" using first_row_Some [OF Some] by simp
    have "binds st (put_account (a\<lparr>aa_seen := Some (ae_now ae)\<rparr>) st)"
      by (rule put_account_binds [OF assms a]) (simp_all add: put_account_def)
    then show ?thesis by (simp add: new_account_def Let_def tp Some binds_same)
  next
    case None
    show ?thesis
    proof (cases "and_then (validate_contacts (jget ''contact'' ?p)) (\<lambda>cs.
        and_then (check_eab ae ca (vf_jwk v) (jget_some ''externalAccountBinding'' ?p) st) (\<lambda>r. Inr (cs, r)))")
      case (Inl x)
      then show ?thesis by (simp add: new_account_def Let_def tp None binds_same)
    next
      case (Inr q)
      then obtain cs r where q: "q = (cs, r)" "check_eab ae ca (vf_jwk v) (jget_some ''externalAccountBinding'' ?p) st = Inr r"
        by (auto simp: and_then_Inr)
      let ?a = "fresh_account ae ca (vf_jwk v) tp cs r st"
      have "binds st (use_eab (ae_now ae) r (st\<lparr>ac_accounts := ac_accounts st @ [?a]\<rparr>))"
      proof (cases r)
        case None
        then show ?thesis by (simp add: binds_def use_eab_def fresh_account_def)
      next
        case (Some e)
        then show ?thesis using check_eab_Inr [OF q(2) [unfolded Some]] unfolding binds_def
          by (intro disjI2 exI [of _ ?a] exI [of _ e] exI [of _ "ae_now ae"]) (simp add: use_eab_def fresh_account_def)
      qed
      then show ?thesis using Inr q(1) by (simp add: new_account_def Let_def tp None binds_same binds_def [of st "acme_log _ _ _ _ _ _"] binds_def [of st "use_eab _ _ _"])
    qed
  qed
qed

lemma refresh_order_binds: "binds st (refresh_order now i st)"
  by (rule binds_same) (simp_all add: refresh_order_def put_order_def age_authzs_of_def Let_def split: option.split)

lemma finalize_tables:
  assumes "finalize ae ca a i payload st = (c, s, r)"
  shows "ac_accounts s = ac_accounts st \<and> ac_eabs s = ac_eabs st \<and> (\<forall>t. c = Some t \<longrightarrow> ac_accounts t = ac_accounts st \<and> ac_eabs t = ac_eabs st)"
proof -
  let ?s = "refresh_order (ae_now ae) i st"
  have ref: "ac_accounts ?s = ac_accounts st" "ac_eabs ?s = ac_eabs st"
    by (simp_all add: refresh_order_def put_order_def age_authzs_of_def Let_def split: option.split)
  have iss: "ac_accounts (fst (issue_order ae ca a w csr f ?s)) = ac_accounts st" "ac_eabs (fst (issue_order ae ca a w csr f ?s)) = ac_eabs st" for w csr f
    by (simp_all add: issue_order_def put_order_def Let_def ref split: sum.split prod.split)
  show ?thesis
  proof (cases "get_order i ?s")
    case (Some w)
    show ?thesis
    proof (cases "and_then (order_csr ae w payload) (\<lambda>csr. and_then (acme_profile (ac_pki ?s) ca) (\<lambda>f. Inr (csr, f)))")
      case (Inr q)
      then show ?thesis using assms Some ref iss [of w "fst q" "snd q"]
        by (cases q) (auto simp: finalize_def Let_def split: if_splits prod.splits)
    qed (use assms Some ref in \<open>auto simp: finalize_def Let_def split: if_splits\<close>)
  qed (use assms ref in \<open>auto simp: finalize_def Let_def\<close>)
qed

lemma fold_new_authz_tables: "ac_accounts (fold (new_authz ae r) names st) = ac_accounts st" "ac_eabs (fold (new_authz ae r) names st) = ac_eabs st"
  by (induction names arbitrary: st) (simp_all add: new_authz_def Let_def)

lemma update_account_binds:
  assumes "wf_acme st" "a \<in> set (ac_accounts st)"
  shows "binds st (fst (update_account ae ca a payload st))"
proof -
  have "binds st st'" if "aa_id a' = aa_id a" "aa_ca a' = aa_ca a" "aa_eab a' = aa_eab a"
    "ac_accounts st' = ac_accounts (put_account a' st)" "ac_eabs st' = ac_eabs (put_account a' st)" for st' a'
    using put_account_binds [OF assms that(1-4)] that(5) by (simp add: put_account_def)
  note put = this
  show ?thesis
  proof (cases "jget ''status'' payload = Some (JStr ''deactivated'')")
    case True
    then show ?thesis
      by (simp add: update_account_def) (rule put [of "a\<lparr>aa_status := ''deactivated''\<rparr>"]; simp add: deactivate_orders_def)
  next
    case off: False
    show ?thesis
    proof (cases "jget ''contact'' payload")
      case None
      with off show ?thesis by (simp add: update_account_def) (rule put [of "a\<lparr>aa_seen := Some (ae_now ae)\<rparr>"]; simp)
    next
      case (Some j)
      show ?thesis
      proof (cases "validate_contacts (Some j)")
        case (Inr cs)
        with off Some show ?thesis
          by (simp add: update_account_def) (rule put [of "a\<lparr>aa_contact := cs, aa_seen := Some (ae_now ae)\<rparr>"]; simp)
      qed (use off Some in \<open>simp add: update_account_def binds_same\<close>)
    qed
  qed
qed

lemma acme_view_binds:
  assumes "wf_acme st" "acme_view ae ca hq v st = (c, s, r)" "\<And>a. vf_account v = Some a \<Longrightarrow> a \<in> set (ac_accounts st)"
  shows "binds st c \<and> binds st s"
proof -
  have refl: "binds st st" by (simp add: binds_same)
  have plain: ?thesis if "acme_view ae ca hq v st = uncommitted st q" "binds st (fst q)" for q
    using that assms(2) refl by (cases q) (auto simp: uncommitted_def)
  have none: ?thesis if "acme_view ae ca hq v st = (st, st, x)" for x using that assms(2) refl by simp
  show ?thesis
  proof (cases "hq_route hq")
    case New_account
    then show ?thesis using assms(2) refl new_account_binds [OF assms(1), of ae ca v] by (auto simp: acme_view_def split: prod.splits)
  next
    case Revoke_cert
    have "binds st (fst (acme_revoke ae ca v st))" by (rule binds_same) (auto simp: acme_revoke_def Let_def split: sum.split prod.split)
    then show ?thesis using plain Revoke_cert by (simp add: acme_view_def)
  next
    case (Account i)
    have "binds st (fst (view_account ae ca a p i st))" if "a \<in> set (ac_accounts st)" for a p
      using update_account_binds [OF assms(1) that] refl by (simp add: view_account_def split: option.split)
    then show ?thesis using plain none Account assms(3) by (cases "vf_account v") (simp_all add: acme_view_def)
  next
    case (Account_orders i)
    then show ?thesis using none by (cases "vf_account v") (simp_all add: acme_view_def)
  next
    case New_order
    have "binds st (fst (new_order ae ca a p st))" if a: "a \<in> set (ac_accounts st)" for a p
      by (cases "parse_identifiers ae ca (case p of None \<Rightarrow> None | Some j \<Rightarrow> jget ''identifiers'' j) st")
        (auto simp: new_order_def Let_def refl fold_new_authz_tables put_account_def
          intro!: put_account_binds [OF assms(1) a, of "a\<lparr>aa_seen := Some (ae_now ae)\<rparr>"])
    then show ?thesis using plain none New_order assms(3) by (cases "vf_account v") (simp_all add: acme_view_def)
  next
    case (Order i)
    have "binds st (fst (view_order ae k a i st))" for k a
      using refl refresh_order_binds by (simp add: view_order_def split: sum.split)
    then show ?thesis using plain none Order by (cases "vf_account v") (simp_all add: acme_view_def)
  next
    case (Finalize i)
    show ?thesis
    proof (cases "vf_account v")
      case (Some a)
      obtain c1 s1 r1 where f: "finalize ae ca a i (vf_payload v) (refresh_order (ae_now ae) i st) = (c1, s1, r1)" using prod_cases3 by blast
      have "ac_accounts (refresh_order (ae_now ae) i st) = ac_accounts st" "ac_eabs (refresh_order (ae_now ae) i st) = ac_eabs st"
        by (simp_all add: refresh_order_def put_order_def age_authzs_of_def Let_def split: option.split)
      with finalize_tables [OF f] show ?thesis using assms(2) Finalize Some f
        by (auto simp: acme_view_def view_finalize_def binds_same split: sum.splits option.splits)
    qed (use none Finalize in \<open>simp add: acme_view_def\<close>)
  next
    case (Authz i)
    have "binds st (fst (view_authz ae k a p i st))" for k a p
      using view_authz_evolves [OF assms(1)] frame_binds by (auto simp: evolves_def)
    then show ?thesis using plain none Authz by (cases "vf_account v") (simp_all add: acme_view_def)
  next
    case (Chall i)
    have "binds st (fst (view_chall ae k a p i st))" if "a \<in> set (ac_accounts st)" for k a p
      using view_chall_evolves [OF assms(1) that] frame_binds by (auto simp: evolves_def)
    then show ?thesis using plain none Chall assms(3) by (cases "vf_account v") (simp_all add: acme_view_def)
  next
    case (Cert i)
    then show ?thesis using none by (cases "vf_account v") (simp_all add: acme_view_def)
  next
    case Key_change
    have "binds st (fst (change_key ae ca a j u st))" if a: "a \<in> set (ac_accounts st)" for a j u
    proof (cases "change_key_checks ae ca a j u st")
      case (Inr q)
      obtain jwk tp where "q = (jwk, tp)" by (cases q)
      with Inr show ?thesis
        by (simp add: change_key_def) (rule put_account_binds [OF assms(1) a, of "a\<lparr>aa_jwk := sort_json (jnormal jwk), aa_thumbprint := tp\<rparr>"];
          simp add: put_account_def)
    qed (simp add: change_key_def refl)
    then show ?thesis using plain plain [of "(st, Inl malformed)"] refl none Key_change assms(3)
      by (cases "vf_account v"; cases "vf_payload v") (simp_all add: acme_view_def)
  qed
qed

lemma acme_post_binds:
  assumes "wf_acme st"
  shows "binds st (fst (acme_post ae hq st))"
proof -
  have nonce: "binds st (issue_nonce ae s)" if "binds st s" for s
    using that by (simp add: binds_def issue_nonce_def)
  have keep: "binds st s" if "binds (st\<lparr>ac_nonces := ns\<rparr>) s" for s ns
    using that by (simp add: binds_def)
  show ?thesis
  proof (cases "load_ca ae hq st")
    case (Inl x)
    then show ?thesis using nonce [of st] by (simp add: acme_post_def binds_same)
  next
    case (Inr ca)
    obtain st1 res where v: "acme_verified ae ca hq st = (st1, res)" by fastforce
    then obtain p where st1: "st1 = st\<lparr>ac_nonces := filter p (ac_nonces st)\<rparr>" using acme_verified_tables [of ae ca hq st] by auto
    show ?thesis
    proof (cases res)
      case (Inl x)
      then show ?thesis using nonce [of st1] Inr v st1 by (simp add: acme_post_def binds_same)
    next
      case r: (Inr w)
      obtain c s re where w: "acme_view ae ca hq w st1 = (c, s, re)" using prod_cases3 by blast
      have wf: "wf_acme st1" unfolding st1 using distinct_nonces [OF wf_tables(6) [OF assms]] by (intro wf_other_tables(2) [OF assms])
      have acct: "a \<in> set (ac_accounts st1)" if "vf_account w = Some a" for a
        using acme_verified_ok(2) [OF v [unfolded r] that] by (simp add: st1)
      have "binds st1 c \<and> binds st1 s" by (rule acme_view_binds [OF wf w acct])
      then have "binds st c" "binds st s" using keep unfolding st1 by blast+
      then have "binds st (fst (settle_session (c, s, re)))" by (cases re) (auto simp: settle_session_def split: acme_problem.split)
      moreover obtain st2 q where t: "settle_session (c, s, re) = (st2, q)" by fastforce
      ultimately show ?thesis using nonce Inr v r w by (simp add: acme_post_def)
    qed
  qed
qed

text \<open>The invariant: a key is bound by at most one account, of its own CA, and is then marked as used.\<close>

definition bindings_ok :: "acme \<Rightarrow> bool" where
  "bindings_ok st \<longleftrightarrow> distinct (bound_keys st)
     \<and> (\<forall>a \<in> set (ac_accounts st). \<forall>k. aa_eab a = Some k \<longrightarrow>
          (\<exists>r \<in> set (ac_eabs st). ek_id r = k \<and> ek_used_at r \<noteq> None \<and> ek_ca r = aa_ca a))"

lemma bound_keys_map: "bound_keys st = concat (map (\<lambda>t. case snd (snd t) of None \<Rightarrow> [] | Some k \<Rightarrow> [k]) (map (\<lambda>a. (aa_id a, aa_ca a, aa_eab a)) (ac_accounts st)))"
  by (simp add: bound_keys_def comp_def)

lemma set_bound_keys: "k \<in> set (bound_keys st) \<longleftrightarrow> (\<exists>a \<in> set (ac_accounts st). aa_eab a = Some k)"
  by (auto simp: bound_keys_def split: option.splits) metis

lemma bindings_ok_step:
  assumes "wf_acme st" "bindings_ok st" "binds st st'"
  shows "bindings_ok st'"
proof -
  from assms(3) consider (same) "map (\<lambda>a. (aa_id a, aa_ca a, aa_eab a)) (ac_accounts st') = map (\<lambda>a. (aa_id a, aa_ca a, aa_eab a)) (ac_accounts st)"
      "ac_eabs st' = ac_eabs st"
    | (plain) a where "ac_accounts st' = ac_accounts st @ [a]" "aa_eab a = None" "ac_eabs st' = ac_eabs st"
    | (bound) a r t where "ac_accounts st' = ac_accounts st @ [a]" "aa_eab a = Some (ek_id r)" "aa_ca a = ek_ca r" "r \<in> set (ac_eabs st)"
        "ek_used_at r = None" "ac_eabs st' = put_row ek_id (r\<lparr>ek_used_at := Some t\<rparr>) (ac_eabs st)"
    unfolding binds_def by blast
  then show ?thesis
  proof cases
    case same
    have keys: "bound_keys st' = bound_keys st" unfolding bound_keys_map same(1) by (rule refl)
    have "\<exists>b \<in> set (ac_accounts st). aa_ca b = aa_ca a \<and> aa_eab b = aa_eab a" if "a \<in> set (ac_accounts st')" for a
    proof -
      have "(aa_id a, aa_ca a, aa_eab a) \<in> set (map (\<lambda>a. (aa_id a, aa_ca a, aa_eab a)) (ac_accounts st'))" using that by simp
      then show ?thesis unfolding same(1) by auto
    qed
    with assms(2) same(2) keys show ?thesis unfolding bindings_ok_def by metis
  next
    case plain
    then show ?thesis using assms(2) by (auto simp: bindings_ok_def bound_keys_def)
  next
    case bound
    have uniq: "x = r" if "x \<in> set (ac_eabs st)" "ek_id x = ek_id r" for x
      using that bound(4) wf_tables(1) [OF assms(1)] get_row_in [of ek_id "ac_eabs st"] by (metis option.inject)
    have "ek_id r \<notin> set (bound_keys st)"
    proof
      assume "ek_id r \<in> set (bound_keys st)"
      then obtain a x where "x \<in> set (ac_eabs st)" "ek_id x = ek_id r" "ek_used_at x \<noteq> None"
        using assms(2) unfolding set_bound_keys bindings_ok_def by blast
      with uniq bound(5) show False by metis
    qed
    then have "distinct (bound_keys st')" using assms(2) bound(1,2) by (simp add: bound_keys_def bindings_ok_def)
    moreover have "\<exists>y \<in> set (ac_eabs st'). ek_id y = k \<and> ek_used_at y \<noteq> None \<and> ek_ca y = aa_ca b"
      if b: "b \<in> set (ac_accounts st')" "aa_eab b = Some k" for b k
    proof -
      have new: "r\<lparr>ek_used_at := Some t\<rparr> \<in> set (ac_eabs st')" using bound(4,6) by (auto simp: set_put_row)
      show ?thesis
      proof (cases "b = a")
        case True
        with b(2) bound(2,3) show ?thesis by (intro bexI [OF _ new]) simp
      next
        case False
        then have "b \<in> set (ac_accounts st)" using b(1) bound(1) by simp
        then obtain x where x: "x \<in> set (ac_eabs st)" "ek_id x = k" "ek_used_at x \<noteq> None" "ek_ca x = aa_ca b"
          using b(2) assms(2) unfolding bindings_ok_def by blast
        then have "ek_id x \<noteq> ek_id r" using uniq [of x] bound(5) by auto
        then have "x \<in> set (ac_eabs st')" using x(1) bound(4,6) by (auto simp: set_put_row)
        with x show ?thesis by blast
      qed
    qed
    ultimately show ?thesis unfolding bindings_ok_def by blast
  qed
qed

lemma server_step_bindings:
  assumes "server_step ae st st'" "wf_acme st" "bindings_ok st"
  shows "bindings_ok st'"
  using assms(1)
proof (cases rule: server_step.cases)
  case (post hq)
  then show ?thesis using bindings_ok_step [OF assms(2,3) acme_post_binds [OF assms(2)]] by simp
next
  case maintain
  then show ?thesis using bindings_ok_step [OF assms(2,3), of st'] by (simp add: binds_same acme_maintain_def)
next
  case (create_eab kid ca name u)
  then show ?thesis using assms(3) by (auto simp: bindings_ok_def bound_keys_def create_eab_key_def Let_def)
next
  case (revoke_eab i)
  have eabs: "ac_eabs st' = map (\<lambda>r. if ek_id r = i then r\<lparr>ek_revoked := True\<rparr> else r) (ac_eabs st)" "ac_accounts st' = ac_accounts st"
    using revoke_eab by (simp_all add: revoke_eab_key_def)
  have "\<exists>y \<in> set (ac_eabs st'). ek_id y = ek_id r \<and> ek_used_at y = ek_used_at r \<and> ek_ca y = ek_ca r" if "r \<in> set (ac_eabs st)" for r
    unfolding eabs set_map using that by (intro bexI [OF _ imageI [OF that]]) simp
  then show ?thesis using assms(3) unfolding bindings_ok_def bound_keys_def eabs(2) by metis
next
  case (elsewhere p)
  then show ?thesis using bindings_ok_step [OF assms(2,3), of st'] by (simp add: binds_same)
qed

lemma history_bindings: "acme_history st P \<Longrightarrow> bindings_ok st"
proof (induction rule: acme_history.induct)
  case (start p)
  then show ?case by (simp add: bindings_ok_def bound_keys_def empty_acme_def)
next
  case (step st P ae st')
  then show ?case using server_step_bindings acme_history_inv by blast
qed

lemma in_concat_map: "y \<in> set xs \<Longrightarrow> k \<in> set (f y) \<Longrightarrow> k \<in> set (concat (map f xs))"
  by auto

lemma bound_once:
  assumes "bindings_ok st" "a \<in> set (ac_accounts st)" "b \<in> set (ac_accounts st)" "aa_eab a = Some k" "aa_eab b = Some k"
  shows "a = b"
proof -
  have "a = b" if "distinct (concat (map (\<lambda>a. case aa_eab a of None \<Rightarrow> [] | Some k \<Rightarrow> [k]) xs))" "a \<in> set xs" "b \<in> set xs" for xs
    using that
  proof (induction xs)
    case (Cons x xs)
    let ?keys = "\<lambda>a. case aa_eab a of None \<Rightarrow> [] | Some k \<Rightarrow> [k]"
    have in_rest: "k \<in> set (concat (map ?keys xs))" if "y \<in> set xs" "?keys y = [k]" for y
    proof (rule in_concat_map [OF that(1)])
      show "k \<in> set (?keys y)" unfolding that(2) by simp
    qed
    have ab: "?keys a = [k]" "?keys b = [k]" using assms(4,5) by simp_all
    have dist: "distinct (?keys x @ concat (map ?keys xs))" using Cons.prems(1) by simp
    then have rest: "distinct (concat (map ?keys xs))" "set (?keys x) \<inter> set (concat (map ?keys xs)) = {}" by (simp_all only: distinct_append)
    consider "a = x" "b = x" | "a = x" "b \<in> set xs" | "b = x" "a \<in> set xs" | "a \<in> set xs" "b \<in> set xs" using Cons.prems(2,3) by auto
    then show ?case
    proof cases
      case 2
      have "k \<in> set (?keys x)" unfolding 2(1) [symmetric] ab(1) by simp
      with rest(2) in_rest [OF 2(2) ab(2)] show ?thesis by blast
    next
      case 3
      have "k \<in> set (?keys x)" unfolding 3(1) [symmetric] ab(2) by simp
      with rest(2) in_rest [OF 3(2) ab(1)] show ?thesis by blast
    next
      case 4
      with Cons.IH rest(1) show ?thesis by blast
    qed simp
  qed simp
  then show ?thesis using assms(1-3) unfolding bindings_ok_def bound_keys_def by blast
qed

end
