(* ===== verification/Acme_Demo.thy ===== *)
theory Acme_Demo
  imports Acme_Bindings Issuance_Claims
begin

text \<open>
  What a client sends, and a run of the server from empty tables to a
  certificate: a first request that only brings a nonce, a new account, an order
  for one name, the answer to its challenge and the request to issue.
\<close>

section \<open>Requests of a client\<close>

definition client_request :: "json \<Rightarrow> string \<Rightarrow> string \<Rightarrow> string" where
  "client_request h payload sig =
     dumps Compact (JObj [(''protected'', JStr (b64url_encode (dumps Compact h))), (''payload'', JStr (b64url_encode payload)),
       (''signature'', JStr (b64url_encode sig))])"

definition client_text :: "json \<Rightarrow> string \<Rightarrow> string" where
  "client_text h payload = b64url_encode (dumps Compact h) @ CHR ''.'' # b64url_encode payload"

lemma client_verified:
  assumes "is_obj h" "header_ok h url True = Inr alg"
    "request_key jo h find_account jwk_of allow_jwk allow_kid = Inr (jwk, kid, account, key)"
    "key_for_alg alg key" "signature_length_ok alg sig" "jo_sig jo key alg (client_text h payload) sig"
    "decoded_payload (JStr (b64url_encode payload)) = Inr j"
  shows "and_then (jws_parse (client_request h payload sig)) (\<lambda>body. jws_verify jo body url find_account jwk_of allow_jwk allow_kid True)
    = Inr \<lparr>vf_protected = h, vf_payload = j, vf_jwk = jwk, vf_kid = kid, vf_key = key, vf_account = account\<rparr>"
proof -
  let ?b = "JObj [(''protected'', JStr (b64url_encode (dumps Compact h))), (''payload'', JStr (b64url_encode payload)),
       (''signature'', JStr (b64url_encode sig))]"
  have parts: "jget ''protected'' ?b = Some (JStr (b64url_encode (dumps Compact h)))" "jget ''payload'' ?b = Some (JStr (b64url_encode payload))"
    "jget ''signature'' ?b = Some (JStr (b64url_encode sig))" "is_obj ?b"
    by (simp_all add: jget_def is_obj_def del: dumps.simps)
  have body: "jws_parse (client_request h payload sig) = Inr ?b"
    by (simp add: jws_parse_def client_request_def parts str_member_def del: dumps.simps)
  have header: "protected_header ?b = Inr h"
    using assms(1) by (simp add: protected_header_def parts member_def decode_encode caught_def and_then_def del: dumps.simps)
  have signed: "signing_input (JStr (b64url_encode (dumps Compact h))) (JStr (b64url_encode payload)) = Inr (client_text h payload)"
    using encoded_ascii by (simp add: signing_input_def client_text_def)
  have sig: "verify_signature jo key alg (client_text h payload) sig = Inr ()" using assms(4-6) by (simp add: verify_signature_Inr)
  show ?thesis
    by (simp add: body jws_verify_def header assms(2,3,7) parts member_def signed decode_encode caught_def sig and_then_def del: dumps.simps)
qed

lemma account_for_kid_url:
  assumes "get_account i st = Some a" "aa_ca a = ca_id ca" "aa_id a = i" "aa_status a = ''valid''"
  shows "account_for_kid ae st ca (account_url ae (ca_id ca) i) = Inr a"
proof -
  let ?pre = "account_prefix ae (ca_id ca)"
  have "startswith (?pre @ show_nat i) ?pre" "drop (length ?pre) (?pre @ show_nat i) = show_nat i" by (simp_all add: startswith_def)
  moreover have "list_all is_digit (show_nat i)" using show_nat_digits by (auto simp: list_all_iff)
  ultimately show ?thesis using assms by (simp add: account_for_kid_def account_url_def Let_def)
qed

text \<open>A verified request: the view runs on the tables without the nonce, its answer brings the next one.\<close>

lemma acme_post_view:
  assumes "load_ca ae hq st = Inr ca" "hq_jose hq" "hq_body hq = client_request h payload sig" "is_obj h"
    "header_ok h (hq_url hq) True = Inr alg"
    "request_key (ae_jose ae) h (account_for_kid ae st ca) aa_jwk (allows_jwk (hq_route hq)) (hq_route hq \<noteq> New_account) = Inr (jwk, kid, account, key)"
    "key_for_alg alg key" "signature_length_ok alg sig" "jo_sig (ae_jose ae) key alg (client_text h payload) sig"
    "decoded_payload (JStr (b64url_encode payload)) = Inr j" "\<not> (is_get (hq_route hq) \<and> j \<noteq> None)"
    "jget ''nonce'' h = Some (JStr n)" "length n \<le> 64" "map_of (ac_nonces st) n = Some t" "ae_now ae - minutes (ae_nonce_minutes ae) \<le> t"
    "acme_view ae ca hq \<lparr>vf_protected = h, vf_payload = j, vf_jwk = jwk, vf_kid = kid, vf_key = key, vf_account = account\<rparr>
       (st\<lparr>ac_nonces := filter (\<lambda>x. fst x \<noteq> n) (ac_nonces st)\<rparr>) = (c, s, Inr res)"
  shows "acme_post ae hq st = (issue_nonce ae s, Inr res)" "accepted_nonce ae hq st = Some n"
proof -
  let ?v = "\<lparr>vf_protected = h, vf_payload = j, vf_jwk = jwk, vf_kid = kid, vf_key = key, vf_account = account\<rparr>"
  have "consume_nonce ae (Some (JStr n)) st = (st\<lparr>ac_nonces := filter (\<lambda>x. fst x \<noteq> n) (ac_nonces st)\<rparr>, True)"
    using assms(13-15) by (simp add: consume_nonce_def)
  then have v: "acme_verified ae ca hq st = (st\<lparr>ac_nonces := filter (\<lambda>x. fst x \<noteq> n) (ac_nonces st)\<rparr>, Inr ?v)"
    using assms(11,12) by (simp add: acme_verified_def assms(2,3) client_verified [OF assms(4-10)])
  then show "acme_post ae hq st = (issue_nonce ae s, Inr res)"
    using assms(1,16) by (simp add: acme_post_def settle_session_def)
  show "accepted_nonce ae hq st = Some n" using assms(1,12) v by (simp add: accepted_nonce_def)
qed

section \<open>A small server\<close>

definition demo_jose :: jose where
  "demo_jose = \<lparr>jo_rsa = \<lambda>e n. Some (Rsa 3072 5), jo_ec = \<lambda>c x y. None, jo_sig = \<lambda>k alg t s. s = ''s'', jo_sha256 = \<lambda>t. ''h'',
     jo_hmac = \<lambda>alg k t. ''m''\<rparr>"

definition demo_jwk :: json where
  "demo_jwk = JObj [(''e'', JStr (b64url_encode ''e'')), (''kty'', JStr ''RSA''), (''n'', JStr (b64url_encode ''n''))]"

definition demo_csr_req :: csr_req where
  "demo_csr_req = \<lparr>rq_subject = [(''CN'', ''www.a.example'')], rq_key = Rsa 3072 6, rq_sig_ok = True, rq_san = [(''dns'', ''www.a.example'')]\<rparr>"

definition demo_network :: network where
  "demo_network = \<lparr>nw_get = \<lambda>u. Unreachable, nw_join = \<lambda>u l. None, nw_allowed = \<lambda>lax h. True, nw_servers = Some [],
     nw_txt = \<lambda>s n. if n = ''_acme-challenge.www.a.example'' then Some [b64url_encode ''h''] else None\<rparr>"

definition demo_ae :: "string \<Rightarrow> acme_env" where
  "demo_ae nonce = \<lparr>ae_env = demo_env, ae_jose = demo_jose, ae_net = demo_network, ae_enabled = True, ae_base = ''https://ca.example'',
     ae_urls = \<lparr>uc_scheme = ''https'', uc_server_name = ''ca.example'', uc_request_host = ''ca.example'', uc_testing = True\<rparr>,
     ae_nonce_minutes = 60, ae_order_hours = 24, ae_max_identifiers = 10, ae_types = [''dns-01''], ae_dns_max = 5, ae_dns_retry = 10,
     ae_http_port = 80, ae_connect_host = None, ae_allow_loopback = False, ae_validity_days = 90, ae_random = \<lambda>i. ''t'',
     ae_nonce = nonce, ae_load_csr = \<lambda>der. if der = ''csr'' then Some demo_csr_req else None, ae_load_cert = \<lambda>der. None\<rparr>"

definition demo_custom :: profile where
  "demo_custom = demo_profile\<lparr>pf_key := ''custom''\<rparr>"

definition demo_acme_pki :: pki where
  "demo_acme_pki = demo_pki\<lparr>p_profiles := [demo_custom]\<rparr>"

definition demo_post :: "acme_route \<Rightarrow> string \<Rightarrow> bool \<Rightarrow> string \<Rightarrow> acme_request" where
  "demo_post route url jose body = \<lparr>hq_ca = 2, hq_url = url, hq_jose = jose, hq_body = body, hq_route = route\<rparr>"

definition demo_header :: "string \<times> json \<Rightarrow> string \<Rightarrow> string \<Rightarrow> json" where
  "demo_header signer nonce url = JObj [(''alg'', JStr ''RS256''), signer, (''nonce'', JStr nonce), (''url'', JStr url)]"

definition demo_kid :: "string \<times> json" where
  "demo_kid = (''kid'', JStr (account_url (demo_ae []) 2 1))"

definition demo_acme :: "audit_log \<Rightarrow> string \<Rightarrow> acme_account list \<Rightarrow> acme_order list \<Rightarrow> acme_authz list \<Rightarrow> acme_challenge list \<Rightarrow> acme" where
  "demo_acme lg nonce accounts orders authzs challs =
     \<lparr>ac_pki = demo_acme_pki\<lparr>p_log := lg\<rparr>, ac_nonces = [(nonce, days 1)], ac_eabs = [], ac_accounts = accounts, ac_orders = orders,
      ac_authzs = authzs, ac_challs = challs\<rparr>"

definition demo_account :: acme_account where
  "demo_account = \<lparr>aa_id = 1, aa_ca = 2, aa_jwk = demo_jwk, aa_thumbprint = b64url_encode ''h'', aa_status = ''valid'',
     aa_contact = [], aa_eab = None, aa_seen = Some (days 1)\<rparr>"

definition demo_order :: acme_order where
  "demo_order = \<lparr>ao_id = 1, ao_account = 1, ao_ca = 2, ao_status = ''pending'', ao_identifiers = [''www.a.example''],
     ao_expires = days 1 + hours 24, ao_csr = None, ao_certificate = None, ao_error = None, ao_finalized = None\<rparr>"

definition demo_authz :: acme_authz where
  "demo_authz = \<lparr>az_id = 1, az_order = 1, az_account = 1, az_ca = 2, az_value = ''www.a.example'', az_wildcard = False,
     az_status = ''pending'', az_expires = days 1 + hours 24\<rparr>"

definition demo_chall :: acme_challenge where
  "demo_chall = \<lparr>ch_id = 1, ch_authz = 1, ch_type = ''dns-01'', ch_token = b64url_encode ''t'', ch_status = ''pending'', ch_validated = None,
     ch_error = None, ch_attempts = 0, ch_next = None\<rparr>"

lemma demo_ae_simps [simp]:
  "ae_env (demo_ae n) = demo_env" "ae_jose (demo_ae n) = demo_jose" "ae_net (demo_ae n) = demo_network" "ae_enabled (demo_ae n)"
  "ae_base (demo_ae n) = ''https://ca.example''" "ae_nonce_minutes (demo_ae n) = 60" "ae_order_hours (demo_ae n) = 24"
  "ae_max_identifiers (demo_ae n) = 10" "ae_types (demo_ae n) = [''dns-01'']" "ae_random (demo_ae n) = (\<lambda>i. ''t'')" "ae_nonce (demo_ae n) = n"
  "ae_validity_days (demo_ae n) = 90" "ae_load_csr (demo_ae n) = (\<lambda>der. if der = ''csr'' then Some demo_csr_req else None)"
  "ae_dns_max (demo_ae n) = 5" "ae_dns_retry (demo_ae n) = 10"
  "ae_urls (demo_ae n) = \<lparr>uc_scheme = ''https'', uc_server_name = ''ca.example'', uc_request_host = ''ca.example'', uc_testing = True\<rparr>"
  by (simp_all add: demo_ae_def)

lemma demo_jose_simps [simp]:
  "jo_rsa demo_jose e n = Some (Rsa 3072 5)" "jo_sig demo_jose k alg t s \<longleftrightarrow> s = ''s''" "jo_sha256 demo_jose t = ''h''"
  by (simp_all add: demo_jose_def)

lemma demo_post_simps [simp]:
  "hq_ca (demo_post r u j b) = 2" "hq_url (demo_post r u j b) = u" "hq_jose (demo_post r u j b) = j" "hq_body (demo_post r u j b) = b"
  "hq_route (demo_post r u j b) = r"
  by (simp_all add: demo_post_def)

lemma demo_acme_simps [simp]:
  "ac_pki (demo_acme lg n as os zs cs) = demo_acme_pki\<lparr>p_log := lg\<rparr>" "ac_nonces (demo_acme lg n as os zs cs) = [(n, days 1)]"
  "ac_accounts (demo_acme lg n as os zs cs) = as" "ac_orders (demo_acme lg n as os zs cs) = os" "ac_authzs (demo_acme lg n as os zs cs) = zs"
  "ac_challs (demo_acme lg n as os zs cs) = cs" "ac_eabs (demo_acme lg n as os zs cs) = []"
  by (simp_all add: demo_acme_def)

lemma demo_loads:
  assumes "ac_pki st = demo_acme_pki\<lparr>p_log := lg\<rparr>"
  shows "load_ca (demo_ae n) (demo_post r u j b) st = Inr demo_sub"
proof -
  have "get_ca (ac_pki st) 2 = Some demo_sub" using demo_get_ca [of 2] by (simp add: assms get_ca_def demo_acme_pki_def)
  moreover have "ca_available (days 1) demo_sub"
    by (simp add: ca_available_def demo_ca_def has_signing_key_def whole_days_def days_eq)
  ultimately show ?thesis by (simp add: load_ca_def demo_env_facts)
qed

lemma demo_header_simps:
  "is_obj (demo_header s n u)" "n \<noteq> [] \<Longrightarrow> fst s \<notin> {''alg'', ''nonce'', ''url'', ''crit''} \<Longrightarrow> header_ok (demo_header s n u) u True = Inr ''RS256''"
  "fst s \<notin> {''alg'', ''nonce'', ''url'', ''crit''} \<Longrightarrow> jget ''nonce'' (demo_header s n u) = Some (JStr n)"
  by (auto simp: demo_header_def is_obj_def header_ok_def jget_def ALGS_def)

lemma demo_account_key: "jwk_to_public_key demo_jose demo_jwk = Inr (Rsa 3072 5)"
  by (simp add: jwk_to_public_key_def demo_jwk_def jget_def int_from_b64_def decode_encode caught_def and_then_def key_or_def)

lemma demo_request_jwk:
  "request_key demo_jose (demo_header (''jwk'', demo_jwk) n u) fa jw True ak = Inr (demo_jwk, None, None, Rsa 3072 5)"
proof -
  have "jget_some ''jwk'' (demo_header (''jwk'', demo_jwk) n u) = Some demo_jwk" "jget_some ''kid'' (demo_header (''jwk'', demo_jwk) n u) = None"
    by (simp_all add: demo_header_def jget_some_def jget_def demo_jwk_def)
  then show ?thesis by (simp add: request_key_def demo_account_key and_then_def)
qed

lemma demo_jwk_normal: "sort_json (jnormal demo_jwk) = demo_jwk"
  unfolding demo_jwk_def by code_simp

lemma demo_thumbprint: "thumbprint demo_jose demo_jwk = Inr (b64url_encode ''h'')"
  by (simp add: thumbprint_def jwk_members_def demo_jwk_def jget_def Let_def)

lemma payload_decoded: "is_obj j \<Longrightarrow> decoded_payload (JStr (b64url_encode (dumps Compact j))) = Inr (Some j)"
  by (simp add: decoded_payload_def decode_encode caught_def and_then_def)

lemma demo_no_eab: "\<not> ca_acme_require_eab (demo_ca i n q)" "\<not> ca_acme_wildcards (demo_ca i n q)" "ca_acme_profile (demo_ca i n q) = None"
  by (simp_all add: demo_ca_def)

lemma demo_fresh: "ae_now (demo_ae n) - minutes (ae_nonce_minutes (demo_ae n)) \<le> days 1"
  by (simp add: demo_env_facts minutes_def seconds_def)

section \<open>The run\<close>

definition demo_body :: "string \<times> json \<Rightarrow> string \<Rightarrow> string \<Rightarrow> json \<Rightarrow> string" where
  "demo_body signer nonce url payload = client_request (demo_header signer nonce url) (dumps Compact payload) ''s''"

lemma demo_start:
  "\<exists>lg. fst (acme_post (demo_ae ''a'') (demo_post New_order [] False []) (empty_acme demo_acme_pki)) = demo_acme lg ''a'' [] [] [] []"
proof -
  have "load_ca (demo_ae ''a'') (demo_post New_order [] False []) (empty_acme demo_acme_pki) = Inr demo_sub"
    by (rule demo_loads [of _ "p_log demo_acme_pki"]) (simp add: empty_acme_def)
  then have "fst (acme_post (demo_ae ''a'') (demo_post New_order [] False []) (empty_acme demo_acme_pki)) = demo_acme (p_log demo_acme_pki) ''a'' [] [] [] []"
    by (simp add: acme_post_def acme_verified_def issue_nonce_def empty_acme_def demo_acme_def demo_env_facts)
  then show ?thesis by blast
qed

text \<open>A new account with the key in the header; \<open>v\<close> is what the request is verified to.\<close>

definition demo_jwk_request :: "json \<Rightarrow> acme_account verified" where
  "demo_jwk_request payload =
     \<lparr>vf_protected = demo_header (''jwk'', demo_jwk) ''a'' ''u'', vf_payload = Some payload, vf_jwk = demo_jwk, vf_kid = None,
      vf_key = Rsa 3072 5, vf_account = None\<rparr>"

lemma demo_account_post:
  assumes "ac_pki st = demo_acme_pki\<lparr>p_log := lg\<rparr>" "ac_nonces st = [(''a'', days 1)]" "is_obj payload"
    and "new_account (demo_ae ''b'') demo_sub (demo_jwk_request payload) (st\<lparr>ac_nonces := []\<rparr>) = (s, Inr (1, True))"
  defines "hq \<equiv> demo_post New_account ''u'' True (demo_body (''jwk'', demo_jwk) ''a'' ''u'' payload)"
  shows "acme_post (demo_ae ''b'') hq st = (issue_nonce (demo_ae ''b'') s, Inr 1)" "accepted_nonce (demo_ae ''b'') hq st = Some ''a''"
proof -
  let ?h = "demo_header (''jwk'', demo_jwk) ''a'' ''u''"
  let ?v = "\<lparr>vf_protected = ?h, vf_payload = Some payload, vf_jwk = demo_jwk, vf_kid = None, vf_key = Rsa 3072 5, vf_account = None\<rparr> :: acme_account verified"
  have spent: "st\<lparr>ac_nonces := filter (\<lambda>x. fst x \<noteq> ''a'') (ac_nonces st)\<rparr> = st\<lparr>ac_nonces := []\<rparr>" by (simp add: assms(2))
  have view: "acme_view (demo_ae ''b'') demo_sub hq ?v (st\<lparr>ac_nonces := filter (\<lambda>x. fst x \<noteq> ''a'') (ac_nonces st)\<rparr>)
      = (st\<lparr>ac_nonces := []\<rparr>, s, Inr 1)"
    unfolding spent using assms(4) by (simp add: acme_view_def hq_def demo_jwk_request_def del: One_nat_def)
  have load: "load_ca (demo_ae ''b'') hq st = Inr demo_sub" unfolding hq_def by (rule demo_loads [OF assms(1)])
  have body: "hq_body hq = client_request ?h (dumps Compact payload) ''s''" by (simp add: hq_def demo_body_def del: dumps.simps)
  have key: "request_key (ae_jose (demo_ae ''b'')) ?h (account_for_kid (demo_ae ''b'') st demo_sub) aa_jwk (allows_jwk (hq_route hq))
      (hq_route hq \<noteq> New_account) = Inr (demo_jwk, None, None, Rsa 3072 5)"
    by (simp add: hq_def allows_jwk_def demo_request_jwk)
  have head: "header_ok ?h (hq_url hq) True = Inr ''RS256''" "jget ''nonce'' ?h = Some (JStr ''a'')" by (simp_all add: hq_def demo_header_simps)
  note post = acme_post_view [OF load _ body demo_header_simps(1) head(1) key _ _ _ payload_decoded [OF assms(3)] _ head(2) _ _ demo_fresh view]
  show "acme_post (demo_ae ''b'') hq st = (issue_nonce (demo_ae ''b'') s, Inr 1)"
    by (rule post(1)) (simp_all add: hq_def signature_length_ok_def EC_ALGS_def is_get_def assms(2))
  show "accepted_nonce (demo_ae ''b'') hq st = Some ''a''"
    by (rule post(2)) (simp_all add: hq_def signature_length_ok_def EC_ALGS_def is_get_def assms(2))
qed

lemma demo_opens_account:
  defines "hq \<equiv> demo_post New_account ''u'' True (demo_body (''jwk'', demo_jwk) ''a'' ''u'' (JObj []))"
  shows "\<exists>lg'. fst (acme_post (demo_ae ''b'') hq (demo_acme lg ''a'' [] [] [] [])) = demo_acme lg' ''b'' [demo_account] [] [] []"
    and "accepted_nonce (demo_ae ''b'') hq (demo_acme lg ''a'' [] [] [] []) = Some ''a''"
proof -
  let ?st = "demo_acme lg ''a'' [] [] [] []"
  have "\<exists>lg'. new_account (demo_ae ''b'') demo_sub (demo_jwk_request (JObj [])) (?st\<lparr>ac_nonces := []\<rparr>)
      = ((demo_acme lg' ''b'' [demo_account] [] [] [])\<lparr>ac_nonces := []\<rparr>, Inr (1, True))"
    by (simp add: new_account_def demo_jwk_request_def demo_thumbprint first_row_def jget_def jtruthy_def validate_contacts_def jget_some_def check_eab_def
        and_then_def fresh_account_def fresh_id_def demo_jwk_normal use_eab_def acme_log_def demo_acme_def demo_account_def demo_env_facts demo_no_eab Let_def)
      (rule exI, rule refl)
  then obtain lg' where na: "new_account (demo_ae ''b'') demo_sub (demo_jwk_request (JObj [])) (?st\<lparr>ac_nonces := []\<rparr>)
      = ((demo_acme lg' ''b'' [demo_account] [] [] [])\<lparr>ac_nonces := []\<rparr>, Inr (1, True))" by blast
  note post = demo_account_post [OF _ _ _ na]
  have "acme_post (demo_ae ''b'') hq ?st = (issue_nonce (demo_ae ''b'') ((demo_acme lg' ''b'' [demo_account] [] [] [])\<lparr>ac_nonces := []\<rparr>), Inr 1)"
    unfolding hq_def by (rule post(1)) (simp_all add: is_obj_def)
  then have "fst (acme_post (demo_ae ''b'') hq ?st) = demo_acme lg' ''b'' [demo_account] [] [] []"
    by (simp add: issue_nonce_def demo_acme_def demo_env_facts)
  then show "\<exists>lg'. fst (acme_post (demo_ae ''b'') hq ?st) = demo_acme lg' ''b'' [demo_account] [] [] []" by blast
  show "accepted_nonce (demo_ae ''b'') hq ?st = Some ''a''"
    unfolding hq_def by (rule post(2)) (simp_all add: is_obj_def)
qed

text \<open>The requests signed with the key of the account; \<open>v\<close> is what they are verified to.\<close>

definition demo_request_of :: "string \<Rightarrow> string \<Rightarrow> json \<Rightarrow> acme_account verified" where
  "demo_request_of nonce url payload =
     \<lparr>vf_protected = demo_header demo_kid nonce url, vf_payload = Some payload, vf_jwk = demo_jwk,
      vf_kid = Some (account_url (demo_ae []) 2 1), vf_key = Rsa 3072 5, vf_account = Some demo_account\<rparr>"

lemma demo_signed_post:
  assumes "\<not> is_get route" "\<not> allows_jwk route" "is_obj payload" "n \<noteq> []" "length n \<le> 64"
    and "acme_view (demo_ae m) demo_sub (demo_post route u True (demo_body demo_kid n u payload)) (demo_request_of n u payload)
       ((demo_acme lg n [demo_account] os zs cs)\<lparr>ac_nonces := []\<rparr>) = (c, s, Inr res)"
  shows "acme_post (demo_ae m) (demo_post route u True (demo_body demo_kid n u payload)) (demo_acme lg n [demo_account] os zs cs)
    = (issue_nonce (demo_ae m) s, Inr res)"
proof -
  let ?h = "demo_header demo_kid n u" and ?st = "demo_acme lg n [demo_account] os zs cs"
    and ?hq = "demo_post route u True (demo_body demo_kid n u payload)"
  have load: "load_ca (demo_ae m) ?hq ?st = Inr demo_sub" by (rule demo_loads) simp
  have body: "hq_body ?hq = client_request ?h (dumps Compact payload) ''s''" by (simp add: demo_body_def)
  have acct: "account_for_kid (demo_ae m) ?st demo_sub (account_url (demo_ae []) 2 1) = Inr demo_account"
    using account_for_kid_url [of 1 ?st demo_account demo_sub "demo_ae m"]
    by (simp add: get_account_def get_row_def demo_account_def account_url_def account_prefix_def)
  have "jget_some ''jwk'' ?h = None" "jget_some ''kid'' ?h = Some (JStr (account_url (demo_ae []) 2 1))"
    by (simp_all add: demo_header_def jget_some_def jget_def demo_kid_def)
  moreover have "aa_jwk demo_account = demo_jwk" by (simp add: demo_account_def)
  moreover have "route \<noteq> New_account" using assms(2) by (auto simp: allows_jwk_def)
  ultimately have key: "request_key (ae_jose (demo_ae m)) ?h (account_for_kid (demo_ae m) ?st demo_sub) aa_jwk (allows_jwk (hq_route ?hq))
      (hq_route ?hq \<noteq> New_account) = Inr (demo_jwk, Some (account_url (demo_ae []) 2 1), Some demo_account, Rsa 3072 5)"
    by (simp add: request_key_def acct demo_account_key and_then_def del: One_nat_def)
  have kid: "fst demo_kid \<notin> {''alg'', ''nonce'', ''url'', ''crit''}" by (simp add: demo_kid_def)
  have head: "header_ok ?h (hq_url ?hq) True = Inr ''RS256''" "jget ''nonce'' ?h = Some (JStr n)"
    using assms(4) kid by (simp_all add: demo_header_simps)
  have view: "acme_view (demo_ae m) demo_sub ?hq \<lparr>vf_protected = ?h, vf_payload = Some payload, vf_jwk = demo_jwk,
      vf_kid = Some (account_url (demo_ae []) 2 1), vf_key = Rsa 3072 5, vf_account = Some demo_account\<rparr>
      (?st\<lparr>ac_nonces := filter (\<lambda>x. fst x \<noteq> n) (ac_nonces ?st)\<rparr>) = (c, s, Inr res)"
    using assms(6) by (simp add: demo_request_of_def)
  show ?thesis
    by (rule acme_post_view(1) [OF load _ body demo_header_simps(1) head(1) key _ _ _ payload_decoded [OF assms(3)] _ head(2) assms(5) _ demo_fresh view])
      (simp_all add: signature_length_ok_def EC_ALGS_def assms(1))
qed

lemma demo_name: "rstrip_dots (lower_str (strip_str ''www.a.example'')) = ''www.a.example''" "is_dns_name ''www.a.example''"
  "\<not> is_dotted_quad ''www.a.example''" "\<not> startswith ''www.a.example'' ''*.''"
  by code_simp+

lemma demo_enforced_acme: "enforce_names (demo_acme_pki\<lparr>p_log := lg\<rparr>) demo_sub None [''DNS:www.a.example''] = Inr ()"
proof -
  have ca: "get_ca (demo_acme_pki\<lparr>p_log := lg\<rparr>) i = get_ca demo_pki i" for i by (simp add: get_ca_def demo_acme_pki_def)
  have len: "length (p_cas demo_acme_pki) = Suc (Suc 0)" by (simp add: demo_acme_pki_def demo_pki_def)
  have "requested_names None [''DNS:www.a.example''] = Inr [(''dns'', ''www.a.example'')]"
    by (simp add: requested_names_def demo_entry constrained_kinds_def)
  then show ?thesis by (simp add: enforce_names_def demo_ca_facts parent_ca_def ca demo_get_ca len split: sum.split)
qed

definition demo_names :: json where
  "demo_names = JObj [(''identifiers'', JArr [JObj [(''type'', JStr ''dns''), (''value'', JStr ''www.a.example'')]])]"

lemma demo_names_obj: "is_obj demo_names"
  by (simp add: demo_names_def is_obj_def)

lemma demo_orders:
  "\<exists>lg'. fst (acme_post (demo_ae ''c'') (demo_post New_order ''u'' True (demo_body demo_kid ''b'' ''u'' demo_names)) (demo_acme lg ''b'' [demo_account] [] [] []))
    = demo_acme lg' ''c'' [demo_account] [demo_order] [demo_authz] [demo_chall]"
proof -
  let ?s = "(demo_acme lg ''b'' [demo_account] [] [] [])\<lparr>ac_nonces := []\<rparr>"
  have ids: "jget ''identifiers'' demo_names = Some (JArr [JObj [(''type'', JStr ''dns''), (''value'', JStr ''www.a.example'')]])"
    by (simp add: demo_names_def jget_def)
  have item: "parse_identifier (demo_ae ''c'') demo_sub (JObj [(''type'', JStr ''dns''), (''value'', JStr ''www.a.example'')]) = Inr ''www.a.example''"
    by (simp add: parse_identifier_def is_obj_def jget_def demo_name)
  have names: "parse_identifiers (demo_ae ''c'') demo_sub (Some (JArr [JObj [(''type'', JStr ''dns''), (''value'', JStr ''www.a.example'')]])) ?s = Inr [''www.a.example'']"
    using demo_enforced_acme by (simp add: parse_identifiers_def item and_then_def del: One_nat_def)
  have "\<exists>lg'. new_order (demo_ae ''c'') demo_sub demo_account (Some demo_names) ?s
      = ((demo_acme lg' [] [demo_account] [demo_order] [demo_authz] [demo_chall])\<lparr>ac_nonces := []\<rparr>, Inr 1)"
    unfolding new_order_def option.case ids names sum.case
    by (simp add: Let_def new_authz_def new_challs_def demo_name fresh_id_def acme_log_def put_account_def put_row_def
        demo_acme_def demo_order_def demo_authz_def demo_chall_def demo_account_def demo_env_facts)
      (rule exI, rule refl)
  then obtain lg' where new: "new_order (demo_ae ''c'') demo_sub demo_account (Some demo_names) ?s
      = ((demo_acme lg' [] [demo_account] [demo_order] [demo_authz] [demo_chall])\<lparr>ac_nonces := []\<rparr>, Inr 1)" by blast
  have "acme_post (demo_ae ''c'') (demo_post New_order ''u'' True (demo_body demo_kid ''b'' ''u'' demo_names)) (demo_acme lg ''b'' [demo_account] [] [] [])
    = (issue_nonce (demo_ae ''c'') ((demo_acme lg' [] [demo_account] [demo_order] [demo_authz] [demo_chall])\<lparr>ac_nonces := []\<rparr>), Inr 1)"
    by (rule demo_signed_post [where c = ?s]) (simp_all add: is_get_def allows_jwk_def acme_view_def demo_request_of_def uncommitted_def new demo_names_obj del: One_nat_def)
  then have "fst (acme_post (demo_ae ''c'') (demo_post New_order ''u'' True (demo_body demo_kid ''b'' ''u'' demo_names)) (demo_acme lg ''b'' [demo_account] [] [] []))
    = demo_acme lg' ''c'' [demo_account] [demo_order] [demo_authz] [demo_chall]"
    by (simp add: issue_nonce_def demo_acme_def demo_env_facts)
  then show ?thesis by blast
qed

definition demo_ready :: acme_order where
  "demo_ready = demo_order\<lparr>ao_status := ''ready''\<rparr>"

definition demo_valid :: acme_authz where
  "demo_valid = demo_authz\<lparr>az_status := ''valid''\<rparr>"

definition demo_done :: acme_challenge where
  "demo_done = demo_chall\<lparr>ch_status := ''valid'', ch_validated := Some (days 1), ch_attempts := 1\<rparr>"

lemma demo_found:
  "key_authorization demo_jose t demo_jwk = Inr (t @ CHR ''.'' # b64url_encode ''h'')"
  "dns01_validate (demo_ae n) ''www.a.example'' (txt_value demo_jose s) = None"
proof -
  show "key_authorization demo_jose t demo_jwk = Inr (t @ CHR ''.'' # b64url_encode ''h'')"
    by (simp add: key_authorization_def demo_thumbprint and_then_def)
  show "dns01_validate (demo_ae n) ''www.a.example'' (txt_value demo_jose s) = None"
    by (simp add: dns01_validate_def demo_network_def txt_name_def startswith_def txt_value_def)
qed

abbreviation demo_open :: "audit_log \<Rightarrow> acme" where
  "demo_open lg \<equiv> (demo_acme lg ''c'' [demo_account] [demo_order] [demo_authz] [demo_chall])\<lparr>ac_nonces := []\<rparr>"

lemma demo_fields:
  "az_id demo_authz = 1" "az_order demo_authz = 1" "az_account demo_authz = 1" "az_ca demo_authz = 2" "az_status demo_authz = ''pending''"
  "\<not> az_expires demo_authz \<le> days 1" "days 1 + seconds 10 < az_expires demo_authz" "az_value demo_authz = ''www.a.example''"
  "ch_id demo_chall = 1" "ch_authz demo_chall = 1" "ch_status demo_chall = ''pending''" "ch_type demo_chall = ''dns-01''"
  "ch_next demo_chall = None" "ch_error demo_chall = None"
  "ao_id demo_order = 1" "ao_status demo_order = ''pending''" "\<not> ao_expires demo_order \<le> days 1" "ao_account demo_order = 1" "ao_ca demo_order = 2"
  "aa_id demo_account = 1" "aa_jwk demo_account = demo_jwk"
  by (simp_all add: demo_authz_def demo_chall_def demo_order_def demo_account_def hours_def minutes_def seconds_def)

lemma demo_open_rows:
  "get_chall 1 (demo_open lg) = Some demo_chall" "get_authz 1 (demo_open lg) = Some demo_authz" "get_order 1 (demo_open lg) = Some demo_order"
  by (simp_all add: get_chall_def get_authz_def get_order_def get_row_def demo_fields del: One_nat_def)

lemma demo_responds:
  "\<exists>lg'. respond_challenge (demo_ae ''d'') demo_account 1 (demo_open lg)
    = ((demo_acme lg' [] [demo_account] [demo_ready] [demo_valid] [demo_done])\<lparr>ac_nonces := []\<rparr>, Inr ())"
proof -
  let ?s = "demo_open lg" and ?c = "demo_chall\<lparr>ch_status := ''processing''\<rparr>"
  have kept: "refresh_authz (days 1) 1 ?s = ?s"
    by (simp add: refresh_authz_def demo_open_rows aged_authz_def demo_fields del: One_nat_def)
      (simp add: put_authz_def put_row_def demo_acme_def)
  have "\<exists>lg'. attempt_dns01 (demo_ae ''d'') demo_jwk demo_authz ?c ?s
      = ((demo_acme lg' [] [demo_account] [demo_order] [demo_valid] [demo_done])\<lparr>ac_nonces := []\<rparr>, Inr ())"
    by (simp add: attempt_dns01_def demo_found demo_fields settle_def acme_log_def put_authz_def put_chall_def put_row_def demo_acme_def
        demo_valid_def demo_env_facts Let_def del: One_nat_def)
      (simp add: demo_done_def demo_chall_def, rule exI, rule refl)
  then obtain lg' where a: "attempt_dns01 (demo_ae ''d'') demo_jwk demo_authz ?c ?s
      = ((demo_acme lg' [] [demo_account] [demo_order] [demo_valid] [demo_done])\<lparr>ac_nonces := []\<rparr>, Inr ())" by blast
  let ?s1 = "(demo_acme lg' [] [demo_account] [demo_order] [demo_valid] [demo_done])\<lparr>ac_nonces := []\<rparr>"
  have r: "get_order 1 ?s1 = Some demo_order" by (simp add: get_order_def get_row_def demo_fields del: One_nat_def)
  have "az_order demo_valid = 1" "az_status demo_valid = ''valid''" by (simp_all add: demo_valid_def demo_fields)
  then have "refresh_order (days 1) 1 ?s1 = (demo_acme lg' [] [demo_account] [demo_ready] [demo_valid] [demo_done])\<lparr>ac_nonces := []\<rparr>"
    by (simp add: refresh_order_def r demo_fields age_authzs_of_def aged_authz_def authzs_of_def order_after_def put_order_def del: One_nat_def)
      (simp add: put_row_def demo_acme_def demo_ready_def)
  then show ?thesis
    by (simp add: respond_challenge_def demo_open_rows demo_fields demo_env_facts kept a del: One_nat_def) (rule exI, rule refl)
qed

lemma demo_proves:
  "\<exists>lg'. fst (acme_post (demo_ae ''d'') (demo_post (Chall 1) ''u'' True (demo_body demo_kid ''c'' ''u'' (JObj [])))
      (demo_acme lg ''c'' [demo_account] [demo_order] [demo_authz] [demo_chall]))
    = demo_acme lg' ''d'' [demo_account] [demo_ready] [demo_valid] [demo_done]"
proof -
  let ?s = "demo_open lg"
  have poll: "poll_authz (demo_ae ''d'') 1 ?s = (?s, Inr ())"
    by (simp add: poll_authz_def demo_open_rows due_chall_def first_row_def challs_of_def demo_fields demo_env_facts del: One_nat_def)
  obtain lg' where r: "respond_challenge (demo_ae ''d'') demo_account 1 ?s
      = ((demo_acme lg' [] [demo_account] [demo_ready] [demo_valid] [demo_done])\<lparr>ac_nonces := []\<rparr>, Inr ())" using demo_responds by blast
  have "view_chall (demo_ae ''d'') 2 demo_account (Some (JObj [])) 1 ?s
      = ((demo_acme lg' [] [demo_account] [demo_ready] [demo_valid] [demo_done])\<lparr>ac_nonces := []\<rparr>, Inr 1)"
    by (simp add: view_chall_def load_challenge_def load_authz_def demo_open_rows demo_fields poll r with_result_def and_then_def del: One_nat_def)
  then have "acme_post (demo_ae ''d'') (demo_post (Chall 1) ''u'' True (demo_body demo_kid ''c'' ''u'' (JObj [])))
      (demo_acme lg ''c'' [demo_account] [demo_order] [demo_authz] [demo_chall])
    = (issue_nonce (demo_ae ''d'') ((demo_acme lg' [] [demo_account] [demo_ready] [demo_valid] [demo_done])\<lparr>ac_nonces := []\<rparr>), Inr 1)"
    by (intro demo_signed_post [where c = ?s])
      (simp_all add: is_get_def allows_jwk_def is_obj_def acme_view_def demo_request_of_def uncommitted_def del: One_nat_def)
  then have "fst (acme_post (demo_ae ''d'') (demo_post (Chall 1) ''u'' True (demo_body demo_kid ''c'' ''u'' (JObj [])))
      (demo_acme lg ''c'' [demo_account] [demo_order] [demo_authz] [demo_chall]))
    = demo_acme lg' ''d'' [demo_account] [demo_ready] [demo_valid] [demo_done]"
    by (simp add: issue_nonce_def demo_acme_def demo_env_facts)
  then show ?thesis by blast
qed

section \<open>The certificate of the run\<close>

lemma sign_csr_san:
  assumes "sign_csr e pf rq ca i p = (p', Inr n)" "get_row ct_id n (p_certs p') = Some c" "wf_csrs p" "csr_of i p = Some csr"
  shows "build_general_names (e_gn_ok e) (effective_san rq csr) = Inr (x_san (ct_cert c))"
proof -
  obtain ku eku aia p1 where s: "claim_csr i p = Inr p1" "sign_claimed_csr e pf rq (ku, eku, aia) ca i p1 = Inr (p', n)"
    using assms(1) by (metis prod_cases3 sign_csr_ok)
  note p1 = claim_csr_eq [OF assms(3,4) s(1)]
  from s(2) obtain csr1 cert k where cl: "csr_of i p1 = Some csr1"
    "sign_leaf e ca (rq_subject (cs_csr csr1)) (rq_key (cs_csr csr1)) (ir_validity rq)
       \<lparr>lo_key_usage = ku, lo_ext_key_usage = eku, lo_san = effective_san rq csr1, lo_ocsp = ir_ocsp rq,
        lo_crl_dp = ir_crl_dp rq, lo_include_aia = aia, lo_policies = policies_for ca pf\<rparr> = Inr cert"
    "n = fresh_id ct_id (p_certs p1)" "p_certs p' = p_certs p1 @ [csr_certificate p1 e pf rq ku eku ca csr1 cert k]"
    by (rule sign_claimed_ok) auto
  then have c: "c = csr_certificate p1 e pf rq ku eku ca csr1 cert k" using assms(2) by (simp add: get_row_snoc_fresh)
  have "csr1 = csr\<lparr>cs_status := ''signing''\<rparr>" using cl(1) p1 [THEN conjunct2, THEN conjunct1] by simp
  then have "effective_san rq csr1 = effective_san rq csr" by (simp add: effective_san_def)
  with sign_leaf_ok(10) [OF cl(2)] show ?thesis by (simp add: c)
qed

definition demo_acme_csr :: csr_row where
  "demo_acme_csr = \<lparr>cs_id = 1, cs_common_name = ''www.a.example'', cs_csr = demo_csr_req, cs_status = ''pending'', cs_ca = Some 2,
     cs_certificate = None, cs_san = Some [''DNS:www.a.example''], cs_created_by = None, cs_signed_by = None, cs_profile = Some 1\<rparr>"

lemma demo_cn: "csr_cn demo_csr_req = Some ''www.a.example''" "issued_cn demo_csr_req ns = ''www.a.example''"
  "csr_dns demo_csr_req = {''www.a.example''}"
proof -
  have n: "rstrip_dots (lower_str ''www.a.example'') = ''www.a.example''" by code_simp
  then show c: "csr_cn demo_csr_req = Some ''www.a.example''" by (simp add: csr_cn_def demo_csr_req_def)
  then show "issued_cn demo_csr_req ns = ''www.a.example''" by (simp add: issued_cn_def truthy_str_def)
  show "csr_dns demo_csr_req = {''www.a.example''}" by (auto simp: csr_dns_def demo_csr_req_def n)
qed

lemma demo_checked: "check_csr demo_csr_req [''www.a.example''] = Inr ()"
  by (simp add: check_csr_def demo_cn truthy_str_def Let_def) (simp add: demo_csr_req_def)

lemma demo_imported:
  "import_csr demo_env demo_csr_req None (Some 1) (demo_acme_pki\<lparr>p_log := lg\<rparr>)
    = Inr (demo_acme_pki\<lparr>p_log := lg, p_csrs := [demo_acme_csr\<lparr>cs_ca := None\<rparr>]\<rparr>, 1)"
  by (simp add: import_csr_def parse_csr_def demo_csr_req_def dict_of_def extension_to_strings_def label_of_def san_kinds_def new_csr_def
      demo_env_facts demo_acme_pki_def demo_pki_def fresh_id_def some_nonempty_def demo_acme_csr_def and_then_def Let_def)

lemma demo_profile_found: "acme_profile (demo_acme_pki\<lparr>p_log := lg\<rparr>) demo_sub = Inr demo_custom"
proof -
  have "strip_str ''custom'' = ''custom''" by code_simp
  then show ?thesis
    by (simp add: acme_profile_def demo_no_eab lookup_profile_def demo_acme_pki_def demo_custom_def demo_profile_def first_row_def Let_def)
qed

lemma demo_acme_signs:
  "\<exists>p n. acme_sign (demo_ae m) demo_sub demo_custom demo_csr_req [''www.a.example''] (demo_acme_pki\<lparr>p_log := lg\<rparr>) = (p, Inr n)
    \<and> (\<exists>c. get_row ct_id n (p_certs p) = Some c \<and> x_san (ct_cert c) = [(''dns'', ''www.a.example'')])"
proof -
  let ?p = "demo_acme_pki\<lparr>p_log := lg, p_csrs := [demo_acme_csr]\<rparr>"
  obtain urls where urls: "issuance_urls (ae_urls (demo_ae m)) 2 None = Inr urls"
    by (simp add: issuance_urls_def embeddable_def Let_def)
  let ?rq = "acme_request_for (demo_ae m) demo_custom urls"
  have days: "acme_days (demo_ae m) demo_custom = 90" by (simp add: acme_days_def demo_custom_def demo_profile_def)
  have wf: "wf_csrs ?p" by (simp add: wf_csrs_def wf_table_def)
  have csr: "csr_of 1 ?p = Some demo_acme_csr" by (simp add: csr_of_def get_row_def demo_acme_csr_def)
  have f: "cs_status demo_acme_csr = ''pending''" "cs_common_name demo_acme_csr = ''www.a.example''" "cs_csr demo_acme_csr = demo_csr_req"
    "rq_key demo_csr_req = Rsa 3072 6" "rq_sig_ok demo_csr_req" "effective_san ?rq demo_acme_csr = [''DNS:www.a.example'']"
    "ir_validity ?rq = Some 90" "ir_key_usage ?rq = None" "ir_ext_key_usage ?rq = None"
    by (simp_all add: demo_acme_csr_def demo_csr_req_def effective_san_def acme_request_for_def days)
  have names: "enforce_names ?p demo_sub (Some ''www.a.example'') [''DNS:www.a.example''] = Inr ()"
  proof -
    have ca: "get_ca ?p i = get_ca demo_pki i" for i by (simp add: get_ca_def demo_acme_pki_def)
    have "length (p_cas ?p) = Suc (Suc 0)" by (simp add: demo_acme_pki_def demo_pki_def)
    then show ?thesis by (simp add: enforce_names_def demo_requested demo_ca_facts parent_ca_def ca demo_get_ca split: sum.split)
  qed
  have custom: "profile_enforce (Some demo_custom) q = Inr (lr_key_usage q, lr_ext_key_usage q, True)" for q
    by (simp add: profile_enforce_def pf_is_custom_def demo_custom_def)
  have checks: "sign_checks demo_env ?p (Some demo_custom) ?rq demo_sub demo_acme_csr = Inr (None, None, True)"
    by (simp add: sign_checks_def ca_can_issue_def demo_ca_facts f demo_env_facts custom names del: One_nat_def)
  have san: "build_general_names (e_gn_ok demo_env) (effective_san ?rq demo_acme_csr) = Inr [(''dns'', ''www.a.example'')]"
    by (simp add: f demo_entry to_general_name_def demo_env_facts)
  have "e_now demo_env < ca_not_after demo_sub" by (simp add: demo_env_facts demo_ca_facts days_eq)
  from sign_csr_total [OF wf csr f(1) checks this demo_ca_facts(6) f(7) _ _ san demo_env_facts(3)]
  obtain p n c where r: "sign_csr demo_env (Some demo_custom) ?rq demo_sub 1 ?p = (p, Inr n)" "get_row ct_id n (p_certs p) = Some c"
    by (auto simp: demo_env_facts)
  have x: "x_san (ct_cert c) = [(''dns'', ''www.a.example'')]" using sign_csr_san [OF r wf csr] unfolding san by simp
  have "acme_sign (demo_ae m) demo_sub demo_custom demo_csr_req [''www.a.example''] (demo_acme_pki\<lparr>p_log := lg\<rparr>)
      = sign_csr demo_env (Some demo_custom) ?rq demo_sub 1 ?p"
  proof -
    have "pf_id demo_custom = 1" by (simp add: demo_custom_def demo_profile_def)
    then show ?thesis using demo_imported urls by (simp add: acme_sign_def demo_cn del: One_nat_def) (simp add: demo_acme_csr_def)
  qed
  with r x show ?thesis by auto
qed

definition demo_csr_body :: json where
  "demo_csr_body = JObj [(''csr'', JStr (b64url_encode ''csr''))]"

lemma demo_asks: "order_csr (demo_ae m) demo_ready (Some demo_csr_body) = Inr demo_csr_req"
proof -
  have "ao_identifiers demo_ready = [''www.a.example'']" by (simp add: demo_ready_def demo_order_def)
  then show ?thesis by (simp add: order_csr_def demo_csr_body_def jget_def decode_encode demo_checked and_then_def)
qed

lemma demo_ready_fields: "ao_id demo_ready = 1" "ao_status demo_ready = ''ready''" "\<not> ao_expires demo_ready \<le> days 1"
  "ao_account demo_ready = 1" "ao_ca demo_ready = 2" "ao_identifiers demo_ready = [''www.a.example'']"
  by (simp_all add: demo_ready_def demo_fields) (simp_all add: demo_order_def)

abbreviation demo_proved :: "audit_log \<Rightarrow> acme" where
  "demo_proved lg \<equiv> (demo_acme lg ''d'' [demo_account] [demo_ready] [demo_valid] [demo_done])\<lparr>ac_nonces := []\<rparr>"

lemma demo_stays_ready:
  "get_order 1 (demo_proved lg) = Some demo_ready" "refresh_order (days 1) 1 (demo_proved lg) = demo_proved lg"
proof -
  show r: "get_order 1 (demo_proved lg) = Some demo_ready" by (simp add: get_order_def get_row_def demo_ready_fields del: One_nat_def)
  have "az_order demo_valid = 1" "az_status demo_valid = ''valid''" by (simp_all add: demo_valid_def demo_fields)
  then show "refresh_order (days 1) 1 (demo_proved lg) = demo_proved lg"
    by (simp add: refresh_order_def r demo_ready_fields age_authzs_of_def aged_authz_def authzs_of_def order_after_def put_order_def del: One_nat_def)
      (simp add: put_row_def demo_acme_def)
qed

lemma demo_issues:
  "\<exists>n. acme_certs (ac_pki (fst (acme_post (demo_ae ''e'') (demo_post (Finalize 1) ''u'' True (demo_body demo_kid ''d'' ''u'' demo_csr_body))
      (demo_acme lg ''d'' [demo_account] [demo_ready] [demo_valid] [demo_done])))) n = Some (1, {(''dns'', ''www.a.example'')})"
proof -
  let ?s = "demo_proved lg" and ?ae = "demo_ae ''e''"
  obtain p n c where sign: "acme_sign ?ae demo_sub demo_custom demo_csr_req [''www.a.example''] (demo_acme_pki\<lparr>p_log := lg\<rparr>) = (p, Inr n)"
    "get_row ct_id n (p_certs p) = Some c" "x_san (ct_cert c) = [(''dns'', ''www.a.example'')]"
    using demo_acme_signs by blast
  have "\<exists>s. issue_order ?ae demo_sub demo_account demo_ready demo_csr_req demo_custom ?s = (s, Inr 1)
      \<and> p_certs (ac_pki s) = p_certs (mark_acme n 1 p)"
    by (simp add: issue_order_def put_order_def demo_ready_fields sign demo_fields acme_log_def Let_def del: One_nat_def)
  then obtain s where issue: "issue_order ?ae demo_sub demo_account demo_ready demo_csr_req demo_custom ?s = (s, Inr 1)"
    "p_certs (ac_pki s) = p_certs (mark_acme n 1 p)" by blast
  have view: "acme_view ?ae demo_sub (demo_post (Finalize 1) ''u'' True (demo_body demo_kid ''d'' ''u'' demo_csr_body))
      (demo_request_of ''d'' ''u'' demo_csr_body) ?s = (s, s, Inr 1)"
    by (simp add: acme_view_def demo_request_of_def view_finalize_def load_order_def demo_stays_ready demo_ready_fields demo_fields finalize_def
        demo_asks demo_profile_found issue demo_env_facts and_then_def Let_def del: One_nat_def)
  have "acme_post ?ae (demo_post (Finalize 1) ''u'' True (demo_body demo_kid ''d'' ''u'' demo_csr_body))
      (demo_acme lg ''d'' [demo_account] [demo_ready] [demo_valid] [demo_done]) = (issue_nonce ?ae s, Inr 1)"
    by (rule demo_signed_post [OF _ _ _ _ _ view]) (simp_all add: is_get_def allows_jwk_def demo_csr_body_def is_obj_def)
  moreover have "acme_certs (ac_pki (issue_nonce ?ae s)) n = Some (1, {(''dns'', ''www.a.example'')})"
  proof -
    have "get_row ct_id n (p_certs (ac_pki s)) = Some (c\<lparr>ct_source := Some ''acme'', ct_acme_account := Some 1\<rparr>)"
      using sign(2) get_row_key [OF sign(2)] unfolding issue(2) mark_acme_def by (simp add: get_row_map)
    then show ?thesis using sign(3) by (simp add: acme_certs_def issue_nonce_def cert_view_def)
  qed
  ultimately show ?thesis by auto
qed

section \<open>The run as a history\<close>

lemma history_post:
  assumes "\<exists>P. acme_history st P" "fst (acme_post ae hq st) = st'"
  shows "\<exists>P. acme_history st' P"
  using assms acme_history.step server_step.post by metis

lemma demo_begins: "\<exists>P. acme_history (empty_acme demo_acme_pki) P"
proof -
  have "acme_certs demo_acme_pki n = None" for n
    by (simp add: acme_certs_def get_row_def demo_acme_pki_def demo_pki_def cert_view_def demo_cert_def)
  then have "acme_history (empty_acme demo_acme_pki) {}"
    by (intro acme_history.start) (auto simp: wf_csrs_def wf_table_def demo_acme_pki_def demo_pki_def)
  then show ?thesis by blast
qed

lemma demo_history_accounts: "\<exists>lg. (\<exists>P. acme_history (demo_acme lg ''b'' [demo_account] [] [] []) P)"
proof -
  obtain l1 where "\<exists>P. acme_history (demo_acme l1 ''a'' [] [] [] []) P" using history_post [OF demo_begins] demo_start by metis
  from history_post [OF this] demo_opens_account(1) show ?thesis by metis
qed

lemma demo_history_ready: "\<exists>lg. (\<exists>P. acme_history (demo_acme lg ''d'' [demo_account] [demo_ready] [demo_valid] [demo_done]) P)"
proof -
  obtain l2 where 2: "\<exists>P. acme_history (demo_acme l2 ''b'' [demo_account] [] [] []) P" using demo_history_accounts by blast
  obtain l3 where 3: "\<exists>P. acme_history (demo_acme l3 ''c'' [demo_account] [demo_order] [demo_authz] [demo_chall]) P"
    using history_post [OF 2] demo_orders by metis
  from history_post [OF 3] demo_proves show ?thesis by metis
qed

lemma demo_history: "\<exists>st P n. acme_history st P \<and> acme_certs (ac_pki st) n = Some (1, {(''dns'', ''www.a.example'')})"
proof -
  obtain lg where "\<exists>P. acme_history (demo_acme lg ''d'' [demo_account] [demo_ready] [demo_valid] [demo_done]) P"
    using demo_history_ready by blast
  from history_post [OF this] demo_issues show ?thesis by metis
qed

end
