(* ===== verification/Acme_Claims.thy ===== *)
theory Acme_Claims
  imports Acme_Demo Acme_Jws_Claims
begin

text \<open>
  Correctness of the ACME server: what a certificate it issues says has been
  proved, and by whom; what a request must carry, and what may be used once.
\<close>

section \<open>Certificates\<close>

text \<open>C1. Whatever the requests, the jobs and the administrators do, and in whatever
  order: a name of a certificate that was issued through ACME is a DNS name
  which the account of the certificate proved to control, at some moment of the
  history, with its key of that moment and a token the server gave out.
\<close>

theorem acme_names_were_proved:
  assumes "acme_history st P" "get_row ct_id n (p_certs (ac_pki st)) = Some c" "ct_source c = Some ''acme''"
    and "ct_acme_account c = Some a" "(k, v) \<in> set (x_san (ct_cert c))"
  shows "k = ''dns'' \<and> (\<exists>name. (a, name) \<in> P \<and> canonical_name name = canonical_name v)"
proof -
  have "acme_certs (ac_pki st) n = Some (a, set (x_san (ct_cert c)))" using assms(2-4) by (simp add: acme_certs_def cert_view_def)
  from issued_names_proved [OF assms(1) this assms(5)] show ?thesis .
qed

lemma acme_certs_row:
  assumes "acme_certs p n = Some (a, names)"
  obtains c where "get_row ct_id n (p_certs p) = Some c" "ct_source c = Some ''acme''" "ct_acme_account c = Some a" "names = set (x_san (ct_cert c))"
  using assms by (auto simp: acme_certs_def cert_view_def Option.bind_eq_Some_conv split: if_splits)

theorem acme_names_were_proved_witness:
  "\<exists>st P n c. acme_history st P \<and> get_row ct_id n (p_certs (ac_pki st)) = Some c \<and> x_san (ct_cert c) \<noteq> []
     \<and> (\<exists>name. (1, name) \<in> P \<and> canonical_name name = canonical_name ''www.a.example'')"
proof -
  obtain st P n where h: "acme_history st P" "acme_certs (ac_pki st) n = Some (1, {(''dns'', ''www.a.example'')})" using demo_history by blast
  obtain c where c: "get_row ct_id n (p_certs (ac_pki st)) = Some c" "ct_source c = Some ''acme''" "ct_acme_account c = Some 1"
    "{(''dns'', ''www.a.example'')} = set (x_san (ct_cert c))" using acme_certs_row [OF h(2)] by metis
  have m: "(''dns'', ''www.a.example'') \<in> set (x_san (ct_cert c))" unfolding c(4) [symmetric] by simp
  then have "x_san (ct_cert c) \<noteq> []" by auto
  with acme_names_were_proved [OF h(1) c(1-3) m] h(1) c(1) show ?thesis by blast
qed

text \<open>C2. The server implements the protocol of RFC 8555: a step of the program is a
  sequence of steps of the protocol, in which a name counts as proved only when
  the network bears it out, and it keeps the tables in order.
\<close>

theorem acme_refines_rfc8555:
  assumes "acme_history st P" "server_step ae st st'"
  shows "\<exists>Q. rfc_steps canonical_name (proved_by ae st) (protocol_of P st) (protocol_of Q st') \<and> wf_acme st'"
proof -
  have "wf_acme st" using acme_history_inv [OF assms(1)] by blast
  from server_step_refines [OF assms(2) this] show ?thesis unfolding refines_def by blast
qed

theorem acme_refines_rfc8555_witness:
  "\<exists>st P st' Q. server_step (demo_ae ''e'') st st' \<and> pr_certs (protocol_of P st) = Map.empty
     \<and> rfc_steps canonical_name (proved_by (demo_ae ''e'') st) (protocol_of P st) (protocol_of Q st') \<and> pr_certs (protocol_of Q st') \<noteq> Map.empty"
proof -
  obtain lg P where h: "acme_history (demo_acme lg ''d'' [demo_account] [demo_ready] [demo_valid] [demo_done]) P"
    using demo_history_ready by blast
  let ?st = "demo_acme lg ''d'' [demo_account] [demo_ready] [demo_valid] [demo_done]"
  let ?st' = "fst (acme_post (demo_ae ''e'') (demo_post (Finalize 1) ''u'' True (demo_body demo_kid ''d'' ''u'' demo_csr_body)) ?st)"
  have step: "server_step (demo_ae ''e'') ?st ?st'" by (rule server_step.post)
  obtain n where n: "acme_certs (ac_pki ?st') n \<noteq> None" using demo_issues by fastforce
  have "acme_certs (demo_acme_pki\<lparr>p_log := lg\<rparr>) m = None" for m
    by (simp add: acme_certs_def get_row_def demo_acme_pki_def demo_pki_def cert_view_def demo_cert_def)
  then have "pr_certs (protocol_of P ?st) = Map.empty" by (auto simp: protocol_of_def)
  moreover have "pr_certs (protocol_of Q ?st') \<noteq> Map.empty" for Q using n by (auto simp: protocol_of_def)
  ultimately show ?thesis using acme_refines_rfc8555 [OF h step] step by blast
qed

section \<open>The tables\<close>

text \<open>C39. The tables are well typed at every moment: each status is one of its
  vocabulary, each row names rows that exist and agree with it on the account
  and the CA, ids are unique, and a challenge of a wildcard name is a dns-01 one.
\<close>

theorem acme_tables_well_typed:
  assumes "acme_history st P"
  shows "distinct (map aa_id (ac_accounts st)) \<and> distinct (map ao_id (ac_orders st)) \<and> distinct (map az_id (ac_authzs st))
    \<and> distinct (map ch_id (ac_challs st)) \<and> distinct (map fst (ac_nonces st))
    \<and> (\<forall>a \<in> set (ac_accounts st). aa_status a \<in> {''valid'', ''deactivated''})
    \<and> (\<forall>r \<in> set (ac_orders st). ao_status r \<in> {''pending'', ''ready'', ''processing'', ''valid'', ''invalid''}
         \<and> (\<exists>a \<in> set (ac_accounts st). aa_id a = ao_account r \<and> aa_ca a = ao_ca r))
    \<and> (\<forall>z \<in> set (ac_authzs st). az_status z \<in> {''pending'', ''valid'', ''invalid'', ''deactivated'', ''expired''}
         \<and> (\<exists>r \<in> set (ac_orders st). ao_id r = az_order z \<and> ao_account r = az_account z \<and> ao_ca r = az_ca z))
    \<and> (\<forall>c \<in> set (ac_challs st). ch_status c \<in> {''pending'', ''processing'', ''valid'', ''invalid''}
         \<and> (\<exists>z \<in> set (ac_authzs st). az_id z = ch_authz c \<and> (az_wildcard z \<longrightarrow> ch_type c = ''dns-01'')))"
proof -
  have wf: "keys_unique st" "rows_ok st" using acme_history_inv [OF assms] by (auto simp: wf_acme_def)
  have "distinct (map aa_id (ac_accounts st)) \<and> distinct (map ao_id (ac_orders st)) \<and> distinct (map az_id (ac_authzs st))
    \<and> distinct (map ch_id (ac_challs st)) \<and> distinct (map fst (ac_nonces st))"
    using wf(1) by (simp add: keys_unique_def wf_table_def)
  moreover have "aa_status a \<in> {''valid'', ''deactivated''}" if "a \<in> set (ac_accounts st)" for a
    using wf(2) that by (auto simp: rows_ok_def list_all_iff row_ok_defs vocabulary)
  moreover have "ao_status r \<in> {''pending'', ''ready'', ''processing'', ''valid'', ''invalid''}
      \<and> (\<exists>a \<in> set (ac_accounts st). aa_id a = ao_account r \<and> aa_ca a = ao_ca r)" if "r \<in> set (ac_orders st)" for r
  proof -
    have "ao_status r \<in> ORDER_STATES" "(ao_account r, ao_ca r) \<in> account_key ` set (ac_accounts st)"
      using wf(2) that by (auto simp: rows_ok_def list_all_iff order_ok_def)
    then show ?thesis unfolding ORDER_STATES_def by (auto simp: account_key_def)
  qed
  moreover have "az_status z \<in> {''pending'', ''valid'', ''invalid'', ''deactivated'', ''expired''}
      \<and> (\<exists>r \<in> set (ac_orders st). ao_id r = az_order z \<and> ao_account r = az_account z \<and> ao_ca r = az_ca z)" if "z \<in> set (ac_authzs st)" for z
  proof -
    have "az_status z \<in> AUTHZ_STATES" "(az_order z, az_account z, az_ca z) \<in> order_key ` set (ac_orders st)"
      using wf(2) that by (auto simp: rows_ok_def list_all_iff authz_ok_def)
    then show ?thesis unfolding AUTHZ_STATES_def by (auto simp: order_key_def)
  qed
  moreover have "ch_status c \<in> {''pending'', ''processing'', ''valid'', ''invalid''}
      \<and> (\<exists>z \<in> set (ac_authzs st). az_id z = ch_authz c \<and> (az_wildcard z \<longrightarrow> ch_type c = ''dns-01''))" if "c \<in> set (ac_challs st)" for c
  proof -
    have "ch_status c \<in> CHALL_STATES" "\<exists>w. (ch_authz c, w) \<in> authz_key ` set (ac_authzs st) \<and> (w \<longrightarrow> ch_type c = ''dns-01'')"
      using wf(2) that by (auto simp: rows_ok_def list_all_iff chall_ok_def)
    then show ?thesis unfolding CHALL_STATES_def by (auto simp: authz_key_def)
  qed
  ultimately show ?thesis by blast
qed

theorem acme_tables_well_typed_witness:
  "\<exists>st P. acme_history st P \<and> ac_challs st = [demo_done] \<and> ac_authzs st = [demo_valid] \<and> distinct (map az_id (ac_authzs st))
     \<and> (\<forall>c \<in> set (ac_challs st). \<exists>z \<in> set (ac_authzs st). az_id z = ch_authz c)"
proof -
  obtain lg P where h: "acme_history (demo_acme lg ''d'' [demo_account] [demo_ready] [demo_valid] [demo_done]) P"
    using demo_history_ready by blast
  from acme_tables_well_typed [OF this] h show ?thesis
    by (intro exI [of _ "demo_acme lg ''d'' [demo_account] [demo_ready] [demo_valid] [demo_done]"] exI [of _ P]) auto
qed

section \<open>What may be used once\<close>

text \<open>C9. Over any run, each acceptance of a nonce uses up an issue of it: of a nonce
  issued once at most one request is accepted, and none after that.
\<close>

theorem nonce_single_use:
  assumes "token_run nonce_step st issued accepted st'" "live_nonces st = {#}" "count issued n \<le> 1" "n \<in># accepted"
  shows "accepted \<subseteq># issued \<and> count accepted n = 1 \<and> accepted_nonce ae hq st' \<noteq> Some n"
proof -
  note was = acme_nonces.spent_was_issued [OF assms(1)]
  have sub: "accepted \<subseteq># issued" using was assms(2) by simp
  have one: "count accepted n = 1" using mset_subset_eq_count [OF sub, of n] assms(3,4) by (simp add: count_greater_zero_iff [symmetric] del: count_greater_zero_iff)
  have dead: "n \<notin># live_nonces st'" using acme_nonces.not_live_after_spending [OF assms(1) _ assms(4)] assms(2,3) by simp
  have "accepted_nonce ae hq st' \<noteq> Some n"
  proof
    assume a: "accepted_nonce ae hq st' = Some n"
    then obtain ca s v where "acme_verified ae ca hq st' = (s, Inr v)" "jget ''nonce'' (vf_protected v) = Some (JStr n)"
      by (auto simp: accepted_nonce_def split: sum.splits prod.splits option.splits json.splits)
    then have "consume_nonce ae (Some (JStr n)) st' = (s, True)"
      by (auto simp: acme_verified_def split: sum.splits prod.splits if_splits)
    from consume_nonce_spends(1) [OF this] dead show False by (simp add: live_nonces_def)
  qed
  with sub one show ?thesis by blast
qed

text \<open>C10. A key of an external account binds one account, of the CA it was made for,
  and it is marked as used from then on.
\<close>

theorem eab_binds_one_account:
  assumes "acme_history st P" "a \<in> set (ac_accounts st)" "aa_eab a = Some k"
  shows "(\<exists>r \<in> set (ac_eabs st). ek_id r = k \<and> ek_used_at r \<noteq> None \<and> ek_ca r = aa_ca a)
    \<and> (\<forall>b \<in> set (ac_accounts st). aa_eab b = Some k \<longrightarrow> b = a)"
proof -
  note ok = history_bindings [OF assms(1)]
  have "\<exists>r \<in> set (ac_eabs st). ek_id r = k \<and> ek_used_at r \<noteq> None \<and> ek_ca r = aa_ca a"
    using ok assms(2,3) unfolding bindings_ok_def by blast
  moreover have "b = a" if "b \<in> set (ac_accounts st)" "aa_eab b = Some k" for b
    by (rule bound_once [OF ok that(1) assms(2) that(2) assms(3)])
  ultimately show ?thesis by blast
qed

subsection \<open>Instances\<close>

lemma demo_wf: "wf_acme (empty_acme demo_acme_pki)" "\<exists>lg. wf_acme (demo_acme lg ''a'' [] [] [] [])
    \<and> fst (acme_post (demo_ae ''a'') (demo_post New_order [] False []) (empty_acme demo_acme_pki)) = demo_acme lg ''a'' [] [] [] []"
  using demo_begins demo_start history_post [OF demo_begins] acme_history_inv by metis+

theorem nonce_single_use_witness:
  "\<exists>st' hq. token_run nonce_step (empty_acme demo_acme_pki) {#''a'', ''b''#} {#''a''#} st' \<and> accepted_nonce (demo_ae ''c'') hq st' \<noteq> Some ''a''"
proof -
  let ?st = "empty_acme demo_acme_pki"
  obtain lg where lg: "wf_acme (demo_acme lg ''a'' [] [] [] [])"
    "fst (acme_post (demo_ae ''a'') (demo_post New_order [] False []) ?st) = demo_acme lg ''a'' [] [] [] []" using demo_wf(2) by blast
  have "accepted_nonce (demo_ae ''a'') (demo_post New_order [] False []) ?st = None"
    by (simp add: accepted_nonce_def acme_verified_def demo_loads [of _ "p_log demo_acme_pki"] empty_acme_def)
  from nonce_step.post [OF demo_wf(1), of "demo_ae ''a''" "demo_post New_order [] False []"] this lg(2)
  have 1: "nonce_step ?st {#''a''#} {#} (demo_acme lg ''a'' [] [] [] [])" by (simp add: option_mset_def)
  obtain hq lg' where hq: "fst (acme_post (demo_ae ''b'') hq (demo_acme lg ''a'' [] [] [] [])) = demo_acme lg' ''b'' [demo_account] [] [] []"
    "accepted_nonce (demo_ae ''b'') hq (demo_acme lg ''a'' [] [] [] []) = Some ''a''" using demo_opens_account by blast
  from nonce_step.post [OF lg(1), of "demo_ae ''b''" hq] hq
  have 2: "nonce_step (demo_acme lg ''a'' [] [] [] []) {#''b''#} {#''a''#} (demo_acme lg' ''b'' [demo_account] [] [] [])"
    by (simp add: option_mset_def)
  have first: "token_run nonce_step ?st ({#} + {#''a''#}) ({#} + {#}) (demo_acme lg ''a'' [] [] [] [])"
    by (rule token_run.more) (rule token_run.none, rule 1)
  have "token_run nonce_step ?st ({#} + {#''a''#} + {#''b''#}) ({#} + {#} + {#''a''#}) (demo_acme lg' ''b'' [demo_account] [] [] [])"
    by (rule token_run.more) (rule first, rule 2)
  then have run: "token_run nonce_step ?st {#''a'', ''b''#} {#''a''#} (demo_acme lg' ''b'' [demo_account] [] [] [])" by (simp add: add_mset_commute)
  have "live_nonces ?st = {#}" by (simp add: live_nonces_def empty_acme_def)
  from nonce_single_use [OF run this, of "''a''"] run show ?thesis by auto
qed

definition demo_eab :: eab_row where
  "demo_eab = \<lparr>ek_id = 1, ek_ca = 2, ek_kid = ''k'', ek_mac = b64url_encode ''t'', ek_name = None, ek_created_by = None,
     ek_used_at = None, ek_revoked = False\<rparr>"

definition demo_binding :: json where
  "demo_binding = sign_hmac demo_jose ''t''
     (JObj [(''alg'', JStr ''HS256''), (''kid'', JStr ''k''), (''url'', JStr ''https://ca.example/acme/2/new-account'')]) demo_jwk ''HS256''"

lemma demo_bound: "check_eab (demo_ae n) demo_sub demo_jwk (Some demo_binding) (st\<lparr>ac_eabs := [demo_eab], ac_nonces := ns\<rparr>) = Inr (Some demo_eab)"
proof -
  let ?h = "JObj [(''alg'', JStr ''HS256''), (''kid'', JStr ''k''), (''url'', JStr ''https://ca.example/acme/2/new-account'')]"
  have "jget ''protected'' demo_binding = Some (JStr (b64url_encode (dumps Compact ?h)))"
    by (simp add: demo_binding_def sign_hmac_def Let_def jget_def del: dumps.simps)
  then have kid: "eab_kid demo_binding = Inr ''k''"
    by (simp add: eab_kid_def decode_encode caught_def and_then_def is_obj_def jget_def del: dumps.simps)
  have "verify_eab demo_jose demo_binding ''t'' ''https://ca.example/acme/2/new-account'' demo_jwk = Inr ()"
    unfolding demo_binding_def by (rule binding_verifies) (simp_all add: HMAC_ALGS_def json_equal_def)
  moreover have "show_nat 2 = ''2''" by code_simp
  ultimately show ?thesis
    by (simp add: check_eab_def kid first_row_def demo_eab_def decode_encode caught_def and_then_def)
qed

lemma demo_binds:
  "\<exists>st P a. acme_history st P \<and> a \<in> set (ac_accounts st) \<and> aa_eab a = Some 1"
proof -
  obtain l1 where h1: "\<exists>P. acme_history (demo_acme l1 ''a'' [] [] [] []) P" using history_post [OF demo_begins] demo_start by metis
  let ?st = "(demo_acme l1 ''a'' [] [] [] [])\<lparr>ac_eabs := [demo_eab]\<rparr>"
  have made: "fst (create_eab_key (demo_ae ''a'') ''k'' 2 None None (demo_acme l1 ''a'' [] [] [] [])) = ?st"
  proof -
    have "strip_str [] = []" by code_simp
    then show ?thesis by (simp add: create_eab_key_def fresh_id_def demo_eab_def some_nonempty_def Let_def)
  qed
  have h2: "\<exists>P. acme_history ?st P"
    using h1 acme_history.step [OF _ server_step.create_eab] made by metis
  let ?p = "JObj [(''externalAccountBinding'', demo_binding)]"
  have got: "jget_some ''externalAccountBinding'' ?p = Some demo_binding"
    by (simp add: jget_some_def jget_def demo_binding_def sign_hmac_def Let_def)
  have "\<exists>s. new_account (demo_ae ''b'') demo_sub (demo_jwk_request ?p) (?st\<lparr>ac_nonces := []\<rparr>) = (s, Inr (1, True))
      \<and> ac_accounts s = [demo_account\<lparr>aa_eab := Some 1\<rparr>]"
  proof -
    have none: "jget ''onlyReturnExisting'' ?p = None" "jget ''contact'' ?p = None" by (simp_all add: jget_def)
    have bound: "check_eab (demo_ae ''b'') demo_sub demo_jwk (Some demo_binding) (?st\<lparr>ac_nonces := []\<rparr>) = Inr (Some demo_eab)"
      by (rule demo_bound)
    show ?thesis
      by (simp add: new_account_def demo_jwk_request_def demo_thumbprint first_row_def jtruthy_def validate_contacts_def none got bound
          and_then_def fresh_account_def fresh_id_def demo_jwk_normal use_eab_def acme_log_def Let_def del: One_nat_def)
        (simp add: demo_account_def demo_eab_def demo_env_facts)
  qed
  then obtain s where s: "new_account (demo_ae ''b'') demo_sub (demo_jwk_request ?p) (?st\<lparr>ac_nonces := []\<rparr>) = (s, Inr (1, True))"
    "ac_accounts s = [demo_account\<lparr>aa_eab := Some 1\<rparr>]" by blast
  from demo_account_post(1) [OF _ _ _ s(1)]
  have "fst (acme_post (demo_ae ''b'') (demo_post New_account ''u'' True (demo_body (''jwk'', demo_jwk) ''a'' ''u'' ?p)) ?st)
      = issue_nonce (demo_ae ''b'') s" by (simp add: is_obj_def)
  from history_post [OF h2 this] obtain P where "acme_history (issue_nonce (demo_ae ''b'') s) P" by blast
  moreover have "demo_account\<lparr>aa_eab := Some 1\<rparr> \<in> set (ac_accounts (issue_nonce (demo_ae ''b'') s))" by (simp add: issue_nonce_def s(2))
  ultimately show ?thesis by (intro exI conjI) (assumption, assumption, simp)
qed

theorem eab_binds_one_account_witness:
  "\<exists>st P. \<exists>a \<in> set (ac_accounts st). acme_history st P \<and> aa_eab a = Some 1 \<and> (\<exists>r \<in> set (ac_eabs st). ek_id r = 1 \<and> ek_used_at r \<noteq> None \<and> ek_ca r = aa_ca a)"
proof -
  obtain st P a where h: "acme_history st P" "a \<in> set (ac_accounts st)" "aa_eab a = Some 1" using demo_binds by blast
  from eab_binds_one_account [OF h] h show ?thesis by blast
qed

section \<open>Requests\<close>

text \<open>C3. A request the server acts on is signed, over exactly the header and payload
  it reads, with the key of a valid account of this CA, or, for a new account and
  a revocation only, with the key in the header; it is meant for this URL, and
  its nonce was live and is no longer.
\<close>

theorem accepted_request_is_authentic:
  assumes "wf_acme st" "acme_verified ae ca hq st = (st', Inr v)"
  shows "\<exists>body p d sig alg n. jws_parse (hq_body hq) = Inr body
    \<and> jget ''protected'' body = Some (JStr p) \<and> jget ''payload'' body = Some (JStr d)
    \<and> key_for_alg alg (vf_key v) \<and> jo_sig (ae_jose ae) (vf_key v) alg (p @ CHR ''.'' # d) sig
    \<and> protected_header body = Inr (vf_protected v) \<and> decoded_payload (JStr d) = Inr (vf_payload v)
    \<and> jget ''alg'' (vf_protected v) = Some (JStr alg) \<and> jget ''url'' (vf_protected v) = Some (JStr (hq_url hq))
    \<and> jget ''nonce'' (vf_protected v) = Some (JStr n) \<and> n \<in># live_nonces st \<and> n \<notin># live_nonces st'
    \<and> (case vf_account v of
         Some a \<Rightarrow> a \<in> set (ac_accounts st) \<and> aa_ca a = ca_id ca \<and> aa_status a = ''valid''
           \<and> jwk_to_public_key (ae_jose ae) (aa_jwk a) = Inr (vf_key v)
       | None \<Rightarrow> hq_route hq \<in> {New_account, Revoke_cert} \<and> jget_some ''jwk'' (vf_protected v) = Some (vf_jwk v)
           \<and> jwk_to_public_key (ae_jose ae) (vf_jwk v) = Inr (vf_key v))"
proof -
  from assms(2) obtain body where b: "jws_parse (hq_body hq) = Inr body"
    "jws_verify (ae_jose ae) body (hq_url hq) (account_for_kid ae st ca) aa_jwk (allows_jwk (hq_route hq)) (hq_route hq \<noteq> New_account) True = Inr v"
    "consume_nonce ae (jget ''nonce'' (vf_protected v)) st = (st', True)"
    by (auto simp: acme_verified_def and_then_Inr split: sum.splits prod.splits if_splits)
  from jws_verify_ok [OF b(2)] obtain alg p d s sig where j: "header_ok (vf_protected v) (hq_url hq) True = Inr alg"
    "request_key (ae_jose ae) (vf_protected v) (account_for_kid ae st ca) aa_jwk (allows_jwk (hq_route hq)) (hq_route hq \<noteq> New_account)
       = Inr (vf_jwk v, vf_kid v, vf_account v, vf_key v)"
    "jget ''protected'' body = Some (JStr p)" "jget ''payload'' body = Some (JStr d)" "key_for_alg alg (vf_key v)"
    "jo_sig (ae_jose ae) (vf_key v) alg (p @ CHR ''.'' # d) sig" "decoded_payload (JStr d) = Inr (vf_payload v)"
    "protected_header body = Inr (vf_protected v)" by blast
  obtain n where h: "jget ''alg'' (vf_protected v) = Some (JStr alg)" "jget ''url'' (vf_protected v) = Some (JStr (hq_url hq))"
    "jget ''nonce'' (vf_protected v) = Some (JStr n)" using header_ok_Inr [OF j(1)] by blast
  note spent = consume_nonce_spends [OF b(3) [unfolded h(3)]]
  have n: "n \<in># live_nonces st" using spent(1) by (simp add: live_nonces_def)
  have gone: "n \<notin># live_nonces st'" by (simp add: spent(2) live_nonces_def image_iff)
  have key: "jwk_to_public_key (ae_jose ae) (vf_jwk v) = Inr (vf_key v)" using request_key_Inr(1) [OF j(2)] .
  have owner: "case vf_account v of
         Some a \<Rightarrow> a \<in> set (ac_accounts st) \<and> aa_ca a = ca_id ca \<and> aa_status a = ''valid''
           \<and> jwk_to_public_key (ae_jose ae) (aa_jwk a) = Inr (vf_key v)
       | None \<Rightarrow> hq_route hq \<in> {New_account, Revoke_cert} \<and> jget_some ''jwk'' (vf_protected v) = Some (vf_jwk v)
           \<and> jwk_to_public_key (ae_jose ae) (vf_jwk v) = Inr (vf_key v)"
  proof (cases "vf_account v")
    case None
    then show ?thesis using request_key_Inr(2) [OF j(2)] key by (simp add: allows_jwk_def)
  next
    case (Some a)
    from acme_verified_ok(2) [OF assms(2) Some] have "a \<in> set (ac_accounts st)" "aa_ca a = ca_id ca" "aa_status a = ''valid''"
      "jwk_to_public_key (ae_jose ae) (aa_jwk a) = Inr (vf_key v)" using key by auto
    then show ?thesis by (simp add: Some)
  qed
  show ?thesis
    by (rule exI [of _ body], rule exI [of _ p], rule exI [of _ d], rule exI [of _ sig], rule exI [of _ alg], rule exI [of _ n])
      (intro conjI b(1) j h n gone owner)
qed

theorem accepted_request_is_authentic_witness:
  "\<exists>st hq st' v. acme_verified (demo_ae ''b'') demo_sub hq st = (st', Inr v) \<and> ''a'' \<in># live_nonces st \<and> ''a'' \<notin># live_nonces st'
     \<and> vf_account v = None \<and> hq_route hq = New_account"
proof -
  obtain lg where wf: "wf_acme (demo_acme lg ''a'' [] [] [] [])" using demo_wf(2) by blast
  let ?st = "demo_acme lg ''a'' [] [] [] []" and ?hq = "demo_post New_account ''u'' True (demo_body (''jwk'', demo_jwk) ''a'' ''u'' (JObj []))"
  have load: "load_ca (demo_ae ''b'') ?hq ?st = Inr demo_sub" by (rule demo_loads) simp
  have "accepted_nonce (demo_ae ''b'') ?hq ?st = Some ''a''" by (rule demo_opens_account(2))
  then obtain st' v where v: "acme_verified (demo_ae ''b'') demo_sub ?hq ?st = (st', Inr v)" "jget ''nonce'' (vf_protected v) = Some (JStr ''a'')"
    unfolding accepted_nonce_def load by (auto split: sum.splits prod.splits option.splits json.splits)
  from accepted_request_is_authentic [OF wf v(1)] v(2)
  have n: "''a'' \<in># live_nonces ?st" "''a'' \<notin># live_nonces st'" by auto
  have "vf_account v = None"
  proof (rule ccontr)
    assume "vf_account v \<noteq> None"
    then obtain a where "vf_account v = Some a" by blast
    from acme_verified_ok(2) [OF v(1) this] show False by simp
  qed
  moreover have "hq_route ?hq = New_account" by simp
  ultimately show ?thesis using v(1) n by blast
qed

section \<open>Revocation\<close>

text \<open>C11. A certificate is revoked through ACME only at its own CA and once, by the
  account it was issued to or by who holds its key; no other certificate changes.
\<close>

theorem acme_revocation_authorised:
  assumes "wf_table ct_id (p_certs (ac_pki st))" "acme_revoke ae ca v st = (st', Inr n)"
  shows "\<exists>c reason. get_row ct_id n (p_certs (ac_pki st)) = Some c \<and> ct_ca c = ca_id ca \<and> \<not> ct_revoked c
    \<and> (case vf_account v of Some a \<Rightarrow> ct_acme_account c = Some (aa_id a) | None \<Rightarrow> x_key (ct_cert c) = vf_key v)
    \<and> p_certs (ac_pki st') = put_row ct_id (c\<lparr>ct_revoked := True, ct_revoked_at := Some (ae_now ae), ct_reason := Some reason\<rparr>)
        (p_certs (ac_pki st))"
proof -
  obtain c reason where checks: "revoke_checks ae ca v st = Inr (c, reason)" using assms(2) by (auto simp: acme_revoke_def split: sum.splits)
  have own: "ct_ca c = ca_id ca" "\<not> ct_revoked c" "c \<in> set (p_certs (ac_pki st))"
    "case vf_account v of Some a \<Rightarrow> ct_acme_account c = Some (aa_id a) | None \<Rightarrow> x_key (ct_cert c) = vf_key v"
    using checks by (auto simp: revoke_checks_def first_row_def Let_def split: sum.splits option.splits if_splits dest: find_Some_mem)
  have row: "get_row ct_id (ct_id c) (p_certs (ac_pki st)) = Some c" by (rule get_row_in [OF assms(1) own(3)])
  obtain p z where rev: "revoke_certificate (ae_env ae) reason False (ct_id c) (ac_pki st) = Inr (p, z)"
    using assms(2) checks by (auto simp: acme_revoke_def split: sum.splits)
  let ?log = "acme_log ae ''acme_certificate_revoked'' ''certificate'' (ct_id c)
       (JObj [(''ca_id'', JInt (int (ca_id ca))), (''reason'', JStr reason),
          (''by'', JStr (case vf_account v of None \<Rightarrow> ''certificate-key'' | Some _ \<Rightarrow> ''account'')),
          (''account_id'', j_opt_nat (map_option aa_id (vf_account v)))]) (st\<lparr>ac_pki := p\<rparr>)"
  have certs: "p_certs p = put_row ct_id (c\<lparr>ct_revoked := True, ct_revoked_at := Some (ae_now ae), ct_reason := Some reason\<rparr>)
      (p_certs (ac_pki st))"
    using rev row own(2) by (simp add: revoke_certificate_def Let_def split: if_splits) force
  have "p_certs (ac_pki st') = p_certs p \<and> n = ct_id c"
    using assms(2) checks rev refresh_crl_tables [of "ae_env ae" "Some (ca_id ca)" "ac_pki ?log"]
    by (cases "refresh_crl (ae_env ae) (Some (ca_id ca)) (ac_pki ?log)") (auto simp: acme_revoke_def acme_log_def Let_def)
  with row own certs show ?thesis by metis
qed

theorem acme_revocation_authorised_witness:
  "\<exists>st ae v st' c. acme_revoke ae demo_sub v st = (st', Inr 1) \<and> get_row ct_id 1 (p_certs (ac_pki st)) = Some c
     \<and> x_key (ct_cert c) = vf_key v \<and> ct_ca c = 2"
proof -
  let ?c = "demo_cert 1 2 False" and ?st = "empty_acme demo_acme_pki"
  let ?ae = "(demo_ae ''e'')\<lparr>ae_load_cert := \<lambda>der. Some (ct_cert (demo_cert 1 2 False))\<rparr>"
  let ?v = "\<lparr>vf_protected = JObj [], vf_payload = Some (JObj [(''certificate'', JStr (b64url_encode ''x''))]), vf_jwk = demo_jwk, vf_kid = None,
      vf_key = Rsa 3072 101, vf_account = None\<rparr> :: acme_account verified"
  have certs: "p_certs (ac_pki ?st) = [?c, demo_cert 2 2 True, demo_cert 3 1 False]"
    by (simp add: empty_acme_def demo_acme_pki_def demo_pki_def)
  have row: "get_row ct_id 1 (p_certs (ac_pki ?st)) = Some ?c" unfolding certs by (simp add: get_row_def)
  have checks: "revoke_checks ?ae demo_sub ?v ?st = Inr (?c, ''unspecified'')"
    by (simp add: revoke_checks_def jget_def decode_encode first_row_def certs demo_tbs_def reason_code_def REASON_CODES_def Let_def)
  have "\<exists>p. revoke_certificate (ae_env ?ae) ''unspecified'' False 1 (ac_pki ?st) = Inr (p, None)"
    unfolding revoke_certificate_def row by (simp add: REVOCATION_REASONS_def Let_def)
  then obtain p where rev: "revoke_certificate (ae_env ?ae) ''unspecified'' False 1 (ac_pki ?st) = Inr (p, None)" by blast
  have "\<exists>st'. acme_revoke ?ae demo_sub ?v ?st = (st', Inr 1)"
    unfolding acme_revoke_def checks sum.case prod.case unfolding demo_rows(4) rev by (auto simp: Let_def split: sum.split)
  then obtain st' where st': "acme_revoke ?ae demo_sub ?v ?st = (st', Inr 1)" by blast
  have "wf_table ct_id (p_certs (ac_pki ?st))" unfolding certs by (simp add: wf_table_def)
  from acme_revocation_authorised [OF this st'] obtain c where "get_row ct_id 1 (p_certs (ac_pki ?st)) = Some c" "ct_ca c = 2" "x_key (ct_cert c) = vf_key ?v"
    by auto
  with st' show ?thesis by blast
qed

section \<open>The fetch of a challenge file\<close>

text \<open>An URL the loop may open: http or https, and a host the outbound policy lets through.\<close>

definition askable :: "acme_env \<Rightarrow> bool \<Rightarrow> string \<Rightarrow> bool" where
  "askable ae lax url \<longleftrightarrow> (\<exists>host. url_hostname url = Inr host \<and> url_scheme url \<in> {''http'', ''https''}
     \<and> nw_allowed (ae_net ae) (ae_allow_loopback ae \<or> lax) host)"

definition answering :: "(string \<Rightarrow> http_reply) \<Rightarrow> acme_env \<Rightarrow> acme_env" where
  "answering g ae = ae\<lparr>ae_net := (ae_net ae)\<lparr>nw_get := g\<rparr>\<rparr>"

lemma answering_simps [simp]:
  "ae_allow_loopback (answering g ae) = ae_allow_loopback ae" "ae_connect_host (answering g ae) = ae_connect_host ae"
  "ae_http_port (answering g ae) = ae_http_port ae" "nw_get (ae_net (answering g ae)) = g"
  "nw_join (ae_net (answering g ae)) = nw_join (ae_net ae)" "nw_allowed (ae_net (answering g ae)) = nw_allowed (ae_net ae)"
  by (simp_all add: answering_def)

lemma fetch_loop_answers:
  assumes "askable ae lax url \<Longrightarrow> g url = nw_get (ae_net ae) url" "\<And>u. askable ae False u \<Longrightarrow> g u = nw_get (ae_net ae) u"
  shows "fetch_loop (answering g ae) expected n lax url = fetch_loop ae expected n lax url"
  using assms(1)
proof (induction n arbitrary: lax url)
  case (Suc n)
  show ?case
  proof (cases "askable ae lax url")
    case True
    have "fetch_loop (answering g ae) expected n False u = fetch_loop ae expected n False u" for u using Suc.IH assms(2) by blast
    with True Suc.prems show ?thesis by (auto simp: askable_def split: http_reply.splits option.splits)
  next
    case False
    then show ?thesis by (auto simp: askable_def split: sum.splits)
  qed
qed simp

lemma fetch_loop_success:
  assumes "fetch_loop ae expected n lax url = Inr None"
  shows "\<exists>u l bytes answer. (askable ae l u \<and> (l \<longrightarrow> lax \<and> u = url)) \<and> nw_get (ae_net ae) u = Http_text 200 bytes answer \<and> bytes \<le> 4096 \<and> strip_str answer = expected"
  using assms
proof (induction n arbitrary: lax url)
  case (Suc n)
  then obtain host where h: "askable ae lax url" "url_hostname url = Inr host" "url_scheme url \<in> {''http'', ''https''}"
      "nw_allowed (ae_net ae) (ae_allow_loopback ae \<or> lax) host"
    by (auto simp: askable_def split: sum.splits if_splits)
  show ?case
  proof (cases "nw_get (ae_net ae) url")
    case (Http_text status bytes answer)
    with Suc.prems h have "status = 200 \<and> bytes \<le> 4096 \<and> strip_str answer = expected" by (auto split: if_splits)
    with h(1) Http_text show ?thesis by blast
  next
    case (Http_error code loc)
    with Suc.prems h obtain u where "fetch_loop ae expected n False u = Inr None" by (auto split: option.splits if_splits)
    from Suc.IH [OF this] show ?thesis by blast
  qed (use Suc.prems h in auto)
qed simp

definition first_url :: "acme_env \<Rightarrow> string \<Rightarrow> string \<Rightarrow> string" where
  "first_url ae host token = challenge_url (ae_http_port ae) (case ae_connect_host ae of None \<Rightarrow> host | Some h \<Rightarrow> h) token"

text \<open>C12. The validation opens only URLs the outbound policy lets through, redirects
  included: what any other URL would answer does not matter. It succeeds only
  when one of those answers 200 with the key authorization.
\<close>

theorem http01_only_asks_allowed_hosts:
  assumes "\<And>u. askable ae False u \<or> (u = first_url ae host token \<and> askable ae (ae_connect_host ae \<noteq> None) u) \<Longrightarrow> g u = nw_get (ae_net ae) u"
  shows "fetch_http01 (answering g ae) host token expected = fetch_http01 ae host token expected
    \<and> (fetch_http01 ae host token expected = Inr None \<longrightarrow>
        (\<exists>u bytes answer. (askable ae False u \<or> (u = first_url ae host token \<and> askable ae (ae_connect_host ae \<noteq> None) u))
           \<and> nw_get (ae_net ae) u = Http_text 200 bytes answer \<and> bytes \<le> 4096 \<and> strip_str answer = expected))"
proof -
  have "fetch_loop (answering g ae) expected 6 (ae_connect_host ae \<noteq> None) (first_url ae host token) = fetch_loop ae expected 6 (ae_connect_host ae \<noteq> None) (first_url ae host token)"
    using assms by (intro fetch_loop_answers) blast+
  then have same: "fetch_http01 (answering g ae) host token expected = fetch_http01 ae host token expected"
    by (simp add: fetch_http01_def first_url_def)
  have "\<exists>u bytes answer. (askable ae False u \<or> (u = first_url ae host token \<and> askable ae (ae_connect_host ae \<noteq> None) u))
      \<and> nw_get (ae_net ae) u = Http_text 200 bytes answer \<and> bytes \<le> 4096 \<and> strip_str answer = expected"
    if "fetch_http01 ae host token expected = Inr None"
  proof -
    from that have "fetch_loop ae expected 6 (ae_connect_host ae \<noteq> None) (first_url ae host token) = Inr None" by (simp add: fetch_http01_def first_url_def)
    from fetch_loop_success [OF this] obtain u l bytes answer where u: "askable ae l u" "l \<longrightarrow> ae_connect_host ae \<noteq> None \<and> u = first_url ae host token"
      "nw_get (ae_net ae) u = Http_text 200 bytes answer \<and> bytes \<le> 4096 \<and> strip_str answer = expected" by blast
    then show ?thesis by (cases l) auto
  qed
  with same show ?thesis by blast
qed

lemma demo_challenge_host:
  "url_hostname ''http://a.example/.well-known/acme-challenge/t'' = Inr ''a.example''"
  "url_scheme ''http://a.example/.well-known/acme-challenge/t'' = ''http''"
  "strip_str ''t.h'' = ''t.h''"
  by code_simp+

theorem http01_only_asks_allowed_hosts_witness:
  "\<exists>ae g. g ''http://evil.example/'' \<noteq> nw_get (ae_net ae) ''http://evil.example/''
     \<and> fetch_http01 (answering g ae) ''a.example'' ''t'' ''t.h'' = Inr None"
proof -
  let ?net = "demo_network\<lparr>nw_get := \<lambda>u. Http_text 200 3 ''t.h'', nw_allowed := \<lambda>lax h. h = ''a.example''\<rparr>"
  let ?ae = "(demo_ae [])\<lparr>ae_net := ?net\<rparr>"
  let ?g = "\<lambda>u. if url_hostname u = Inr ''a.example'' then Http_text 200 3 ''t.h'' else Unreachable"
  have start: "first_url ?ae ''a.example'' ''t'' = ''http://a.example/.well-known/acme-challenge/t''"
    by (simp add: first_url_def challenge_url_def demo_ae_def)
  have "?g u = nw_get (ae_net ?ae) u" if "askable ?ae False u \<or> (u = first_url ?ae ''a.example'' ''t'' \<and> askable ?ae (ae_connect_host ?ae \<noteq> None) u)" for u
    using that by (auto simp: askable_def)
  from http01_only_asks_allowed_hosts [where ae = ?ae and g = ?g, OF this]
  have same: "fetch_http01 (answering ?g ?ae) ''a.example'' ''t'' ''t.h'' = fetch_http01 ?ae ''a.example'' ''t'' ''t.h''" by blast
  have "fetch_http01 ?ae ''a.example'' ''t'' ''t.h'' = Inr None"
    using start by (simp add: fetch_http01_def first_url_def numeral_eq_Suc demo_challenge_host)
  moreover have "url_hostname ''http://evil.example/'' = Inr ''evil.example''" by code_simp
  ultimately show ?thesis using same by (intro exI [of _ ?ae] exI [of _ ?g]) simp
qed

end
