(* ===== verification/Spec2Isabelle.thy ===== *)
theory Spec2Isabelle
  imports AuditChain_Claims Auth_Claims Totp_Claims UserAdmin_Claims Scheduler_Claims Gate_Claims Ocsp_Claims Authority_Claims Issuance_Claims Csr_Claims Acme_Claims
begin

text \<open>
  Chancery, a certificate authority in Python: the model and its theorems.
\<close>

end
